(* ===== verification/Prelude.thy ===== *)
theory Prelude
  imports Complex_Main "HOL-Library.Word"
begin

text \<open>
  The vocabulary every component shares: the outcome of a piece of JavaScript (a value, a
  thrown exception, or the end of the process), the state-passing computations built on it,
  the reasoning rules for them, and a small state-machine interface.

  A computation of type \<open>('s, 'a) io\<close> maps a state to an outcome and a new state.
  Sequencing stops at the first exception, as an \<open>await\<close> of a rejected promise does;
  \<open>catch\<close> is \<open>try/catch\<close>; \<open>process.exit(c)\<close> is the outcome \<open>Exit c\<close>,
  which nothing catches.  A promise that the code starts and does not await is
  \<open>spawn\<close>: its effects happen, its outcome does not reach the caller.
\<close>

section \<open>Outcomes\<close>

datatype exn =
    Err string          \<comment> \<open>\<open>new Error(msg)\<close>, and rejections of external calls\<close>
  | TypeErr string
  | RefErr string
  | SyntaxErr string
  | RangeErr string
  | ThrownUndefined     \<comment> \<open>\<open>throw undefined\<close>\<close>

fun exn_message :: "exn \<Rightarrow> string" where
  "exn_message (Err m) = m"
| "exn_message (TypeErr m) = m"
| "exn_message (RefErr m) = m"
| "exn_message (SyntaxErr m) = m"
| "exn_message (RangeErr m) = m"
| "exn_message ThrownUndefined = []"

datatype 'a res = Ok 'a | Throw exn | Exit int

fun map_Ok :: "('a \<Rightarrow> 'b) \<Rightarrow> 'a res \<Rightarrow> 'b res" where
  "map_Ok f (Ok a) = Ok (f a)"
| "map_Ok f (Throw e) = Throw e"
| "map_Ok f (Exit c) = Exit c"

fun bind_res :: "'a res \<Rightarrow> ('a \<Rightarrow> 'b res) \<Rightarrow> 'b res" where
  "bind_res (Ok a) f = f a"
| "bind_res (Throw e) f = Throw e"
| "bind_res (Exit c) f = Exit c"

fun is_Ok :: "'a res \<Rightarrow> bool" where
  "is_Ok (Ok _) = True"
| "is_Ok _ = False"

lemma is_Ok_iff: "is_Ok r \<longleftrightarrow> (\<exists>a. r = Ok a)"
  by (cases r) auto

lemma bind_res_Ok_iff: "bind_res r f = Ok b \<longleftrightarrow> (\<exists>a. r = Ok a \<and> f a = Ok b)"
  by (cases r) auto

section \<open>State-passing computations\<close>

type_synonym ('s, 'a) io = "'s \<Rightarrow> 'a res \<times> 's"

definition ret :: "'a \<Rightarrow> ('s, 'a) io" where
  "ret a = (\<lambda>s. (Ok a, s))"

definition throw :: "exn \<Rightarrow> ('s, 'a) io" where
  "throw e = (\<lambda>s. (Throw e, s))"

definition exit_process :: "int \<Rightarrow> ('s, 'a) io" where
  "exit_process c = (\<lambda>s. (Exit c, s))"

definition of_res :: "'a res \<Rightarrow> ('s, 'a) io" where
  "of_res r = (\<lambda>s. (r, s))"

definition gets :: "('s \<Rightarrow> 'a) \<Rightarrow> ('s, 'a) io" where
  "gets f = (\<lambda>s. (Ok (f s), s))"

definition modify :: "('s \<Rightarrow> 's) \<Rightarrow> ('s, unit) io" where
  "modify f = (\<lambda>s. (Ok (), f s))"

definition bnd :: "('s, 'a) io \<Rightarrow> ('a \<Rightarrow> ('s, 'b) io) \<Rightarrow> ('s, 'b) io" where
  "bnd m f = (\<lambda>s. case m s of
       (Ok a, s') \<Rightarrow> f a s'
     | (Throw e, s') \<Rightarrow> (Throw e, s')
     | (Exit c, s') \<Rightarrow> (Exit c, s'))"

definition andthen :: "('s, 'a) io \<Rightarrow> ('s, 'b) io \<Rightarrow> ('s, 'b) io" where
  "andthen m n = bnd m (\<lambda>_. n)"

definition catch :: "('s, 'a) io \<Rightarrow> (exn \<Rightarrow> ('s, 'a) io) \<Rightarrow> ('s, 'a) io" where
  "catch m h = (\<lambda>s. case m s of
       (Ok a, s') \<Rightarrow> (Ok a, s')
     | (Throw e, s') \<Rightarrow> h e s'
     | (Exit c, s') \<Rightarrow> (Exit c, s'))"

text \<open>\<open>for (const x of xs) body(x)\<close>: stops at the first exception.\<close>

fun for_each :: "'b list \<Rightarrow> ('b \<Rightarrow> ('s, unit) io) \<Rightarrow> ('s, unit) io" where
  "for_each [] f = ret ()"
| "for_each (x # xs) f = andthen (f x) (for_each xs f)"

named_theorems io_simps \<open>running a computation on a state\<close>
named_theorems keeps_rules \<open>composition rules for invariants of computations\<close>

lemma ret_run [io_simps]: "ret a s = (Ok a, s)"
  by (simp add: ret_def)

lemma throw_run [io_simps]: "throw e s = (Throw e, s)"
  by (simp add: throw_def)

lemma exit_run [io_simps]: "exit_process c s = (Exit c, s)"
  by (simp add: exit_process_def)

lemma of_res_run [io_simps]: "of_res r s = (r, s)"
  by (simp add: of_res_def)

lemma gets_run [io_simps]: "gets f s = (Ok (f s), s)"
  by (simp add: gets_def)

lemma modify_run [io_simps]: "modify f s = (Ok (), f s)"
  by (simp add: modify_def)

lemma bnd_Ok [io_simps]: "m s = (Ok a, s') \<Longrightarrow> bnd m f s = f a s'"
  by (simp add: bnd_def)

lemma bnd_Throw [io_simps]: "m s = (Throw e, s') \<Longrightarrow> bnd m f s = (Throw e, s')"
  by (simp add: bnd_def)

lemma bnd_Exit [io_simps]: "m s = (Exit c, s') \<Longrightarrow> bnd m f s = (Exit c, s')"
  by (simp add: bnd_def)

lemma andthen_Ok [io_simps]: "m s = (Ok a, s') \<Longrightarrow> andthen m n s = n s'"
  by (simp add: andthen_def bnd_def)

lemma andthen_Throw [io_simps]: "m s = (Throw e, s') \<Longrightarrow> andthen m n s = (Throw e, s')"
  by (simp add: andthen_def bnd_def)

lemma andthen_Exit [io_simps]: "m s = (Exit c, s') \<Longrightarrow> andthen m n s = (Exit c, s')"
  by (simp add: andthen_def bnd_def)

lemma catch_Ok [io_simps]: "m s = (Ok a, s') \<Longrightarrow> catch m h s = (Ok a, s')"
  by (simp add: catch_def)

lemma catch_Throw [io_simps]: "m s = (Throw e, s') \<Longrightarrow> catch m h s = h e s'"
  by (simp add: catch_def)

lemma catch_Exit [io_simps]: "m s = (Exit c, s') \<Longrightarrow> catch m h s = (Exit c, s')"
  by (simp add: catch_def)

lemma bnd_OkD:
  assumes "bnd m f s = (Ok b, s'')"
  obtains a s' where "m s = (Ok a, s')" "f a s' = (Ok b, s'')"
  using assms by (auto simp: bnd_def split: prod.splits res.splits)

lemma andthen_OkD:
  assumes "andthen m n s = (Ok b, s'')"
  obtains a s' where "m s = (Ok a, s')" "n s' = (Ok b, s'')"
  using assms by (auto simp: andthen_def elim: bnd_OkD)

lemma bnd_assoc: "bnd (bnd m f) g = bnd m (\<lambda>a. bnd (f a) g)"
  by (auto simp: bnd_def fun_eq_iff split: prod.splits res.splits)

lemma bnd_ret: "bnd (ret a) f = f a"
  by (simp add: bnd_def ret_def fun_eq_iff)

lemma bnd_throw: "bnd (throw e) f = throw e"
  by (simp add: bnd_def throw_def fun_eq_iff)

lemma bnd_if: "bnd (if b then m else n) f = (if b then bnd m f else bnd n f)"
  by simp

section \<open>Invariants of computations\<close>

text \<open>\<open>keeps I m\<close>: whatever the outcome of \<open>m\<close>, the invariant \<open>I\<close> still holds.\<close>

definition keeps :: "('s \<Rightarrow> bool) \<Rightarrow> ('s, 'a) io \<Rightarrow> bool" where
  "keeps I m \<longleftrightarrow> (\<forall>s. I s \<longrightarrow> I (snd (m s)))"

lemma keepsI: "(\<And>s r s'. I s \<Longrightarrow> m s = (r, s') \<Longrightarrow> I s') \<Longrightarrow> keeps I m"
  unfolding keeps_def by (metis prod.collapse)

lemma keepsD: "keeps I m \<Longrightarrow> I s \<Longrightarrow> m s = (r, s') \<Longrightarrow> I s'"
  unfolding keeps_def by (metis snd_conv)

lemma keeps_ret [keeps_rules]: "keeps I (ret a)"
  by (simp add: keeps_def ret_def)

lemma keeps_throw [keeps_rules]: "keeps I (throw e)"
  by (simp add: keeps_def throw_def)

lemma keeps_exit [keeps_rules]: "keeps I (exit_process c)"
  by (simp add: keeps_def exit_process_def)

lemma keeps_of_res [keeps_rules]: "keeps I (of_res r)"
  by (simp add: keeps_def of_res_def)

lemma keeps_gets [keeps_rules]: "keeps I (gets f)"
  by (simp add: keeps_def gets_def)

lemma keeps_modify: "(\<And>s. I s \<Longrightarrow> I (f s)) \<Longrightarrow> keeps I (modify f)"
  by (simp add: keeps_def modify_def)

lemma keeps_bnd [keeps_rules]:
  "keeps I m \<Longrightarrow> (\<And>a. keeps I (f a)) \<Longrightarrow> keeps I (bnd m f)"
  unfolding keeps_def bnd_def by (auto split: prod.splits res.splits)

lemma keeps_andthen [keeps_rules]: "keeps I m \<Longrightarrow> keeps I n \<Longrightarrow> keeps I (andthen m n)"
  unfolding andthen_def by (rule keeps_bnd)

lemma keeps_catch [keeps_rules]:
  "keeps I m \<Longrightarrow> (\<And>e. keeps I (h e)) \<Longrightarrow> keeps I (catch m h)"
  unfolding keeps_def catch_def by (auto split: prod.splits res.splits)

lemma keeps_if [keeps_rules]:
  "(b \<Longrightarrow> keeps I m) \<Longrightarrow> (\<not> b \<Longrightarrow> keeps I n) \<Longrightarrow> keeps I (if b then m else n)"
  by simp

lemma keeps_for_each [keeps_rules]: "(\<And>x. keeps I (f x)) \<Longrightarrow> keeps I (for_each xs f)"
  by (induction xs) (auto intro!: keeps_rules)

text \<open>\<open>returns Q m\<close>: every value that \<open>m\<close> returns satisfies \<open>Q\<close>.\<close>

definition returns :: "('a \<Rightarrow> bool) \<Rightarrow> ('s, 'a) io \<Rightarrow> bool" where
  "returns Q m \<longleftrightarrow> (\<forall>s a s'. m s = (Ok a, s') \<longrightarrow> Q a)"

lemma returns_ret: "Q a \<Longrightarrow> returns Q (ret a)"
  by (simp add: returns_def ret_def)

lemma returns_bnd: "(\<And>a. returns Q (f a)) \<Longrightarrow> returns Q (bnd m f)"
  by (auto simp: returns_def elim!: bnd_OkD)

lemma returns_andthen: "returns Q n \<Longrightarrow> returns Q (andthen m n)"
  unfolding andthen_def by (rule returns_bnd)

lemma keeps_bnd_returns:
  assumes "keeps I m" and "returns Q m" and "\<And>a. Q a \<Longrightarrow> keeps I (f a)"
  shows "keeps I (bnd m f)"
proof (rule keepsI)
  fix s r s'
  assume "I s" and run: "bnd m f s = (r, s')"
  obtain r0 s0 where m: "m s = (r0, s0)" by force
  with assms(1) \<open>I s\<close> have "I s0" by (rule keepsD)
  with m run assms(2,3) show "I s'"
    by (cases r0) (auto simp: bnd_def returns_def dest: keepsD)
qed

text \<open>
  \<open>stays R m\<close>: whatever the outcome of \<open>m\<close>, the state before and the state after are
  related.  For a reflexive and transitive \<open>R\<close> the combinators compose.
\<close>

definition stays :: "('s \<Rightarrow> 's \<Rightarrow> bool) \<Rightarrow> ('s, 'a) io \<Rightarrow> bool" where
  "stays R m \<longleftrightarrow> (\<forall>s. R s (snd (m s)))"

lemma staysI: "(\<And>s r s'. m s = (r, s') \<Longrightarrow> R s s') \<Longrightarrow> stays R m"
  unfolding stays_def by (metis prod.collapse)

lemma staysD: "stays R m \<Longrightarrow> m s = (r, s') \<Longrightarrow> R s s'"
  unfolding stays_def by (metis snd_conv)

locale state_order =
  fixes R :: "'s \<Rightarrow> 's \<Rightarrow> bool"
  assumes refl: "R s s" and trans: "R s t \<Longrightarrow> R t u \<Longrightarrow> R s u"
begin

lemma stays_pure:
  "stays R (ret a)" "stays R (throw e)" "stays R (exit_process c)" "stays R (of_res r)" "stays R (gets f)"
  by (simp_all add: stays_def ret_def throw_def exit_process_def of_res_def gets_def refl)

lemma stays_modify: "(\<And>s. R s (f s)) \<Longrightarrow> stays R (modify f)"
  by (simp add: stays_def modify_def)

lemma stays_bnd:
  assumes "stays R m" and "\<And>a. stays R (f a)"
  shows "stays R (bnd m f)"
proof (rule staysI)
  fix s r s'
  assume run: "bnd m f s = (r, s')"
  obtain r0 s0 where m: "m s = (r0, s0)" by force
  from staysD[OF assms(1) m] have "R s s0" .
  with run m show "R s s'"
    by (cases r0) (auto simp: bnd_def dest: staysD[OF assms(2)] intro: trans)
qed

lemma stays_andthen: "stays R m \<Longrightarrow> stays R n \<Longrightarrow> stays R (andthen m n)"
  unfolding andthen_def by (rule stays_bnd)

lemma stays_catch:
  assumes "stays R m" and "\<And>e. stays R (h e)"
  shows "stays R (catch m h)"
proof (rule staysI)
  fix s r s'
  assume run: "catch m h s = (r, s')"
  obtain r0 s0 where m: "m s = (r0, s0)" by force
  from staysD[OF assms(1) m] have "R s s0" .
  with run m show "R s s'"
    by (cases r0) (auto simp: catch_def dest: staysD[OF assms(2)] intro: trans)
qed

lemma stays_if: "(b \<Longrightarrow> stays R m) \<Longrightarrow> (\<not> b \<Longrightarrow> stays R n) \<Longrightarrow> stays R (if b then m else n)"
  by simp

lemma stays_option:
  "(v = None \<Longrightarrow> stays R m) \<Longrightarrow> (\<And>a. v = Some a \<Longrightarrow> stays R (f a)) \<Longrightarrow>
   stays R (case v of None \<Rightarrow> m | Some a \<Rightarrow> f a)"
  by (cases v) auto

lemma stays_prod: "(\<And>a b. stays R (f a b)) \<Longrightarrow> stays R (case p of (a, b) \<Rightarrow> f a b)"
  by (cases p) auto

lemma stays_for_each: "(\<And>x. stays R (f x)) \<Longrightarrow> stays R (for_each xs f)"
  by (induction xs) (auto intro: stays_andthen stays_pure)

lemmas stays_rules = stays_pure stays_bnd stays_andthen stays_catch stays_if stays_option stays_prod stays_for_each

end

section \<open>The state of a Node process\<close>

text \<open>
  \<open>sys\<close> is everything outside the process (Redis, the chain, remote services, the clock);
  its type is a parameter.  \<open>deferred\<close> collects the exit codes of background tasks that
  have ended the process: \<open>process.exit(c)\<close> in a task the caller did not await, or an
  unhandled rejection, for which Node exits with code 1.  Components extend this record
  with their module-level variables.
\<close>

record 'x base =
  sys :: 'x
  deferred :: "int list"

text \<open>An external operation acts on \<open>sys\<close> only.\<close>

definition ext :: "('x, 'a) io \<Rightarrow> (('x, 'e) base_scheme, 'a) io" where
  "ext m = (\<lambda>s. case m (sys s) of (r, x) \<Rightarrow> (r, s\<lparr>sys := x\<rparr>))"

definition spawn :: "(('x, 'e) base_scheme, 'a) io \<Rightarrow> (('x, 'e) base_scheme, unit) io" where
  "spawn m = (\<lambda>s. case m s of
       (Ok a, s') \<Rightarrow> (Ok (), s')
     | (Throw e, s') \<Rightarrow> (Ok (), s'\<lparr>deferred := deferred s' @ [1]\<rparr>)
     | (Exit c, s') \<Rightarrow> (Ok (), s'\<lparr>deferred := deferred s' @ [c]\<rparr>))"

lemma ext_run [io_simps]: "m (sys s) = (r, x) \<Longrightarrow> ext m s = (r, s\<lparr>sys := x\<rparr>)"
  by (simp add: ext_def)

lemma spawn_Ok [io_simps]: "m s = (Ok a, s') \<Longrightarrow> spawn m s = (Ok (), s')"
  by (simp add: spawn_def)

lemma spawn_Throw [io_simps]:
  "m s = (Throw e, s') \<Longrightarrow> spawn m s = (Ok (), s'\<lparr>deferred := deferred s' @ [1]\<rparr>)"
  by (simp add: spawn_def)

lemma spawn_Exit [io_simps]:
  "m s = (Exit c, s') \<Longrightarrow> spawn m s = (Ok (), s'\<lparr>deferred := deferred s' @ [c]\<rparr>)"
  by (simp add: spawn_def)

lemma spawn_always_Ok: "fst (spawn m s) = Ok ()"
  by (simp add: spawn_def split: prod.splits res.splits)

lemma keeps_ext: "(\<And>s r x. I s \<Longrightarrow> m (sys s) = (r, x) \<Longrightarrow> I (s\<lparr>sys := x\<rparr>)) \<Longrightarrow> keeps I (ext m)"
  by (rule keepsI) (auto simp: ext_def split: prod.splits)

lemma keeps_spawn:
  assumes "keeps I m" and "\<And>s ds. I s \<Longrightarrow> I (s\<lparr>deferred := ds\<rparr>)"
  shows "keeps I (spawn m)"
proof (rule keepsI)
  fix s r s'
  assume "I s" and run: "spawn m s = (r, s')"
  obtain r0 s0 where m: "m s = (r0, s0)" by force
  with assms(1) \<open>I s\<close> have "I s0" by (rule keepsD)
  with m run assms(2) show "I s'"
    by (auto simp: spawn_def split: res.splits)
qed

text \<open>Relations that ignore the outside world, and those that also ignore background tasks.\<close>

locale sys_order = state_order R for R :: "('x, 'e) base_scheme \<Rightarrow> ('x, 'e) base_scheme \<Rightarrow> bool" +
  assumes R_sys: "R s (s\<lparr>sys := x\<rparr>)"
begin

lemma stays_ext: "stays R (ext m)"
  by (rule staysI) (auto simp: ext_def R_sys split: prod.splits)

lemmas sys_rules = stays_rules stays_ext

end

locale base_order = sys_order +
  assumes R_deferred: "R s (s\<lparr>deferred := ds\<rparr>)"
begin

lemma stays_spawn:
  assumes "stays R m"
  shows "stays R (spawn m)"
proof (rule staysI)
  fix s r s'
  assume run: "spawn m s = (r, s')"
  obtain r0 s0 where m: "m s = (r0, s0)" by force
  with assms have "R s s0" by (rule staysD)
  with m run R_deferred trans show "R s s'" by (auto simp: spawn_def split: res.splits)
qed

lemmas base_rules = sys_rules stays_spawn

end

text \<open>An operation that changes nothing but the outside world.\<close>

definition only_sys :: "('x, 'e) base_scheme \<Rightarrow> ('x, 'e) base_scheme \<Rightarrow> bool" where
  "only_sys s s' \<longleftrightarrow> s' = s\<lparr>sys := sys s'\<rparr>"

interpretation outside: sys_order only_sys
proof unfold_locales
  fix s t u :: "('x, 'e) base_scheme"
  assume "only_sys s t" and "only_sys t u"
  then have "t = s\<lparr>sys := sys t\<rparr>" and "u = t\<lparr>sys := sys u\<rparr>" by (simp_all add: only_sys_def)
  then show "only_sys s u" unfolding only_sys_def
    by (metis base.surjective base.update_convs(1))
qed (simp_all add: only_sys_def)

lemma only_sysD: "only_sys s s' \<Longrightarrow> \<exists>x. s' = s\<lparr>sys := x\<rparr>"
  unfolding only_sys_def by blast

section \<open>State machines\<close>

text \<open>
  Components that are driven by events (timers, messages, requests) are machines with a
  partial step function; the interface below gives each of them its reachable states and the
  invariant rule.
\<close>

locale machine =
  fixes init :: "'s \<Rightarrow> bool"
    and step :: "'s \<Rightarrow> 'e \<Rightarrow> 's \<Rightarrow> bool"
    and inv :: "'s \<Rightarrow> bool"
  assumes inv_init: "init s \<Longrightarrow> inv s"
    and inv_step: "inv s \<Longrightarrow> step s e s' \<Longrightarrow> inv s'"
begin

inductive reachable :: "'s \<Rightarrow> bool" where
  start: "init s \<Longrightarrow> reachable s"
| move: "reachable s \<Longrightarrow> step s e s' \<Longrightarrow> reachable s'"

fun run :: "'s \<Rightarrow> 'e list \<Rightarrow> 's \<Rightarrow> bool" where
  "run s [] s' \<longleftrightarrow> s' = s"
| "run s (e # es) s' \<longleftrightarrow> (\<exists>t. step s e t \<and> run t es s')"

lemma reachable_inv: "reachable s \<Longrightarrow> inv s"
  by (induction rule: reachable.induct) (auto intro: inv_init inv_step)

lemma run_reachable: "reachable s \<Longrightarrow> run s es s' \<Longrightarrow> reachable s'"
  by (induction es arbitrary: s) (auto intro: reachable.move)

lemma run_inv: "inv s \<Longrightarrow> run s es s' \<Longrightarrow> inv s'"
  by (induction es arbitrary: s) (auto intro: inv_step)

end

end
