(* ===== verification/JS_Values.thy ===== *)
theory JS_Values
  imports Prelude
begin

text \<open>
  The part of the JavaScript standard library that the sources use on strings and numbers.

  A JavaScript string is a \<open>string\<close> whose characters are its code units; the model covers
  code units below 256.  A number is \<open>NaN\<close> or an exact rational: rounding to binary64 and
  the infinities are not modelled.  Number reading (\<open>+s\<close>, \<open>parseFloat\<close>,
  \<open>parseInt\<close>) and printing (\<open>toString\<close>, \<open>toFixed\<close>) follow the ECMAScript
  algorithms on these values.
\<close>

section \<open>Characters and strings\<close>

type_synonym byte = "8 word"

definition code :: "char \<Rightarrow> nat" where
  "code c = of_char c"

definition is_digit :: "char \<Rightarrow> bool" where
  "is_digit c \<longleftrightarrow> 48 \<le> code c \<and> code c \<le> 57"

definition is_alpha :: "char \<Rightarrow> bool" where
  "is_alpha c \<longleftrightarrow> (65 \<le> code c \<and> code c \<le> 90) \<or> (97 \<le> code c \<and> code c \<le> 122)"

definition is_alnum :: "char \<Rightarrow> bool" where
  "is_alnum c \<longleftrightarrow> is_alpha c \<or> is_digit c"

text \<open>The class \<open>\w\<close>.\<close>

definition is_word :: "char \<Rightarrow> bool" where
  "is_word c \<longleftrightarrow> is_alnum c \<or> c = CHR ''_''"

text \<open>The class \<open>\s\<close> and what \<open>trim\<close> removes.\<close>

definition is_space :: "char \<Rightarrow> bool" where
  "is_space c \<longleftrightarrow> code c \<in> {9, 10, 11, 12, 13, 32, 160}"

definition to_lower :: "char \<Rightarrow> char" where
  "to_lower c =
     (if (65 \<le> code c \<and> code c \<le> 90) \<or> (192 \<le> code c \<and> code c \<le> 222 \<and> code c \<noteq> 215)
      then char_of (code c + 32) else c)"

definition toLowerCase :: "string \<Rightarrow> string" where
  "toLowerCase s = map to_lower s"

definition trim_start :: "string \<Rightarrow> string" where
  "trim_start s = dropWhile is_space s"

definition js_trim :: "string \<Rightarrow> string" where
  "js_trim s = rev (dropWhile is_space (rev (dropWhile is_space s)))"

definition startsWith :: "string \<Rightarrow> string \<Rightarrow> bool" where
  "startsWith s p \<longleftrightarrow> take (length p) s = p"

text \<open>\<open>s.split(sep)\<close> for a non-empty separator.\<close>

fun split_go :: "string \<Rightarrow> string \<Rightarrow> string \<Rightarrow> string list" where
  "split_go sep acc [] = [rev acc]"
| "split_go sep acc (c # cs) =
     (if sep \<noteq> [] \<and> startsWith (c # cs) sep
      then rev acc # split_go sep [] (drop (length sep - 1) cs)
      else split_go sep (c # acc) cs)"

definition js_split :: "string \<Rightarrow> string \<Rightarrow> string list" where
  "js_split s sep = split_go sep [] s"

text \<open>\<open>const [a, b, c] = xs\<close>: a missing element is \<open>undefined\<close>.\<close>

definition elem_at :: "'a list \<Rightarrow> nat \<Rightarrow> 'a option" where
  "elem_at xs i = (if i < length xs then Some (xs ! i) else None)"

fun join :: "string \<Rightarrow> string list \<Rightarrow> string" where
  "join sep [] = []"
| "join sep [x] = x"
| "join sep (x # y # ys) = x @ sep @ join sep (y # ys)"

text \<open>Truthiness of a string that may be \<open>undefined\<close> or \<open>null\<close>.\<close>

definition truthy :: "string option \<Rightarrow> bool" where
  "truthy v \<longleftrightarrow> v \<noteq> None \<and> v \<noteq> Some []"

text \<open>Template interpolation of a value that may be \<open>undefined\<close>.\<close>

definition or_undefined :: "string option \<Rightarrow> string" where
  "or_undefined v = (case v of None \<Rightarrow> ''undefined'' | Some s \<Rightarrow> s)"

section \<open>Numbers\<close>

datatype jsnum = NaN | Num rat

fun num_add :: "jsnum \<Rightarrow> jsnum \<Rightarrow> jsnum" where
  "num_add (Num a) (Num b) = Num (a + b)"
| "num_add _ _ = NaN"

fun num_sub :: "jsnum \<Rightarrow> jsnum \<Rightarrow> jsnum" where
  "num_sub (Num a) (Num b) = Num (a - b)"
| "num_sub _ _ = NaN"

fun num_mul :: "jsnum \<Rightarrow> jsnum \<Rightarrow> jsnum" where
  "num_mul (Num a) (Num b) = Num (a * b)"
| "num_mul _ _ = NaN"

fun num_div :: "jsnum \<Rightarrow> jsnum \<Rightarrow> jsnum" where
  "num_div (Num a) (Num b) = (if b = 0 then NaN else Num (a / b))"
| "num_div _ _ = NaN"

fun num_floor :: "jsnum \<Rightarrow> jsnum" where
  "num_floor (Num a) = Num (of_int \<lfloor>a\<rfloor>)"
| "num_floor NaN = NaN"

fun num_gt :: "jsnum \<Rightarrow> rat \<Rightarrow> bool" where
  "num_gt (Num a) b \<longleftrightarrow> b < a"
| "num_gt NaN b \<longleftrightarrow> False"

fun num_truthy :: "jsnum \<Rightarrow> bool" where
  "num_truthy (Num a) \<longleftrightarrow> a \<noteq> 0"
| "num_truthy NaN \<longleftrightarrow> False"

section \<open>Reading numbers\<close>

definition digit_val :: "char \<Rightarrow> nat" where
  "digit_val c = code c - 48"

definition digits_val :: "string \<Rightarrow> nat" where
  "digits_val s = foldl (\<lambda>n c. 10 * n + digit_val c) 0 s"

text \<open>The exponent part, if there is one: its value and the rest of the text.\<close>

definition read_exp :: "string \<Rightarrow> int \<times> string" where
  "read_exp s =
     (case s of
        [] \<Rightarrow> (0, s)
      | c # t \<Rightarrow>
          (if c = CHR ''e'' \<or> c = CHR ''E'' then
             (let neg = (t \<noteq> [] \<and> hd t = CHR ''-'');
                  u = (if t \<noteq> [] \<and> (hd t = CHR ''-'' \<or> hd t = CHR ''+'') then tl t else t);
                  ds = takeWhile is_digit u
              in if ds = [] then (0, s)
                 else (if neg then - int (digits_val ds) else int (digits_val ds),
                       dropWhile is_digit u))
           else (0, s)))"

definition pow10 :: "int \<Rightarrow> rat" where
  "pow10 e = (if 0 \<le> e then 10 ^ nat e else 1 / 10 ^ nat (- e))"

text \<open>The longest prefix that is an unsigned decimal literal.\<close>

definition read_dec :: "string \<Rightarrow> (rat \<times> string) option" where
  "read_dec s =
     (let ip = takeWhile is_digit s;
          r1 = dropWhile is_digit s;
          fp = (if r1 \<noteq> [] \<and> hd r1 = CHR ''.'' then takeWhile is_digit (tl r1) else []);
          r2 = (if r1 \<noteq> [] \<and> hd r1 = CHR ''.'' then dropWhile is_digit (tl r1) else r1)
      in if ip = [] \<and> fp = [] then None
         else (case read_exp r2 of
                 (e, r3) \<Rightarrow>
                   Some (of_nat (digits_val (ip @ fp)) / 10 ^ length fp * pow10 e, r3)))"

definition read_signed :: "string \<Rightarrow> (rat \<times> string) option" where
  "read_signed s =
     (case s of
        [] \<Rightarrow> None
      | c # t \<Rightarrow>
          if c = CHR ''-'' then map_option (\<lambda>(v, r). (- v, r)) (read_dec t)
          else if c = CHR ''+'' then read_dec t
          else read_dec s)"

definition hex_val :: "char \<Rightarrow> nat option" where
  "hex_val c =
     (if is_digit c then Some (code c - 48)
      else if 97 \<le> code c \<and> code c \<le> 102 then Some (code c - 87)
      else if 65 \<le> code c \<and> code c \<le> 70 then Some (code c - 55)
      else None)"

fun radix_val :: "nat \<Rightarrow> nat \<Rightarrow> string \<Rightarrow> nat option" where
  "radix_val b n [] = Some n"
| "radix_val b n (c # cs) =
     (case hex_val c of
        None \<Rightarrow> None
      | Some d \<Rightarrow> if d < b then radix_val b (b * n + d) cs else None)"

definition read_radix :: "string \<Rightarrow> nat option" where
  "read_radix s =
     (case s of
        CHR ''0'' # p # d # ds \<Rightarrow>
          if p = CHR ''x'' \<or> p = CHR ''X'' then radix_val 16 0 (d # ds)
          else if p = CHR ''o'' \<or> p = CHR ''O'' then radix_val 8 0 (d # ds)
          else if p = CHR ''b'' \<or> p = CHR ''B'' then radix_val 2 0 (d # ds)
          else None
      | _ \<Rightarrow> None)"

text \<open>Unary plus on a string.\<close>

definition to_number :: "string \<Rightarrow> jsnum" where
  "to_number s =
     (let t = js_trim s
      in if t = [] then Num 0
         else (case read_radix t of
                 Some n \<Rightarrow> Num (of_nat n)
               | None \<Rightarrow> (case read_signed t of
                            Some (v, r) \<Rightarrow> if r = [] then Num v else NaN
                          | None \<Rightarrow> NaN)))"

definition parseFloat :: "string \<Rightarrow> jsnum" where
  "parseFloat s = (case read_signed (trim_start s) of Some (v, _) \<Rightarrow> Num v | None \<Rightarrow> NaN)"

definition parseInt10 :: "string \<Rightarrow> jsnum" where
  "parseInt10 s =
     (let t = trim_start s;
          neg = (t \<noteq> [] \<and> hd t = CHR ''-'');
          u = (if t \<noteq> [] \<and> (hd t = CHR ''-'' \<or> hd t = CHR ''+'') then tl t else t);
          ds = takeWhile is_digit u
      in if ds = [] then NaN
         else Num (if neg then - of_nat (digits_val ds) else of_nat (digits_val ds)))"

section \<open>Printing numbers\<close>

fun nat_digits :: "nat \<Rightarrow> string" where
  "nat_digits n =
     (if n < 10 then [char_of (48 + n)] else nat_digits (n div 10) @ [char_of (48 + n mod 10)])"

declare nat_digits.simps [simp del]

text \<open>
  The number of decimals of \<open>q\<close>: the least \<open>k\<close> with \<open>q * 10 ^ k\<close> an integer.
  The search stops after the given number of decimals; 1100 covers every binary64 value.
\<close>

fun decimals_go :: "nat \<Rightarrow> nat \<Rightarrow> rat \<Rightarrow> nat" where
  "decimals_go 0 k q = k"
| "decimals_go (Suc n) k q = (if q = of_int \<lfloor>q\<rfloor> then k else decimals_go n (Suc k) (10 * q))"

definition decimal_places :: "rat \<Rightarrow> nat" where
  "decimal_places q = decimals_go 1100 0 q"

definition strip_zeros :: "string \<Rightarrow> string" where
  "strip_zeros s = rev (dropWhile (\<lambda>c. c = CHR ''0'') (rev s))"

definition int_digits :: "int \<Rightarrow> string" where
  "int_digits i = (if i < 0 then CHR ''-'' # nat_digits (nat (- i)) else nat_digits (nat i))"

text \<open>\<open>Number::toString\<close> on a positive value \<open>s * 10 ^ (n - k)\<close> with the digits of \<open>s\<close>.\<close>

definition pos_to_string :: "rat \<Rightarrow> string" where
  "pos_to_string q =
     (let d = decimal_places q;
          ds0 = nat_digits (nat \<lfloor>q * 10 ^ d\<rfloor>);
          ds = strip_zeros ds0;
          k = length ds;
          n = int (length ds0) - int d
      in if int k \<le> n \<and> n \<le> 21 then ds @ replicate (nat n - k) (CHR ''0'')
         else if 0 < n \<and> n \<le> 21 then take (nat n) ds @ ''.'' @ drop (nat n) ds
         else if -6 < n \<and> n \<le> 0 then ''0.'' @ replicate (nat (- n)) (CHR ''0'') @ ds
         else take 1 ds @ (if k = 1 then [] else ''.'' @ drop 1 ds) @ ''e'' @
              (if 0 \<le> n - 1 then ''+'' else ''-'') @ nat_digits (nat \<bar>n - 1\<bar>))"

definition rat_to_string :: "rat \<Rightarrow> string" where
  "rat_to_string q =
     (if q = 0 then ''0'' else if q < 0 then CHR ''-'' # pos_to_string (- q) else pos_to_string q)"

fun num_to_string :: "jsnum \<Rightarrow> string" where
  "num_to_string NaN = ''NaN''"
| "num_to_string (Num q) = rat_to_string q"

text \<open>\<open>x.toFixed(f)\<close>: the nearest multiple of \<open>10 ^ -f\<close>, ties upwards.\<close>

definition fixed_pos :: "nat \<Rightarrow> rat \<Rightarrow> string" where
  "fixed_pos f q =
     (let ds = nat_digits (nat \<lfloor>q * 10 ^ f + 1 / 2\<rfloor>);
          m = replicate (Suc f - length ds) (CHR ''0'') @ ds
      in if f = 0 then ds
         else take (length m - f) m @ ''.'' @ drop (length m - f) m)"

fun toFixed :: "nat \<Rightarrow> jsnum \<Rightarrow> string" where
  "toFixed f NaN = ''NaN''"
| "toFixed f (Num q) =
     (if 10 ^ 21 \<le> \<bar>q\<bar> then rat_to_string q
      else if q < 0 then CHR ''-'' # fixed_pos f (- q) else fixed_pos f q)"

end
