(* ===== verification/JS_Codec.thy ===== *)
theory JS_Codec
  imports JS_Values
begin

text \<open>
  Buffers and their text encodings, as the sources use them: UTF-8, base64, base64url and
  hex.  The interface \<open>codec\<close> is the contract that every encoder/decoder pair keeps;
  each pair is interpreted in it below, and the storage format of wallets is built from
  them.
\<close>

section \<open>The contract of an encoding\<close>

locale codec =
  fixes enc :: "'a \<Rightarrow> 'b"
    and dec :: "'b \<Rightarrow> 'c option"
    and view :: "'a \<Rightarrow> 'c"
    and valid :: "'a \<Rightarrow> bool"
  assumes dec_enc: "valid a \<Longrightarrow> dec (enc a) = Some (view a)"
begin

lemma enc_inj_on: "valid a \<Longrightarrow> valid b \<Longrightarrow> enc a = enc b \<Longrightarrow> view a = view b"
  using dec_enc by (metis option.inject)

lemma dec_enc_map: "valid a \<Longrightarrow> map_option f (dec (enc a)) = Some (f (view a))"
  by (simp add: dec_enc)

end

section \<open>UTF-8\<close>

text \<open>
  \<open>Buffer.from(s)\<close> and \<open>buf.toString()\<close>.  Strings here have code units below 256,
  so a character takes one or two bytes; a byte sequence that encodes anything else is read
  as the substitution character.
\<close>

definition utf8_char :: "char \<Rightarrow> byte list" where
  "utf8_char c =
     (if code c < 128 then [of_nat (code c)]
      else [of_nat (192 + code c div 64), of_nat (128 + code c mod 64)])"

definition utf8_encode :: "string \<Rightarrow> byte list" where
  "utf8_encode s = concat (map utf8_char s)"

definition substitution :: char where
  "substitution = CHR 0x1A"

fun utf8_decode :: "byte list \<Rightarrow> string" where
  "utf8_decode [] = []"
| "utf8_decode [b] = [if unat b < 128 then char_of (unat b) else substitution]"
| "utf8_decode (b # d # bs) =
     (if unat b < 128 then char_of (unat b) # utf8_decode (d # bs)
      else if (unat b = 194 \<or> unat b = 195) \<and> 128 \<le> unat d \<and> unat d < 192
      then char_of ((unat b - 192) * 64 + (unat d - 128)) # utf8_decode bs
      else substitution # utf8_decode (d # bs))"

lemma code_less: "code c < 256"
  by (simp add: code_def)

lemma char_of_code [simp]: "char_of (code c) = c"
  by (simp add: code_def)

lemma code_char_of: "n < 256 \<Longrightarrow> code (char_of n) = n"
  by (simp add: code_def)

lemma code_eq_iff: "code c = code d \<longleftrightarrow> c = d"
  by (metis char_of_code)

lemma unat_byte: "n < 256 \<Longrightarrow> unat (of_nat n :: byte) = n"
  by (simp add: unat_of_nat)

lemma unat_byte_less: "unat (b :: byte) < 256"
  using unsigned_less[of b, where 'a = nat] by simp

lemma utf8_decode_ascii: "code c < 128 \<Longrightarrow> utf8_decode (of_nat (code c) # bs) = c # utf8_decode bs"
  by (cases bs) (simp_all add: unat_byte)

lemma utf8_decode_latin:
  assumes "128 \<le> code c"
  shows "utf8_decode (of_nat (192 + code c div 64) # of_nat (128 + code c mod 64) # bs) =
           c # utf8_decode bs"
proof -
  have b: "192 + code c div 64 < 256" "128 + code c mod 64 < 256"
    using code_less[of c] by auto
  have hi: "code c div 64 = 2 \<or> code c div 64 = 3"
    using assms code_less[of c] by auto
  have sum: "(192 + code c div 64 - 192) * 64 + (128 + code c mod 64 - 128) = code c"
    by simp
  show ?thesis
    unfolding utf8_decode.simps unat_byte[OF b(1)] unat_byte[OF b(2)] sum
    using hi by auto
qed

lemma utf8_decode_char: "utf8_decode (utf8_char c @ bs) = c # utf8_decode bs"
proof (cases "code c < 128")
  case True
  then show ?thesis by (simp add: utf8_char_def utf8_decode_ascii)
next
  case False
  then show ?thesis
    using utf8_decode_latin[of c bs] unfolding utf8_char_def by simp
qed

lemma utf8_decode_encode [simp]: "utf8_decode (utf8_encode s) = s"
  by (induction s) (simp_all add: utf8_encode_def utf8_decode_char)

interpretation utf8: codec utf8_encode "\<lambda>bs. Some (utf8_decode bs)" "\<lambda>s. s" "\<lambda>_. True"
  by unfold_locales (simp add: utf8_decode_encode)

section \<open>Base64\<close>

fun sextets :: "nat list \<Rightarrow> nat list" where
  "sextets [] = []"
| "sextets [a] = [a div 4, (a mod 4) * 16]"
| "sextets [a, b] = [a div 4, (a mod 4) * 16 + b div 16, (b mod 16) * 4]"
| "sextets (a # b # c # r) =
     a div 4 # ((a mod 4) * 16 + b div 16) # ((b mod 16) * 4 + c div 64) # c mod 64 # sextets r"

fun octets :: "nat list \<Rightarrow> nat list" where
  "octets (w # x # y # z # r) =
     (w * 4 + x div 16) # ((x mod 16) * 16 + y div 4) # ((y mod 4) * 64 + z) # octets r"
| "octets [w, x, y] = [w * 4 + x div 16, (x mod 16) * 16 + y div 4]"
| "octets [w, x] = [w * 4 + x div 16]"
| "octets _ = []"

text \<open>The last two digits are \<open>+\<close> and \<open>/\<close>, or \<open>-\<close> and \<open>_\<close> in the URL alphabet.\<close>

definition b64_char :: "bool \<Rightarrow> nat \<Rightarrow> char" where
  "b64_char url n =
     (if n < 26 then char_of (65 + n) else if n < 52 then char_of (71 + n)
      else if n < 62 then char_of (n - 4)
      else if n = 62 then (if url then CHR ''-'' else CHR ''+'')
      else (if url then CHR ''_'' else CHR ''/''))"

text \<open>Decoding accepts both alphabets.\<close>

definition b64_val :: "char \<Rightarrow> nat option" where
  "b64_val c =
     (if 65 \<le> code c \<and> code c \<le> 90 then Some (code c - 65)
      else if 97 \<le> code c \<and> code c \<le> 122 then Some (code c - 71)
      else if is_digit c then Some (code c + 4)
      else if c = CHR ''+'' \<or> c = CHR ''-'' then Some 62
      else if c = CHR ''/'' \<or> c = CHR ''_'' then Some 63
      else None)"

definition b64_padding :: "byte list \<Rightarrow> string" where
  "b64_padding bs = (case length bs mod 3 of 0 \<Rightarrow> [] | Suc 0 \<Rightarrow> ''=='' | _ \<Rightarrow> ''='')"

definition base64_encode :: "byte list \<Rightarrow> string" where
  "base64_encode bs = map (b64_char False) (sextets (map unat bs)) @ b64_padding bs"

definition base64url_encode :: "byte list \<Rightarrow> string" where
  "base64url_encode bs = map (b64_char True) (sextets (map unat bs))"

text \<open>
  \<open>Buffer.from(s, 'base64')\<close> and \<open>'base64url'\<close>: reads up to the padding and skips
  characters outside the alphabet; it never fails.
\<close>

definition base64_decode :: "string \<Rightarrow> byte list" where
  "base64_decode s =
     map of_nat (octets (List.map_filter b64_val (takeWhile (\<lambda>c. c \<noteq> CHR ''='') s)))"

lemma octets_sextets: "\<forall>b\<in>set bs. b < 256 \<Longrightarrow> octets (sextets bs) = bs"
proof (induction bs rule: sextets.induct)
  case (2 a)
  then show ?case by simp
next
  case (3 a b)
  then have "a < 256" "b < 256" by auto
  moreover have "a div 4 * 4 + ((a mod 4) * 16 + b div 16) div 16 = a"
    using \<open>b < 256\<close> by simp
  moreover have "((a mod 4) * 16 + b div 16) mod 16 * 16 + (b mod 16) * 4 div 4 = b"
    using \<open>b < 256\<close> by simp
  ultimately show ?case by simp
next
  case (4 a b c r)
  then have b: "a < 256" "b < 256" "c < 256" by auto
  have 1: "a div 4 * 4 + ((a mod 4) * 16 + b div 16) div 16 = a"
    using b by simp
  have 2: "((a mod 4) * 16 + b div 16) mod 16 * 16 + ((b mod 16) * 4 + c div 64) div 4 = b"
    using b by simp
  have 3: "((b mod 16) * 4 + c div 64) mod 4 * 64 + c mod 64 = c"
    using b by simp
  from 4 show ?case by (simp only: sextets.simps octets.simps 1 2 3) simp
qed simp

lemma sextets_less: "\<forall>b\<in>set bs. b < 256 \<Longrightarrow> \<forall>n\<in>set (sextets bs). n < 64"
proof (induction bs rule: sextets.induct)
  case (4 a b c r)
  then have "a < 256" "b < 256" "c < 256" by auto
  then have "a div 4 < 64" "(a mod 4) * 16 + b div 16 < 64" "(b mod 16) * 4 + c div 64 < 64"
    by simp_all
  with 4 show ?case by auto
qed auto

lemma b64_val_char: "n < 64 \<Longrightarrow> b64_val (b64_char url n) = Some n"
  by (auto simp: b64_val_def b64_char_def code_char_of is_digit_def code_def)

lemma b64_char_not_pad: "n < 64 \<Longrightarrow> b64_char url n \<noteq> CHR ''=''"
  using b64_val_char[of n url] by (auto simp: b64_val_def is_digit_def code_def)

lemma b64_map_filter:
  "\<forall>n\<in>set ns. n < 64 \<Longrightarrow> List.map_filter b64_val (map (b64_char url) ns) = ns"
  by (induction ns) (auto simp: map_filter_simps b64_val_char)

lemma b64_takeWhile:
  assumes "\<forall>n\<in>set ns. n < 64" and "pad = [] \<or> hd pad = CHR ''=''"
  shows "takeWhile (\<lambda>c. c \<noteq> CHR ''='') (map (b64_char url) ns @ pad) = map (b64_char url) ns"
proof -
  have "takeWhile (\<lambda>c. c \<noteq> CHR ''='') pad = []"
    using assms(2) by (cases pad) auto
  then show ?thesis
    using assms(1) by (subst takeWhile_append2) (auto simp: b64_char_not_pad)
qed

lemma b64_padding_hd: "b64_padding bs = [] \<or> hd (b64_padding bs) = CHR ''=''"
  by (simp add: b64_padding_def split: nat.splits)

lemma unat_bytes_less: "\<forall>n\<in>set (map unat (bs :: byte list)). n < 256"
  by (auto simp: unat_byte_less)

lemma base64_decode_digits:
  "pad = [] \<or> hd pad = CHR ''='' \<Longrightarrow>
   base64_decode (map (b64_char url) (sextets (map unat bs)) @ pad) = bs"
  using b64_takeWhile[OF sextets_less[OF unat_bytes_less]]
  by (simp add: base64_decode_def b64_map_filter[OF sextets_less[OF unat_bytes_less]]
      octets_sextets[OF unat_bytes_less] o_def)

lemma base64_decode_encode [simp]: "base64_decode (base64_encode bs) = bs"
  unfolding base64_encode_def by (rule base64_decode_digits) (rule b64_padding_hd)

lemma base64url_decode_encode [simp]: "base64_decode (base64url_encode bs) = bs"
  using base64_decode_digits[of "[]"] by (simp add: base64url_encode_def)

lemma base64url_no_dot: "CHR ''.'' \<notin> set (base64url_encode bs)"
proof
  assume "CHR ''.'' \<in> set (base64url_encode bs)"
  then obtain n where "n \<in> set (sextets (map unat bs))" and "b64_char True n = CHR ''.''"
    unfolding base64url_encode_def by auto
  then have "b64_val (CHR ''.'') = Some n"
    using sextets_less[OF unat_bytes_less] b64_val_char by metis
  then show False by (simp add: b64_val_def is_digit_def code_def)
qed

lemma sextets_Nil_iff [simp]: "sextets ns = [] \<longleftrightarrow> ns = []"
  by (cases ns rule: sextets.cases) auto

lemma base64url_Nil_iff [simp]: "base64url_encode bs = [] \<longleftrightarrow> bs = []"
  by (simp add: base64url_encode_def)

interpretation base64: codec base64_encode "\<lambda>s. Some (base64_decode s)" "\<lambda>b. b" "\<lambda>_. True"
  by unfold_locales simp

interpretation base64url: codec base64url_encode "\<lambda>s. Some (base64_decode s)" "\<lambda>b. b" "\<lambda>_. True"
  by unfold_locales simp

section \<open>Hex\<close>

definition hex_digit :: "nat \<Rightarrow> char" where
  "hex_digit n = (if n < 10 then char_of (48 + n) else char_of (87 + n))"

definition hex_encode :: "byte list \<Rightarrow> string" where
  "hex_encode bs = concat (map (\<lambda>b. [hex_digit (unat b div 16), hex_digit (unat b mod 16)]) bs)"

text \<open>\<open>Buffer.from(s, 'hex')\<close> stops at the first pair that is not two hex digits.\<close>

fun hex_decode :: "string \<Rightarrow> byte list" where
  "hex_decode (c # d # r) =
     (case (hex_val c, hex_val d) of
        (Some h, Some l) \<Rightarrow> of_nat (16 * h + l) # hex_decode r
      | _ \<Rightarrow> [])"
| "hex_decode _ = []"

lemma hex_val_digit: "n < 16 \<Longrightarrow> hex_val (hex_digit n) = Some n"
  by (auto simp: hex_val_def hex_digit_def is_digit_def code_char_of)

lemma hex_decode_encode [simp]: "hex_decode (hex_encode bs) = bs"
proof (induction bs)
  case (Cons b bs)
  have "unat b < 256" by (rule unat_byte_less)
  then have "unat b div 16 < 16" by simp
  moreover have "unat b mod 16 < 16" by simp
  moreover have "(of_nat (16 * (unat b div 16) + unat b mod 16) :: byte) = b"
    by (simp only: mult_div_mod_eq) simp
  ultimately show ?case
    using Cons by (simp add: hex_encode_def hex_val_digit)
qed (simp add: hex_encode_def)

lemma hex_decode_length: "length (hex_decode s) \<le> length s div 2"
  by (induction s rule: hex_decode.induct) (auto split: option.splits)

interpretation hex: codec hex_encode "\<lambda>s. Some (hex_decode s)" "\<lambda>b. b" "\<lambda>_. True"
  by unfold_locales simp

end
