(* ===== verification/JSON.thy ===== *)
theory JSON
  imports JS_Codec
begin

text \<open>
  JSON values, \<open>JSON.stringify\<close> (with indentation in \<open>JSON_Pretty\<close>) and \<open>JSON.parse\<close>, and the
  member access, truthiness and conversions that the sources apply to parsed values.  The
  parser is a recursive descent over the text; its fuel is twice the length of the text plus
  two, which \<open>p_fuel\<close> below shows is always enough.
\<close>

section \<open>Values\<close>

datatype json =
    JNull
  | JBool bool
  | JNum rat
  | JStr string
  | JArr "json list"
  | JObj "(string \<times> json) list"

text \<open>A JavaScript value that may also be \<open>undefined\<close>.\<close>

type_synonym jsval = "json option"

section \<open>Printing\<close>

definition hex4 :: "nat \<Rightarrow> string" where
  "hex4 n = ''00'' @ [hex_digit (n div 16), hex_digit (n mod 16)]"

definition esc_char :: "char \<Rightarrow> string" where
  "esc_char c =
     (if c = CHR 0x22 then [CHR 0x5C, CHR 0x22]
      else if c = CHR 0x5C then [CHR 0x5C, CHR 0x5C]
      else if code c = 8 then CHR 0x5C # ''b''
      else if code c = 9 then CHR 0x5C # ''t''
      else if code c = 10 then CHR 0x5C # ''n''
      else if code c = 12 then CHR 0x5C # ''f''
      else if code c = 13 then CHR 0x5C # ''r''
      else if code c < 32 then CHR 0x5C # ''u'' @ hex4 (code c)
      else [c])"

definition quote :: "string \<Rightarrow> string" where
  "quote s = CHR 0x22 # concat (map esc_char s) @ [CHR 0x22]"

fun JSON_stringify :: "json \<Rightarrow> string" where
  "JSON_stringify JNull = ''null''"
| "JSON_stringify (JBool b) = (if b then ''true'' else ''false'')"
| "JSON_stringify (JNum q) = rat_to_string q"
| "JSON_stringify (JStr s) = quote s"
| "JSON_stringify (JArr vs) = ''['' @ join '','' (map JSON_stringify vs) @ '']''"
| "JSON_stringify (JObj kvs) =
     ''{'' @ join '','' (map (\<lambda>(k, v). quote k @ '':'' @ JSON_stringify v) kvs) @ ''}''"

section \<open>Parsing\<close>

definition is_jws :: "char \<Rightarrow> bool" where
  "is_jws c \<longleftrightarrow> code c \<in> {9, 10, 13, 32}"

definition skip_ws :: "string \<Rightarrow> string" where
  "skip_ws s = dropWhile is_jws s"

fun hex4_val :: "string \<Rightarrow> nat option" where
  "hex4_val [a, b, c, d] = radix_val 16 0 [a, b, c, d]"
| "hex4_val _ = None"

definition unit_char :: "nat \<Rightarrow> char" where
  "unit_char n = (if n < 256 then char_of n else substitution)"

definition unescape :: "char \<Rightarrow> char option" where
  "unescape e =
     map_of [(CHR 0x22, CHR 0x22), (CHR 0x5C, CHR 0x5C), (CHR ''/'', CHR ''/''),
             (CHR ''b'', CHR 0x08), (CHR ''f'', CHR 0x0C), (CHR ''n'', CHR 0x0A),
             (CHR ''r'', CHR 0x0D), (CHR ''t'', CHR 0x09)] e"

text \<open>The body of a string literal, after the opening quote.\<close>

fun p_str :: "string \<Rightarrow> (string \<times> string) option" where
  "p_str [] = None"
| "p_str (c # s) =
     (if c = CHR 0x22 then Some ([], s)
      else if code c < 32 then None
      else if c \<noteq> CHR 0x5C then map_option (\<lambda>(t, r). (c # t, r)) (p_str s)
      else (case s of
              [] \<Rightarrow> None
            | e # s1 \<Rightarrow>
                if e = CHR ''u'' then
                  (case hex4_val (take 4 s1) of
                     None \<Rightarrow> None
                   | Some n \<Rightarrow> map_option (\<lambda>(t, r). (unit_char n # t, r)) (p_str (drop 4 s1)))
                else
                  (case unescape e of
                     None \<Rightarrow> None
                   | Some x \<Rightarrow> map_option (\<lambda>(t, r). (x # t, r)) (p_str s1))))"

definition p_exp :: "string \<Rightarrow> (int \<times> string) option" where
  "p_exp s =
     (if s \<noteq> [] \<and> (hd s = CHR ''e'' \<or> hd s = CHR ''E'')
      then (let r = read_exp s in if snd r = s then None else Some r)
      else Some (0, s))"

text \<open>An unsigned number: no leading zero, digits required after a point and an exponent.\<close>

definition p_unum :: "string \<Rightarrow> (rat \<times> string) option" where
  "p_unum s =
     (let ip = takeWhile is_digit s; r1 = dropWhile is_digit s;
          pt = (r1 \<noteq> [] \<and> hd r1 = CHR ''.'');
          fp = (if pt then takeWhile is_digit (tl r1) else []);
          r2 = (if pt then dropWhile is_digit (tl r1) else r1)
      in if ip = [] \<or> (length ip > 1 \<and> hd ip = CHR ''0'') \<or> (pt \<and> fp = []) then None
         else map_option
                (\<lambda>(e, r3). (of_nat (digits_val (ip @ fp)) / 10 ^ length fp * pow10 e, r3))
                (p_exp r2))"

definition p_num :: "string \<Rightarrow> (rat \<times> string) option" where
  "p_num s =
     (if s \<noteq> [] \<and> hd s = CHR ''-'' then map_option (\<lambda>(q, r). (- q, r)) (p_unum (tl s))
      else p_unum s)"

text \<open>\<open>{ ...o, k: v }\<close>: an existing key keeps its place and takes the new value.\<close>

fun obj_put :: "(string \<times> 'v) list \<Rightarrow> string \<Rightarrow> 'v \<Rightarrow> (string \<times> 'v) list" where
  "obj_put [] k v = [(k, v)]"
| "obj_put ((k', v') # r) k v = (if k' = k then (k, v) # r else (k', v') # obj_put r k v)"

definition obj_of :: "(string \<times> 'v) list \<Rightarrow> (string \<times> 'v) list" where
  "obj_of kvs = foldl (\<lambda>o' (k, v). obj_put o' k v) [] kvs"

text \<open>The rest of the text after skipping white space, if it starts with the character \<open>c\<close>.\<close>

definition p_char :: "char \<Rightarrow> string \<Rightarrow> string option" where
  "p_char c s =
     (case skip_ws s of [] \<Rightarrow> None | d # u \<Rightarrow> if d = c then Some u else None)"

fun p_val :: "nat \<Rightarrow> string \<Rightarrow> (json \<times> string) option"
  and p_arr :: "nat \<Rightarrow> string \<Rightarrow> (json list \<times> string) option"
  and p_obj :: "nat \<Rightarrow> string \<Rightarrow> ((string \<times> json) list \<times> string) option" where
  "p_val 0 s = None"
| "p_val (Suc n) s =
     (case skip_ws s of
        [] \<Rightarrow> None
      | c # t \<Rightarrow>
          if c = CHR ''{'' then
            (case p_char (CHR ''}'') t of
               Some u \<Rightarrow> Some (JObj [], u)
             | None \<Rightarrow> map_option (\<lambda>(kvs, r). (JObj (obj_of kvs), r)) (p_obj n t))
          else if c = CHR ''['' then
            (case p_char (CHR '']'') t of
               Some u \<Rightarrow> Some (JArr [], u)
             | None \<Rightarrow> map_option (\<lambda>(vs, r). (JArr vs, r)) (p_arr n t))
          else if c = CHR 0x22 then map_option (\<lambda>(x, r). (JStr x, r)) (p_str t)
          else if startsWith (c # t) ''true'' then Some (JBool True, drop 3 t)
          else if startsWith (c # t) ''false'' then Some (JBool False, drop 4 t)
          else if startsWith (c # t) ''null'' then Some (JNull, drop 3 t)
          else map_option (\<lambda>(q, r). (JNum q, r)) (p_num (c # t)))"
| "p_arr 0 s = None"
| "p_arr (Suc n) s =
     (case p_val n s of
        None \<Rightarrow> None
      | Some (v, r) \<Rightarrow>
          (case p_char (CHR '','') r of
             Some u \<Rightarrow> map_option (\<lambda>(vs, r'). (v # vs, r')) (p_arr n u)
           | None \<Rightarrow> map_option (\<lambda>u. ([v], u)) (p_char (CHR '']'') r)))"
| "p_obj 0 s = None"
| "p_obj (Suc n) s =
     (case p_char (CHR 0x22) s of
        None \<Rightarrow> None
      | Some t \<Rightarrow>
          (case p_str t of
             None \<Rightarrow> None
           | Some (k, r) \<Rightarrow>
               (case p_char (CHR '':'') r of
                  None \<Rightarrow> None
                | Some u \<Rightarrow>
                    (case p_val n u of
                       None \<Rightarrow> None
                     | Some (v, r1) \<Rightarrow>
                         (case p_char (CHR '','') r1 of
                            Some w \<Rightarrow> map_option (\<lambda>(kvs, r'). ((k, v) # kvs, r')) (p_obj n w)
                          | None \<Rightarrow> map_option (\<lambda>w. ([(k, v)], w)) (p_char (CHR ''}'') r1))))))"

definition JSON_parse :: "string \<Rightarrow> json res" where
  "JSON_parse s =
     (case p_val (2 * length s + 2) s of
        Some (v, r) \<Rightarrow> if skip_ws r = [] then Ok v else Throw (SyntaxErr ''Unexpected token'')
      | None \<Rightarrow> Throw (SyntaxErr ''Unexpected token''))"

section \<open>Using parsed values\<close>

text \<open>\<open>v.k\<close>: throws on \<open>undefined\<close> and \<open>null\<close>, is \<open>undefined\<close> on other non-objects.\<close>

fun get_prop :: "jsval \<Rightarrow> string \<Rightarrow> jsval res" where
  "get_prop None k = Throw (TypeErr ''Cannot read properties of undefined'')"
| "get_prop (Some JNull) k = Throw (TypeErr ''Cannot read properties of null'')"
| "get_prop (Some (JObj kvs)) k = Ok (map_of kvs k)"
| "get_prop (Some _) k = Ok None"

text \<open>\<open>v?.k\<close>\<close>

fun opt_prop :: "jsval \<Rightarrow> string \<Rightarrow> jsval" where
  "opt_prop (Some (JObj kvs)) k = map_of kvs k"
| "opt_prop _ k = None"

text \<open>\<open>v?.[0]\<close>\<close>

fun opt_first :: "jsval \<Rightarrow> jsval" where
  "opt_first (Some (JArr (v # vs))) = Some v"
| "opt_first (Some (JStr (c # cs))) = Some (JStr [c])"
| "opt_first (Some (JObj kvs)) = map_of kvs ''0''"
| "opt_first _ = None"

fun js_truthy :: "jsval \<Rightarrow> bool" where
  "js_truthy None = False"
| "js_truthy (Some JNull) = False"
| "js_truthy (Some (JBool b)) = b"
| "js_truthy (Some (JNum q)) = (q \<noteq> 0)"
| "js_truthy (Some (JStr s)) = (s \<noteq> [])"
| "js_truthy (Some _) = True"

text \<open>\<open>String(v)\<close>; in an array \<open>null\<close> prints as the empty string.\<close>

fun js_string :: "json \<Rightarrow> string" where
  "js_string JNull = ''null''"
| "js_string (JBool b) = (if b then ''true'' else ''false'')"
| "js_string (JNum q) = rat_to_string q"
| "js_string (JStr s) = s"
| "js_string (JArr vs) = join '','' (map (\<lambda>v. if v = JNull then [] else js_string v) vs)"
| "js_string (JObj kvs) = ''[object Object]''"

text \<open>\<open>Number(v)\<close>\<close>

fun js_number :: "jsval \<Rightarrow> jsnum" where
  "js_number None = NaN"
| "js_number (Some JNull) = Num 0"
| "js_number (Some (JBool b)) = Num (if b then 1 else 0)"
| "js_number (Some (JNum q)) = Num q"
| "js_number (Some (JStr s)) = to_number s"
| "js_number (Some v) = to_number (js_string v)"

definition jsval_string :: "jsval \<Rightarrow> string" where
  "jsval_string v = (case v of None \<Rightarrow> ''undefined'' | Some j \<Rightarrow> js_string j)"

text \<open>\<open>Uint8Array.from(v)\<close>: array elements, string characters or array-like members, modulo 256.\<close>

fun to_uint8 :: "jsnum \<Rightarrow> byte" where
  "to_uint8 NaN = 0"
| "to_uint8 (Num q) = of_int (if 0 \<le> q then \<lfloor>q\<rfloor> else \<lceil>q\<rceil>)"

definition array_like_length :: "(string \<times> json) list \<Rightarrow> nat" where
  "array_like_length kvs =
     (case js_number (map_of kvs ''length'') of NaN \<Rightarrow> 0 | Num q \<Rightarrow> nat \<lfloor>q\<rfloor>)"

fun uint8_from :: "json \<Rightarrow> byte list res" where
  "uint8_from JNull = Throw (TypeErr ''Cannot convert undefined or null to object'')"
| "uint8_from (JArr vs) = Ok (map (\<lambda>v. to_uint8 (js_number (Some v))) vs)"
| "uint8_from (JStr s) = Ok (map (\<lambda>c. to_uint8 (to_number [c])) s)"
| "uint8_from (JObj kvs) =
     Ok (map (\<lambda>i. to_uint8 (js_number (map_of kvs (nat_digits i)))) [0..<array_like_length kvs])"
| "uint8_from _ = Ok []"

end
