(* ===== verification/Externals.thy ===== *)
theory Externals
  imports JSON
begin

text \<open>
  Everything the sources call and do not contain: the environment variables, the clock,
  Redis, HTTP, the Solana and SPL-token packages, the job queues and the primitives of
  \<open>crypto\<close>.  They are the fields of one record, \<open>'x ext\<close>, an argument of every
  definition that uses them; \<open>'x\<close> is the state of the outside world, which only they
  read and change.  Any of them may fail where the real one may.

  What the code relies on is stated as locales (\<open>redis_hashes\<close>, \<open>redis_sets\<close>,
  \<open>redis_streams\<close>, \<open>aead\<close>): laws over an abstract view of the store, each with
  the documented behaviour of the command.  \<open>mem_ext\<close> at the end is an in-memory
  reference implementation, which shows that the laws can hold together and on which
  closed instances are evaluated.
\<close>

section \<open>Types of the packages\<close>

record keypair =
  kp_public :: string      \<comment> \<open>\<open>publicKey.toBase58()\<close>\<close>
  kp_secret :: "byte list" \<comment> \<open>\<open>secretKey\<close>\<close>

record transfer_ix =
  ix_source :: string
  ix_mint :: string
  ix_dest :: string
  ix_owner :: string
  ix_amount :: jsnum
  ix_decimals :: jsnum

datatype tx =
    TransferTx transfer_ix string string string \<comment> \<open>instruction, fee payer, blockhash, signer\<close>
  | SwapTx "byte list" string                   \<comment> \<open>serialized transaction, partial signer\<close>

datatype http_body = NoBody | JsonBody string | FormBody "(string \<times> string) list" | UrlBody string

record http_req =
  req_url :: string
  req_method :: string
  req_body :: http_body

record http_resp =
  resp_ok :: bool
  resp_statusText :: string
  resp_text :: string

text \<open>\<open>await res.json()\<close>\<close>

definition resp_json :: "http_resp \<Rightarrow> json res" where
  "resp_json r = JSON_parse (resp_text r)"

record 'x ext =
  procenv :: "string \<Rightarrow> string option"
  Date_now :: "'x \<Rightarrow> int \<times> 'x"
  sleep :: "int \<Rightarrow> 'x \<Rightarrow> 'x"
  randomBytes :: "nat \<Rightarrow> ('x, byte list) io"
  redis_get :: "string \<Rightarrow> ('x, string option) io"
  redis_setEx :: "string \<Rightarrow> int \<Rightarrow> string \<Rightarrow> ('x, unit) io"
  redis_del :: "string \<Rightarrow> ('x, unit) io"
  redis_incr :: "string \<Rightarrow> ('x, unit) io"
  redis_expire :: "string \<Rightarrow> int \<Rightarrow> ('x, unit) io"
  redis_hset :: "string \<Rightarrow> (string \<times> string option) list \<Rightarrow> ('x, unit) io"
  redis_hget :: "string \<Rightarrow> string \<Rightarrow> ('x, string option) io"
  redis_hgetall :: "string \<Rightarrow> ('x, (string \<times> string) list) io"
  redis_sadd :: "string \<Rightarrow> string \<Rightarrow> ('x, unit) io"
  redis_smembers :: "string \<Rightarrow> ('x, string list) io"
  redis_xadd :: "string \<Rightarrow> string list \<Rightarrow> ('x, unit) io"
  redis_xrevrange :: "string \<Rightarrow> nat \<Rightarrow> ('x, (string \<times> string list) list) io"
  redis_publish :: "string \<Rightarrow> string \<Rightarrow> ('x, unit) io"
  queue_add :: "string \<Rightarrow> string \<Rightarrow> json \<Rightarrow> ('x, unit) io"
  http_fetch :: "http_req \<Rightarrow> ('x, http_resp) io"
  gcm_encrypt :: "byte list \<Rightarrow> byte list \<Rightarrow> byte list \<Rightarrow> byte list \<times> byte list"
    \<comment> \<open>key, iv, plain text; cipher text and tag\<close>
  gcm_decrypt :: "byte list \<Rightarrow> byte list \<Rightarrow> byte list \<Rightarrow> byte list \<Rightarrow> byte list res"
    \<comment> \<open>key, iv, tag, cipher text\<close>
  hmac_sha256 :: "byte list \<Rightarrow> byte list \<Rightarrow> byte list"
  hkdf_sha256 :: "byte list \<Rightarrow> byte list \<Rightarrow> byte list"
  kp_generate :: "('x, keypair) io"
  kp_fromSecretKey :: "byte list \<Rightarrow> keypair res"
  publicKey_of :: "string \<Rightarrow> string res"
  ata_address :: "string \<Rightarrow> string \<Rightarrow> string res"
  mk_transferChecked :: "transfer_ix \<Rightarrow> transfer_ix res"
  tx_from :: "byte list \<Rightarrow> byte list res"
  conn_getBalance :: "string \<Rightarrow> ('x, int) io"
  conn_getAccountInfo :: "string \<Rightarrow> ('x, byte list option) io"
  conn_getParsedAccountInfo :: "string \<Rightarrow> ('x, jsval) io"
  conn_getParsedTokenAccounts :: "string \<Rightarrow> ('x, jsval) io"
  conn_getLatestBlockhash :: "('x, string) io"
  conn_send :: "tx \<Rightarrow> bool \<Rightarrow> ('x, string) io"
  conn_onAccountChange :: "string \<Rightarrow> ('x, unit) io"

text \<open>The exported constant of \<open>@solana/web3.js\<close>.\<close>

definition LAMPORTS_PER_SOL :: rat where
  "LAMPORTS_PER_SOL = 1000000000"

section \<open>Using them from a process\<close>

definition now_ms :: "'x ext \<Rightarrow> (('x, 'e) base_scheme, int) io" where
  "now_ms X = (\<lambda>s. case Date_now X (sys s) of (t, x) \<Rightarrow> (Ok t, s\<lparr>sys := x\<rparr>))"

definition sleep_ms :: "'x ext \<Rightarrow> int \<Rightarrow> (('x, 'e) base_scheme, unit) io" where
  "sleep_ms X d = modify (\<lambda>s. s\<lparr>sys := sleep X d (sys s)\<rparr>)"

lemma now_ms_run [io_simps]: "Date_now X (sys s) = (t, x) \<Longrightarrow> now_ms X s = (Ok t, s\<lparr>sys := x\<rparr>)"
  by (simp add: now_ms_def)

lemma sleep_ms_run [io_simps]: "sleep_ms X d s = (Ok (), s\<lparr>sys := sleep X d (sys s)\<rparr>)"
  by (simp add: sleep_ms_def modify_def)

context sys_order
begin

lemma stays_now_ms: "stays R (now_ms X)"
  by (rule staysI) (auto simp: now_ms_def R_sys split: prod.splits)

lemma stays_sleep_ms: "stays R (sleep_ms X d)"
  unfolding sleep_ms_def by (rule stays_modify) (rule R_sys)

end

text \<open>\<open>+process.env[k] || d\<close>\<close>

definition env_num :: "'x ext \<Rightarrow> string \<Rightarrow> rat \<Rightarrow> rat" where
  "env_num X k d =
     (case procenv X k of
        None \<Rightarrow> d
      | Some v \<Rightarrow> (case to_number v of Num q \<Rightarrow> if q = 0 then d else q | NaN \<Rightarrow> d))"

lemma env_num_nonzero: "d \<noteq> 0 \<Longrightarrow> env_num X k d \<noteq> 0"
  by (simp add: env_num_def split: option.splits jsnum.splits)

lemma env_num_default: "procenv X k = None \<Longrightarrow> env_num X k d = d"
  by (simp add: env_num_def)

section \<open>Laws of the store\<close>

text \<open>What an \<open>HSET\<close> of defined values does to one hash.\<close>

definition hash_put :: "(string \<Rightarrow> string option) \<Rightarrow> (string \<times> string) list \<Rightarrow> string \<Rightarrow> string option" where
  "hash_put h fs = foldl (\<lambda>h' (f, v). h'(f := Some v)) h fs"

definition defined_fields :: "(string \<times> string) list \<Rightarrow> (string \<times> string option) list" where
  "defined_fields fs = map (\<lambda>(f, v). (f, Some v)) fs"

lemma hash_put_simps [simp]:
  "hash_put h [] = h"
  "hash_put h ((f, v) # fs) = hash_put (h(f := Some v)) fs"
  by (simp_all add: hash_put_def)

lemma hash_put_other: "g \<notin> fst ` set fs \<Longrightarrow> hash_put h fs g = h g"
proof (induction fs arbitrary: h)
  case (Cons a fs)
  then show ?case by (cases a) auto
qed simp

lemma hash_put_in: "g \<in> fst ` set fs \<Longrightarrow> \<exists>v. (g, v) \<in> set fs \<and> hash_put h fs g = Some v"
proof (induction fs arbitrary: h)
  case (Cons a fs)
  show ?case
  proof (cases "g \<in> fst ` set fs")
    case True
    with Cons.IH show ?thesis by (cases a) fastforce
  next
    case False
    with Cons.prems show ?thesis by (cases a) (auto simp: hash_put_other)
  qed
qed simp

locale redis_hashes =
  fixes X :: "'x ext" and hashes :: "'x \<Rightarrow> string \<Rightarrow> string \<Rightarrow> string option"
  assumes hset_cases: "redis_hset X k (defined_fields fs) x = (r, x') \<Longrightarrow>
      hashes x' = hashes x \<or> hashes x' = (hashes x)(k := hash_put (hashes x k) fs)"
    and hset_Ok: "redis_hset X k (defined_fields fs) x = (Ok u, x') \<Longrightarrow>
      hashes x' = (hashes x)(k := hash_put (hashes x k) fs)"
    and hget_frame: "redis_hget X k f x = (rg, x') \<Longrightarrow> hashes x' = hashes x"
    and hget_Ok: "redis_hget X k f x = (Ok v, x') \<Longrightarrow> v = hashes x k f"
    and hgetall_frame: "redis_hgetall X k x = (r', x') \<Longrightarrow> hashes x' = hashes x"
    and hgetall_Ok: "redis_hgetall X k x = (Ok m, x') \<Longrightarrow> map_of m = hashes x k"
    and sadd_frame: "redis_sadd X k h x = (r, x') \<Longrightarrow> hashes x' = hashes x"
    and random_frame: "randomBytes X n x = (rb, x') \<Longrightarrow> hashes x' = hashes x"
    and generate_frame: "kp_generate X x = (rk, x') \<Longrightarrow> hashes x' = hashes x"

locale redis_sets =
  fixes X :: "'x ext" and sets :: "'x \<Rightarrow> string \<Rightarrow> string set"
  assumes sadd_Ok: "redis_sadd X k h x = (Ok u, x') \<Longrightarrow> sets x' = (sets x)(k := insert h (sets x k))"
    and smembers_frame: "redis_smembers X k x = (rm, x') \<Longrightarrow> sets x' = sets x"
    and smembers_Ok: "redis_smembers X k x = (Ok hs, x') \<Longrightarrow> set hs = sets x k"
    and hset_frame: "redis_hset X k d x = (ru, x') \<Longrightarrow> sets x' = sets x"

text \<open>A stream is the list of its entries, oldest first.\<close>

locale redis_streams =
  fixes X :: "'x ext" and streams :: "'x \<Rightarrow> string \<Rightarrow> (string \<times> string list) list"
  assumes xadd_Ok: "redis_xadd X k fs x = (Ok u, x') \<Longrightarrow>
      \<exists>i. streams x' = (streams x)(k := streams x k @ [(i, fs)])"
    and expire_frame: "redis_expire X k ttl x = (r, x') \<Longrightarrow> streams x' = streams x"
    and xrevrange_frame: "redis_xrevrange X k n x = (r', x') \<Longrightarrow> streams x' = streams x"
    and xrevrange_Ok: "redis_xrevrange X k n x = (Ok es, x') \<Longrightarrow> es = take n (rev (streams x k))"

text \<open>Strings: \<open>strings x k\<close> is the value of the key that has not expired.\<close>

locale redis_strings =
  fixes X :: "'x ext" and strings :: "'x \<Rightarrow> string \<Rightarrow> string option"
  assumes setEx_Ok: "redis_setEx X k ttl v x = (Ok u, x') \<Longrightarrow> strings x' = (strings x)(k := Some v)"
    and get_Ok: "redis_get X k x = (Ok w, x') \<Longrightarrow> w = strings x k"
    and get_frame: "redis_get X k x = (rg, x') \<Longrightarrow> strings x' = strings x"
    and fetch_frame: "http_fetch X req x = (rh, x') \<Longrightarrow> strings x' = strings x"

text \<open>Queues: \<open>jobs x\<close> lists the jobs added so far; the reads of the chain and the user store add none.\<close>

locale job_queues =
  fixes X :: "'x ext" and jobs :: "'x \<Rightarrow> (string \<times> string \<times> json) list"
  assumes add_Ok: "queue_add X q n d x = (Ok u, x') \<Longrightarrow> jobs x' = jobs x @ [(q, n, d)]"
    and balance_jobs: "conn_getBalance X p x = (rb, x') \<Longrightarrow> jobs x' = jobs x"
    and account_jobs: "conn_getAccountInfo X p x = (ra, x') \<Longrightarrow> jobs x' = jobs x"
    and hset_jobs: "redis_hset X k fs x = (rh, x') \<Longrightarrow> jobs x' = jobs x"
    and sadd_jobs: "redis_sadd X k h x = (rh, x') \<Longrightarrow> jobs x' = jobs x"
    and random_jobs: "randomBytes X m x = (ry, x') \<Longrightarrow> jobs x' = jobs x"

text \<open>
  The chain: \<open>landed x\<close> is the set of transactions that took effect.  A confirmed
  transaction has landed; one whose confirmation failed may have.
\<close>

locale chain =
  fixes X :: "'x ext" and landed :: "'x \<Rightarrow> tx set"
  assumes send_Ok: "conn_send X t skip x = (Ok sig, x') \<Longrightarrow> landed x' = insert t (landed x)"
    and send_cases: "conn_send X t skip x = (r, x') \<Longrightarrow> landed x' = landed x \<or> landed x' = insert t (landed x)"
    and mk_Ok: "mk_transferChecked X i = Ok i' \<Longrightarrow> i' = i"
    and sleep_landed: "landed (sleep X d x) = landed x"
    and blockhash_landed: "conn_getLatestBlockhash X x = (rb, x') \<Longrightarrow> landed x' = landed x"
    and get_landed: "redis_get X k x = (rg, x') \<Longrightarrow> landed x' = landed x"
    and setEx_landed: "redis_setEx X k ttl v x = (ru, x') \<Longrightarrow> landed x' = landed x"
    and parsed_landed: "conn_getParsedAccountInfo X p x = (rp, x') \<Longrightarrow> landed x' = landed x"

text \<open>Authenticated encryption: what was encrypted decrypts under the same key, IV and tag.\<close>

locale aead =
  fixes X :: "'x ext"
  assumes gcm_round: "gcm_encrypt X k iv p = (c, t) \<Longrightarrow> gcm_decrypt X k iv t c = Ok p"
    and gcm_tag: "gcm_encrypt X k iv p = (c, t) \<Longrightarrow> length t = 16"
    and random_length: "randomBytes X n x = (Ok b, x') \<Longrightarrow> length b = n"

section \<open>An in-memory reference implementation\<close>

record mem =
  m_hash :: "(string \<times> (string \<times> string) list) list"
  m_set :: "(string \<times> string list) list"
  m_str :: "(string \<times> string) list"
  m_stream :: "(string \<times> (string \<times> string list) list) list"
  m_pub :: "(string \<times> string) list"
  m_jobs :: "(string \<times> string \<times> json) list"
  m_clock :: int
  m_serial :: nat
  m_sleeps :: "int list"
  m_sent :: "tx list"
  m_subs :: "string list"

definition mem0 :: mem where
  "mem0 = \<lparr>m_hash = [], m_set = [], m_str = [], m_stream = [], m_pub = [], m_jobs = [],
     m_clock = 0, m_serial = 0, m_sleeps = [], m_sent = [], m_subs = []\<rparr>"

definition al_get :: "(string \<times> 'v) list \<Rightarrow> string \<Rightarrow> 'v \<Rightarrow> 'v" where
  "al_get m k d = (case map_of m k of None \<Rightarrow> d | Some v \<Rightarrow> v)"

lemma map_of_obj_put: "map_of (obj_put m k v) = (map_of m)(k := Some v)"
  by (induction m k v rule: obj_put.induct) auto

lemma al_get_obj_put: "al_get (obj_put m k v) k' d = (if k' = k then v else al_get m k' d)"
  by (simp add: al_get_def map_of_obj_put)

definition mem_hashes :: "mem \<Rightarrow> string \<Rightarrow> string \<Rightarrow> string option" where
  "mem_hashes x k = map_of (al_get (m_hash x) k [])"

definition mem_sets :: "mem \<Rightarrow> string \<Rightarrow> string set" where
  "mem_sets x k = set (al_get (m_set x) k [])"

definition mem_streams :: "mem \<Rightarrow> string \<Rightarrow> (string \<times> string list) list" where
  "mem_streams x k = al_get (m_stream x) k []"

definition mem_hset :: "string \<Rightarrow> (string \<times> string option) list \<Rightarrow> (mem, unit) io" where
  "mem_hset k d x =
     (Ok (), x\<lparr>m_hash := obj_put (m_hash x) k
        (foldl (\<lambda>h (f, v). obj_put h f (case v of None \<Rightarrow> [] | Some w \<Rightarrow> w))
               (al_get (m_hash x) k []) d)\<rparr>)"

definition mem_sadd :: "string \<Rightarrow> string \<Rightarrow> (mem, unit) io" where
  "mem_sadd k h x = (Ok (), x\<lparr>m_set := obj_put (m_set x) k (List.insert h (al_get (m_set x) k []))\<rparr>)"

definition mem_xadd :: "string \<Rightarrow> string list \<Rightarrow> (mem, unit) io" where
  "mem_xadd k fs x =
     (Ok (), x\<lparr>m_stream := obj_put (m_stream x) k
        (al_get (m_stream x) k [] @ [(nat_digits (m_serial x), fs)]), m_serial := Suc (m_serial x)\<rparr>)"

text \<open>A mock of authenticated encryption: the tag repeats the IV, the cipher text is the plain text.\<close>

definition mem_encrypt :: "byte list \<Rightarrow> byte list \<Rightarrow> byte list \<Rightarrow> byte list \<times> byte list" where
  "mem_encrypt k iv p = (p, take 16 (iv @ replicate 16 0))"

definition mem_decrypt :: "byte list \<Rightarrow> byte list \<Rightarrow> byte list \<Rightarrow> byte list \<Rightarrow> byte list res" where
  "mem_decrypt k iv t c =
     (if t = take 16 (iv @ replicate 16 0) then Ok c
      else Throw (Err ''Unsupported state or unable to authenticate data''))"

definition mem_ext :: "mem ext" where
  "mem_ext = \<lparr>
     procenv = (\<lambda>_. None),
     Date_now = (\<lambda>x. (m_clock x, x\<lparr>m_clock := m_clock x + 1\<rparr>)),
     sleep = (\<lambda>d x. x\<lparr>m_clock := m_clock x + d, m_sleeps := m_sleeps x @ [d]\<rparr>),
     randomBytes = (\<lambda>n x. (Ok (replicate n (of_nat (m_serial x))), x\<lparr>m_serial := Suc (m_serial x)\<rparr>)),
     redis_get = (\<lambda>k x. (Ok (map_of (m_str x) k), x)),
     redis_setEx = (\<lambda>k ttl v x. (Ok (), x\<lparr>m_str := obj_put (m_str x) k v\<rparr>)),
     redis_del = (\<lambda>k x. (Ok (), x\<lparr>m_str := filter (\<lambda>kv. fst kv \<noteq> k) (m_str x)\<rparr>)),
     redis_incr = (\<lambda>k x. (Ok (), x\<lparr>m_str := obj_put (m_str x) k
        (nat_digits (digits_val (al_get (m_str x) k []) + 1))\<rparr>)),
     redis_expire = (\<lambda>k ttl x. (Ok (), x)),
     redis_hset = mem_hset,
     redis_hget = (\<lambda>k f x. (Ok (map_of (al_get (m_hash x) k []) f), x)),
     redis_hgetall = (\<lambda>k x. (Ok (al_get (m_hash x) k []), x)),
     redis_sadd = mem_sadd,
     redis_smembers = (\<lambda>k x. (Ok (al_get (m_set x) k []), x)),
     redis_xadd = mem_xadd,
     redis_xrevrange = (\<lambda>k n x. (Ok (take n (rev (al_get (m_stream x) k []))), x)),
     redis_publish = (\<lambda>ch m x. (Ok (), x\<lparr>m_pub := m_pub x @ [(ch, m)]\<rparr>)),
     queue_add = (\<lambda>q n d x. (Ok (), x\<lparr>m_jobs := m_jobs x @ [(q, n, d)]\<rparr>)),
     http_fetch = (\<lambda>r x. (Throw (Err ''fetch failed''), x)),
     gcm_encrypt = mem_encrypt,
     gcm_decrypt = mem_decrypt,
     hmac_sha256 = (\<lambda>k m. k @ m),
     hkdf_sha256 = (\<lambda>s i. i),
     kp_generate = (\<lambda>x. (Ok \<lparr>kp_public = ''K'' @ nat_digits (m_serial x), kp_secret = replicate 64 0\<rparr>,
        x\<lparr>m_serial := Suc (m_serial x)\<rparr>)),
     kp_fromSecretKey = (\<lambda>b. if length b = 64 then Ok \<lparr>kp_public = ''S'', kp_secret = b\<rparr>
        else Throw (Err ''bad secret key size'')),
     publicKey_of = (\<lambda>s. Ok s),
     ata_address = (\<lambda>m o'. Ok (m @ ''/'' @ o')),
     mk_transferChecked = (\<lambda>i. Ok i),
     tx_from = (\<lambda>b. Ok b),
     conn_getBalance = (\<lambda>p x. (Ok 0, x)),
     conn_getAccountInfo = (\<lambda>p x. (Ok None, x)),
     conn_getParsedAccountInfo = (\<lambda>p x. (Ok None, x)),
     conn_getParsedTokenAccounts = (\<lambda>p x. (Ok (Some (JObj [(''value'', JArr [])])), x)),
     conn_getLatestBlockhash = (\<lambda>x. (Ok ''hash'', x)),
     conn_send = (\<lambda>t b x. (Ok ''sig'', x\<lparr>m_sent := m_sent x @ [t]\<rparr>)),
     conn_onAccountChange = (\<lambda>p x. (Ok (), x\<lparr>m_subs := m_subs x @ [p]\<rparr>))\<rparr>"

lemma mem_fields_put:
  "map_of (foldl (\<lambda>h (f, v). obj_put h f (case v of None \<Rightarrow> [] | Some w \<Rightarrow> w)) h (defined_fields fs)) =
   hash_put (map_of h) fs"
proof (induction fs arbitrary: h)
  case (Cons a fs)
  then show ?case by (cases a) (simp add: defined_fields_def map_of_obj_put fun_upd_def)
qed (simp add: defined_fields_def)

lemma mem_hset_hashes:
  "mem_hset k (defined_fields fs) x = (r, x') \<Longrightarrow>
   mem_hashes x' = (mem_hashes x)(k := hash_put (mem_hashes x k) fs)"
  by (auto simp: mem_hset_def mem_hashes_def al_get_obj_put mem_fields_put fun_eq_iff)

interpretation mem_redis: redis_hashes mem_ext mem_hashes
  by unfold_locales (auto simp: mem_ext_def mem_hset_hashes mem_sadd_def mem_hashes_def)

interpretation mem_redis_sets: redis_sets mem_ext mem_sets
  by unfold_locales
    (auto simp: mem_ext_def mem_sadd_def mem_hset_def mem_sets_def al_get_obj_put fun_eq_iff)

interpretation mem_redis_streams: redis_streams mem_ext mem_streams
  by unfold_locales
    (auto simp: mem_ext_def mem_xadd_def mem_streams_def al_get_obj_put fun_eq_iff intro!: exI)

definition mem_strings :: "mem \<Rightarrow> string \<Rightarrow> string option" where
  "mem_strings x = map_of (m_str x)"

definition mem_landed :: "mem \<Rightarrow> tx set" where
  "mem_landed x = set (m_sent x)"

interpretation mem_redis_strings: redis_strings mem_ext mem_strings
  by unfold_locales (auto simp: mem_ext_def mem_strings_def map_of_obj_put)

interpretation mem_chain: chain mem_ext mem_landed
  by unfold_locales (auto simp: mem_ext_def mem_landed_def)

interpretation mem_job_queues: job_queues mem_ext m_jobs
  by unfold_locales (auto simp: mem_ext_def mem_hset_def mem_sadd_def)

interpretation mem_aead: aead mem_ext
  by unfold_locales (auto simp: mem_ext_def mem_encrypt_def mem_decrypt_def)

end
