(* ===== verification/JSON_Props.thy ===== *)
theory JSON_Props
  imports JSON
begin

text \<open>
  Facts about the JSON model: printed numbers read back, the parser never runs out of fuel,
  and printing followed by parsing is the identity on well-formed values (integers below
  \<open>10 ^ 21\<close>, objects with distinct keys).
\<close>

section \<open>Decimal digits\<close>

lemma digits_val_append: "digits_val (s @ [c]) = 10 * digits_val s + digit_val c"
  by (simp add: digits_val_def)

lemma digit_val_char: "(d::nat) < 10 \<Longrightarrow> digit_val (char_of (48 + d)) = d"
  by (simp add: digit_val_def code_char_of)

lemma is_digit_char: "(d::nat) < 10 \<Longrightarrow> is_digit (char_of (48 + d))"
  by (simp add: is_digit_def code_char_of)

lemma digits_val_nat_digits: "digits_val (nat_digits n) = n"
proof (induction n rule: nat_digits.induct)
  case (1 n)
  show ?case
  proof (cases "n < 10")
    case True
    then show ?thesis
      by (simp add: nat_digits.simps[of n] digits_val_def digit_val_char)
  next
    case False
    with 1 show ?thesis
      by (simp add: nat_digits.simps[of n] digits_val_append digit_val_char)
  qed
qed

lemma nat_digits_digits: "c \<in> set (nat_digits n) \<Longrightarrow> is_digit c"
proof (induction n rule: nat_digits.induct)
  case (1 n)
  then show ?case
    by (cases "n < 10") (auto simp: nat_digits.simps[of n] is_digit_char)
qed

lemma nat_digits_Nil [simp]: "nat_digits n \<noteq> []"
  by (simp add: nat_digits.simps[of n])

lemma nat_digits_hd: "0 < n \<Longrightarrow> hd (nat_digits n) \<noteq> CHR ''0''"
proof (induction n rule: nat_digits.induct)
  case (1 n)
  show ?case
  proof (cases "n < 10")
    case True
    have "code (char_of (48 + n)) = 48 + n" using True by (intro code_char_of) simp
    moreover have "code (CHR ''0'') = 48" by (simp add: code_def)
    ultimately have "char_of (48 + n) \<noteq> CHR ''0''" using 1(2) by force
    with True show ?thesis by (simp add: nat_digits.simps[of n])
  next
    case False
    then have "0 < n div 10" by simp
    with 1(1) False show ?thesis by (simp add: nat_digits.simps[of n])
  qed
qed

lemma nat_digits_0: "nat_digits 0 = ''0''"
  by code_simp

lemma nat_digits_length: "n < 10 ^ k \<Longrightarrow> 0 < k \<Longrightarrow> length (nat_digits n) \<le> k"
proof (induction k arbitrary: n)
  case (Suc k)
  show ?case
  proof (cases "n < 10")
    case True
    then show ?thesis by (simp add: nat_digits.simps[of n])
  next
    case False
    with Suc.prems have "n div 10 < 10 ^ k" by (simp add: less_mult_imp_div_less mult.commute)
    moreover from False Suc.prems have "0 < k" by (cases k) auto
    ultimately have "length (nat_digits (n div 10)) \<le> k" by (rule Suc.IH)
    with False show ?thesis by (simp add: nat_digits.simps[of n])
  qed
qed simp

lemma takeWhile_digits:
  assumes "\<forall>c\<in>set ds. is_digit c" and "r = [] \<or> \<not> is_digit (hd r)"
  shows "takeWhile is_digit (ds @ r) = ds" and "dropWhile is_digit (ds @ r) = r"
proof -
  have "takeWhile is_digit r = []" "dropWhile is_digit r = r"
    using assms(2) by (cases r; auto)+
  then show "takeWhile is_digit (ds @ r) = ds" "dropWhile is_digit (ds @ r) = r"
    using assms(1) by (auto simp: takeWhile_append2 dropWhile_append2)
qed

lemma strip_zeros_pad:
  "strip_zeros s @ replicate (length s - length (strip_zeros s)) (CHR ''0'') = s"
proof -
  let ?P = "\<lambda>c. c = CHR ''0''"
  have tw: "takeWhile ?P t = replicate (length t - length (dropWhile ?P t)) (CHR ''0'')" for t
    by (induction t) (auto simp: Suc_diff_le length_dropWhile_le)
  have "s = rev (takeWhile ?P (rev s) @ dropWhile ?P (rev s))"
    by simp
  also have "\<dots> = strip_zeros s @ rev (takeWhile ?P (rev s))"
    by (simp only: rev_append strip_zeros_def)
  finally show ?thesis
    by (simp add: tw strip_zeros_def)
qed

lemma strip_zeros_length: "length (strip_zeros s) \<le> length s"
  by (simp add: strip_zeros_def) (metis length_dropWhile_le length_rev)

lemma decimals_int: "decimal_places (of_int i) = 0"
proof -
  have "decimals_go n k (of_int i) = k" for n k
    by (cases n) simp_all
  then show ?thesis by (simp only: decimal_places_def)
qed

lemma rat_to_string_nat:
  assumes "n < 10 ^ 21"
  shows "rat_to_string (of_nat n) = nat_digits n"
proof (cases "n = 0")
  case False
  have d: "decimal_places (of_nat n :: rat) = 0"
    using decimals_int[of "int n"] by simp
  have "length (nat_digits n) \<le> 21"
    using nat_digits_length[OF assms] by simp
  with strip_zeros_length[of "nat_digits n"]
  have "pos_to_string (of_nat n) = nat_digits n"
    by (simp add: pos_to_string_def Let_def d strip_zeros_pad)
  with False show ?thesis by (simp add: rat_to_string_def)
qed (simp add: rat_to_string_def nat_digits_0)

text \<open>What may follow a printed number: the end, or a character that does not extend it.\<close>

definition num_end :: "string \<Rightarrow> bool" where
  "num_end r \<longleftrightarrow> r = [] \<or> (\<not> is_digit (hd r) \<and> hd r \<notin> {CHR ''.'', CHR ''e'', CHR ''E''})"

lemma p_unum_nat: "num_end r \<Longrightarrow> p_unum (nat_digits n @ r) = Some (of_nat n, r)"
proof -
  assume r: "num_end r"
  have tw: "takeWhile is_digit (nat_digits n @ r) = nat_digits n"
    "dropWhile is_digit (nat_digits n @ r) = r"
    using r takeWhile_digits[of "nat_digits n" r] nat_digits_digits by (auto simp: num_end_def)
  have lead: "\<not> (1 < length (nat_digits n) \<and> hd (nat_digits n) = CHR ''0'')"
    by (cases "n = 0") (auto simp: nat_digits_0 nat_digits_hd)
  have "p_exp r = Some (0, r)" using r by (auto simp: p_exp_def num_end_def)
  with r lead show ?thesis
    by (auto simp: p_unum_def Let_def tw digits_val_nat_digits num_end_def pow10_def)
qed

lemma nat_digits_not_minus: "hd (nat_digits n) \<noteq> CHR ''-''"
  using nat_digits_digits[of "hd (nat_digits n)" n] by (auto simp: is_digit_def code_def)

lemma p_num_int:
  assumes "\<bar>i\<bar> < 10 ^ 21" and "num_end r"
  shows "p_num (rat_to_string (of_int i) @ r) = Some (of_int i, r)"
proof (cases "i < 0")
  case True
  define n where "n = nat (- i)"
  have n: "n < 10 ^ 21" "(of_int i :: rat) = - of_nat n" "0 < n"
    using assms True by (auto simp: n_def)
  have "rat_to_string (of_int i) = CHR ''-'' # nat_digits n"
    using rat_to_string_nat[OF n(1)] n(3) by (simp add: n(2) rat_to_string_def)
  then show ?thesis
    using p_unum_nat[OF assms(2), of n] by (simp add: p_num_def n(2))
next
  case False
  define n where "n = nat i"
  have n: "n < 10 ^ 21" "(of_int i :: rat) = of_nat n"
    using assms False by (auto simp: n_def)
  have "hd (nat_digits n @ r) \<noteq> CHR ''-''"
    using nat_digits_not_minus[of n] by simp
  then show ?thesis
    using p_unum_nat[OF assms(2), of n] by (simp add: p_num_def n(2) rat_to_string_nat[OF n(1)])
qed

section \<open>String literals\<close>

lemma code_eqD: "code c = n \<Longrightarrow> c = char_of n"
  by (metis char_of_code)

lemma hex4_val_hex4: "n < 256 \<Longrightarrow> hex4_val (hex4 n) = Some n"
proof -
  assume "n < 256"
  moreover have "hex_val (CHR ''0'') = Some 0" by (simp add: hex_val_def is_digit_def code_def)
  ultimately show ?thesis by (simp add: hex4_def hex_val_digit)
qed

lemma p_str_plain:
  "code c \<ge> 32 \<Longrightarrow> c \<noteq> CHR 0x22 \<Longrightarrow> c \<noteq> CHR 0x5C \<Longrightarrow>
   p_str (c # t) = map_option (\<lambda>(x, r). (c # x, r)) (p_str t)"
  by simp

lemma p_str_unicode:
  "n < 256 \<Longrightarrow> p_str (CHR 0x5C # CHR ''u'' # hex4 n @ t) =
     map_option (\<lambda>(x, r). (char_of n # x, r)) (p_str t)"
proof -
  assume n: "n < 256"
  have "length (hex4 n) = 4" by (simp add: hex4_def)
  then have "take 4 (hex4 n @ t) = hex4 n" "drop 4 (hex4 n @ t) = t" by simp_all
  moreover have "code (CHR 0x5C) = 92" by (simp add: code_def)
  ultimately show ?thesis using n by (simp add: hex4_val_hex4 unit_char_def)
qed

lemma p_str_esc: "p_str (esc_char c @ t) = map_option (\<lambda>(x, r). (c # x, r)) (p_str t)"
proof -
  have bs: "code (CHR 0x5C) = 92" by (simp add: code_def)
  have ctl: "CHR 0x08 = char_of (8::nat)" "CHR 0x09 = char_of (9::nat)"
    "CHR 0x0A = char_of (10::nat)" "CHR 0x0C = char_of (12::nat)" "CHR 0x0D = char_of (13::nat)"
    by (code_simp)+
  consider "c = CHR 0x22" | "c = CHR 0x5C" | "code c \<in> {8, 9, 10, 12, 13}"
    | "code c < 32" "code c \<notin> {8, 9, 10, 12, 13}"
    | "code c \<ge> 32" "c \<noteq> CHR 0x22" "c \<noteq> CHR 0x5C"
    by fastforce
  then show ?thesis
  proof cases
    case 1
    then show ?thesis by (simp add: esc_char_def bs unescape_def)
  next
    case 2
    then show ?thesis by (simp add: esc_char_def bs unescape_def)
  next
    case 3
    then have "c \<noteq> CHR 0x22" "c \<noteq> CHR 0x5C" by (auto simp: code_def)
    with 3 show ?thesis by (auto simp: esc_char_def bs ctl unescape_def dest: code_eqD)
  next
    case 4
    then have "c \<noteq> CHR 0x22" "c \<noteq> CHR 0x5C" by (auto simp: code_def)
    with 4 have "esc_char c = CHR 0x5C # ''u'' @ hex4 (code c)"
      by (simp add: esc_char_def)
    with 4 show ?thesis using p_str_unicode[of "code c" t] by simp
  next
    case 5
    then have "esc_char c = [c]" by (simp add: esc_char_def)
    with 5 show ?thesis using p_str_plain[of c t] by simp
  qed
qed

lemma p_str_quote: "p_str (concat (map esc_char s) @ CHR 0x22 # r) = Some (s, r)"
  by (induction s) (simp_all add: p_str_esc del: p_str.simps(2) add: p_str.simps(2)[of "CHR 0x22"])

section \<open>Round trip\<close>

fun wf_json :: "json \<Rightarrow> bool" where
  "wf_json (JNum q) \<longleftrightarrow> (\<exists>i. q = of_int i \<and> \<bar>i\<bar> < 10 ^ 21)"
| "wf_json (JArr vs) \<longleftrightarrow> (\<forall>v\<in>set vs. wf_json v)"
| "wf_json (JObj kvs) \<longleftrightarrow> distinct (map fst kvs) \<and> (\<forall>kv\<in>set kvs. wf_json (snd kv))"
| "wf_json _ \<longleftrightarrow> True"

text \<open>A text that starts a value: not blank, and not a closing bracket.\<close>

definition opens :: "string \<Rightarrow> bool" where
  "opens s \<longleftrightarrow> s \<noteq> [] \<and> \<not> is_jws (hd s) \<and> hd s \<noteq> CHR '']'' \<and> hd s \<noteq> CHR ''}''"

lemma opens_append: "opens s \<Longrightarrow> opens (s @ t)"
  by (cases s) (auto simp: opens_def)

lemma skip_ws_opens: "opens s \<Longrightarrow> skip_ws s = s"
  by (cases s) (auto simp: opens_def skip_ws_def)

lemma p_char_opens: "opens s \<Longrightarrow> c \<in> {CHR '']'', CHR ''}''} \<Longrightarrow> p_char c s = None"
  by (cases s) (auto simp: p_char_def skip_ws_opens opens_def)

lemma p_char_hit: "\<not> is_jws c \<Longrightarrow> p_char c (c # s) = Some s"
  by (simp add: p_char_def skip_ws_def)

lemma p_char_miss: "\<not> is_jws d \<Longrightarrow> d \<noteq> c \<Longrightarrow> p_char c (d # s) = None"
  by (simp add: p_char_def skip_ws_def)

lemma jws_marks [simp]:
  "\<not> is_jws (CHR '','')" "\<not> is_jws (CHR '']'')" "\<not> is_jws (CHR ''}'')" "\<not> is_jws (CHR '':'')"
  "\<not> is_jws (CHR 0x22)" "\<not> is_jws (CHR ''['')" "\<not> is_jws (CHR ''{'')"
  by (simp_all add: is_jws_def code_def)

lemma num_end_marks [simp]:
  "num_end (CHR '','' # r)" "num_end (CHR '']'' # r)" "num_end (CHR ''}'' # r)" "num_end []"
  by (simp_all add: num_end_def is_digit_def code_def)

text \<open>The first character of a printed integer is a digit or a minus sign.\<close>

lemma int_text_hd:
  assumes "\<bar>i\<bar> < 10 ^ 21"
  shows "rat_to_string (of_int i) \<noteq> []"
    and "is_digit (hd (rat_to_string (of_int i))) \<or> hd (rat_to_string (of_int i)) = CHR ''-''"
proof -
  have "rat_to_string (of_int i) \<noteq> [] \<and>
    (is_digit (hd (rat_to_string (of_int i))) \<or> hd (rat_to_string (of_int i)) = CHR ''-'')"
  proof (cases "i < 0")
    case True
    then show ?thesis by (simp add: rat_to_string_def)
  next
    case False
    then obtain n where n: "i = int n" by (metis nonneg_int_cases not_less)
    with assms have "n < 10 ^ 21" by simp
    with n show ?thesis
      using nat_digits_digits[of "hd (nat_digits n)" n] by (simp add: rat_to_string_nat)
  qed
  then show "rat_to_string (of_int i) \<noteq> []"
    and "is_digit (hd (rat_to_string (of_int i))) \<or> hd (rat_to_string (of_int i)) = CHR ''-''"
    by auto
qed

lemma numeral_hd_marks:
  assumes "is_digit c \<or> c = CHR ''-''"
  shows "\<not> is_jws c" "c \<noteq> CHR '']''" "c \<noteq> CHR ''}''" "c \<noteq> CHR ''{''" "c \<noteq> CHR ''[''"
    "c \<noteq> CHR 0x22" "c \<noteq> CHR ''t''" "c \<noteq> CHR ''f''" "c \<noteq> CHR ''n''"
  using assms by (auto simp: is_digit_def is_jws_def code_def)

lemma opens_stringify: "wf_json j \<Longrightarrow> opens (JSON_stringify j)"
proof (cases j)
  case (JNum q)
  assume "wf_json j"
  with JNum obtain i where i: "q = of_int i" "\<bar>i\<bar> < 10 ^ 21" by auto
  with JNum show ?thesis
    using int_text_hd[OF i(2)] numeral_hd_marks[OF int_text_hd(2)[OF i(2)]]
    by (simp add: opens_def)
qed (auto simp: opens_def quote_def is_jws_def code_def)

lemma p_val_int:
  assumes "\<bar>i\<bar> < 10 ^ 21" and "num_end r"
  shows "p_val (Suc n) (rat_to_string (of_int i) @ r) = Some (JNum (of_int i), r)"
proof -
  obtain c t where ct: "rat_to_string (of_int i) = c # t"
    using int_text_hd(1)[OF assms(1)] by (cases "rat_to_string (of_int i)") auto
  note m = numeral_hd_marks[OF int_text_hd(2)[OF assms(1)], unfolded ct list.sel]
  have "skip_ws (c # t @ r) = c # t @ r" using m(1) by (simp add: skip_ws_def)
  with m p_num_int[OF assms] show ?thesis
    by (simp add: ct startsWith_def)
qed

lemma obj_put_fresh: "k \<notin> fst ` set kvs \<Longrightarrow> obj_put kvs k v = kvs @ [(k, v)]"
  by (induction kvs k v rule: obj_put.induct) auto

lemma obj_of_distinct: "distinct (map fst kvs) \<Longrightarrow> obj_of kvs = kvs"
proof (induction kvs rule: rev_induct)
  case (snoc kv kvs)
  then show ?case by (cases kv) (simp add: obj_of_def obj_put_fresh)
qed (simp add: obj_of_def)

lemma join_cons: "vs \<noteq> [] \<Longrightarrow> join sep (v # vs) = v @ sep @ join sep vs"
  by (cases vs) auto

text \<open>Blanks before a value or a mark are skipped, and they end a number.\<close>

lemma skip_ws_blank: "list_all is_jws w \<Longrightarrow> skip_ws (w @ s) = skip_ws s"
  by (induction w) (auto simp: skip_ws_def)

lemma p_char_blank: "list_all is_jws w \<Longrightarrow> p_char c (w @ s) = p_char c s"
  by (simp add: p_char_def skip_ws_blank)

lemma p_val_blank: "list_all is_jws w \<Longrightarrow> p_val n (w @ s) = p_val n s"
  by (cases n) (simp_all add: skip_ws_blank)

lemma p_arr_blank: "list_all is_jws w \<Longrightarrow> p_arr n (w @ s) = p_arr n s"
  by (cases n) (simp_all add: p_val_blank)

lemma p_obj_blank: "list_all is_jws w \<Longrightarrow> p_obj n (w @ s) = p_obj n s"
  by (cases n) (simp_all add: p_char_blank)

lemma num_end_blank: "list_all is_jws w \<Longrightarrow> num_end s \<Longrightarrow> num_end (w @ s)"
  by (cases w) (auto simp: num_end_def is_digit_def is_jws_def code_def)

text \<open>Items printed by \<open>f\<close>, separated by a comma and blanks, with blanks before the bracket.\<close>

lemma p_arr_join:
  assumes "\<And>v n r. v \<in> set vs \<Longrightarrow> num_end r \<Longrightarrow> 2 * length (f v) + 1 \<le> n \<Longrightarrow> p_val n (f v @ r) = Some (v, r)"
    and "vs \<noteq> []" and "2 * length (join (CHR '','' # w) (map f vs)) + 2 \<le> n"
    and "list_all is_jws w" and "list_all is_jws w'"
  shows "p_arr n (join (CHR '','' # w) (map f vs) @ w' @ CHR '']'' # r) = Some (vs, r)"
  using assms(1-3)
proof (induction vs arbitrary: n)
  case (Cons v vs)
  from Cons.prems(3) obtain m where n: "n = Suc m" by (cases n) auto
  note blanks = p_char_blank[OF assms(5)] num_end_blank[OF assms(5)]
  show ?case
  proof (cases "vs = []")
    case True
    with Cons.prems n blanks(2) have "p_val m (f v @ w' @ CHR '']'' # r) = Some (v, w' @ CHR '']'' # r)" by simp
    with True n show ?thesis by (simp add: blanks p_char_hit p_char_miss)
  next
    case False
    have len: "2 * length (f v) + 1 \<le> m" "2 * length (join (CHR '','' # w) (map f vs)) + 2 \<le> m"
      using Cons.prems(3) n False by (simp_all add: join_cons)
    let ?rest = "join (CHR '','' # w) (map f vs) @ w' @ CHR '']'' # r"
    have "p_val m (f v @ CHR '','' # w @ ?rest) = Some (v, CHR '','' # w @ ?rest)"
      using Cons.prems(1) len(1) by simp
    moreover have "p_arr m (w @ ?rest) = Some (vs, r)"
      using Cons.IH Cons.prems(1) False len(2) by (simp add: p_arr_blank[OF assms(4)])
    ultimately show ?thesis using False n by (simp add: join_cons p_char_hit)
  qed
qed simp

text \<open>Members: the key, a colon and the value printed by \<open>f\<close>.\<close>

definition member_text :: "(json \<Rightarrow> string) \<Rightarrow> string \<times> json \<Rightarrow> string" where
  "member_text f kv = quote (fst kv) @ '':'' @ f (snd kv)"

lemma member_text_pair [simp]: "member_text f (k, v) = quote k @ '':'' @ f v"
  by (simp add: member_text_def)

lemma p_obj_join:
  assumes "\<And>k v n r. (k, v) \<in> set kvs \<Longrightarrow> num_end r \<Longrightarrow> 2 * length (f v) + 1 \<le> n \<Longrightarrow>
             p_val n (f v @ r) = Some (v, r)"
    and "kvs \<noteq> []" and "2 * length (join (CHR '','' # w) (map (member_text f) kvs)) + 2 \<le> n"
    and "list_all is_jws w" and "list_all is_jws w'"
  shows "p_obj n (join (CHR '','' # w) (map (member_text f) kvs) @ w' @ CHR ''}'' # r) = Some (kvs, r)"
  using assms(1-3)
proof (induction kvs arbitrary: n)
  case (Cons kv kvs)
  obtain k v where kv: "kv = (k, v)" by (cases kv)
  from Cons.prems(3) obtain m where n: "n = Suc m" by (cases n) auto
  have key: "p_str (concat (map esc_char k) @ CHR 0x22 # CHR '':'' # u) = Some (k, CHR '':'' # u)" for u
    by (rule p_str_quote)
  note blanks = p_char_blank[OF assms(5)] num_end_blank[OF assms(5)]
  show ?case
  proof (cases "kvs = []")
    case True
    with Cons.prems n kv blanks(2)
    have "p_val m (f v @ w' @ CHR ''}'' # r) = Some (v, w' @ CHR ''}'' # r)" by simp
    with True n kv key show ?thesis by (simp add: quote_def blanks p_char_hit p_char_miss)
  next
    case False
    have len: "2 * length (f v) + 1 \<le> m" "2 * length (join (CHR '','' # w) (map (member_text f) kvs)) + 2 \<le> m"
      using Cons.prems(3) n False kv by (simp_all add: join_cons)
    let ?rest = "join (CHR '','' # w) (map (member_text f) kvs) @ w' @ CHR ''}'' # r"
    have "p_val m (f v @ CHR '','' # w @ ?rest) = Some (v, CHR '','' # w @ ?rest)"
      using Cons.prems(1)[of k v] kv len(1) by simp
    moreover have "p_obj m (w @ ?rest) = Some (kvs, r)"
      unfolding p_obj_blank[OF assms(4)] by (rule Cons.IH[OF _ False len(2)]) (rule Cons.prems(1), auto)
    ultimately show ?thesis using False n kv key by (simp add: join_cons quote_def p_char_hit)
  qed
qed simp

lemma member_text_stringify:
  "(\<lambda>(k, v). quote k @ CHR '':'' # JSON_stringify v) = member_text JSON_stringify"
  by (auto simp: member_text_def)

lemma p_val_stringify:
  "wf_json j \<Longrightarrow> num_end r \<Longrightarrow> 2 * length (JSON_stringify j) + 1 \<le> n \<Longrightarrow>
   p_val n (JSON_stringify j @ r) = Some (j, r)"
proof (induction j arbitrary: n r)
  case (JNum q)
  then show ?case using p_val_int by (cases n) auto
next
  case (JArr vs)
  from JArr.prems(3) obtain m where n: "n = Suc m" by (cases n) auto
  show ?case
  proof (cases "vs = []")
    case True
    with n show ?thesis by (simp add: skip_ws_def p_char_hit)
  next
    case False
    then obtain v us where "vs = v # us" by (cases vs) auto
    then have "opens (join '','' (map JSON_stringify vs) @ CHR '']'' # r)"
      using JArr.prems(1) opens_append[OF opens_stringify] by (cases us) auto
    moreover have "p_arr m (join '','' (map JSON_stringify vs) @ CHR '']'' # r) = Some (vs, r)"
    proof (rule p_arr_join[where w="[]" and w'="[]", unfolded append_Nil])
      fix v n r
      assume "v \<in> set vs" "num_end r" "2 * length (JSON_stringify v) + 1 \<le> n"
      then show "p_val n (JSON_stringify v @ r) = Some (v, r)"
        using JArr.IH[of v r n] JArr.prems(1) by simp
    qed (use False JArr.prems(3) n in simp_all)
    ultimately show ?thesis using n by (simp add: skip_ws_def p_char_opens)
  qed
next
  case (JObj kvs)
  from JObj.prems(3) obtain m where n: "n = Suc m" by (cases n) auto
  have d: "obj_of kvs = kvs" using JObj.prems(1) by (simp add: obj_of_distinct)
  show ?case
  proof (cases "kvs = []")
    case True
    with n show ?thesis by (simp add: skip_ws_def p_char_hit)
  next
    case False
    then obtain k v us where "kvs = (k, v) # us" by (cases kvs) auto
    then have "opens (join '','' (map (member_text JSON_stringify) kvs) @ CHR ''}'' # r)"
      by (cases us) (auto simp: opens_def member_text_def quote_def)
    moreover have "p_obj m (join '','' (map (member_text JSON_stringify) kvs) @ CHR ''}'' # r) = Some (kvs, r)"
    proof (rule p_obj_join[where w="[]" and w'="[]", unfolded append_Nil])
      fix k v n r
      assume kv: "(k, v) \<in> set kvs" and "num_end r" "2 * length (JSON_stringify v) + 1 \<le> n"
      moreover from JObj.prems(1) kv have "wf_json v" by force
      ultimately show "p_val n (JSON_stringify v @ r) = Some (v, r)"
        using JObj.IH[of "(k, v)" v r n] by simp
    qed (use False JObj.prems(3) n in \<open>simp_all add: member_text_stringify\<close>)
    ultimately show ?thesis using n d by (simp add: skip_ws_def p_char_opens member_text_stringify)
  qed
next
  case (JStr s)
  then show ?case
    using p_str_quote[of s r] by (cases n) (auto simp: quote_def skip_ws_def)
next
  case (JBool b)
  then show ?case by (cases n) (auto simp: skip_ws_def is_jws_def code_def startsWith_def)
next
  case JNull
  then show ?case by (cases n) (auto simp: skip_ws_def is_jws_def code_def startsWith_def)
qed

lemma JSON_parse_stringify: "wf_json j \<Longrightarrow> JSON_parse (JSON_stringify j) = Ok j"
  using p_val_stringify[of j "[]" "2 * length (JSON_stringify j) + 2"]
  by (simp add: JSON_parse_def skip_ws_def)

interpretation json: codec JSON_stringify
  "\<lambda>s. case JSON_parse s of Ok j \<Rightarrow> Some j | _ \<Rightarrow> None" "\<lambda>j. j" wf_json
  by unfold_locales (simp add: JSON_parse_stringify)

section \<open>The parser's fuel is enough\<close>

text \<open>
  Every call of the parser returns a shorter rest; with \<open>2 * length s + 1\<close> units of
  fuel (\<open>+ 2\<close> inside brackets) more fuel changes nothing.
\<close>


lemma skip_ws_length: "length (skip_ws s) \<le> length s"
  by (simp add: skip_ws_def length_dropWhile_le)

lemma p_char_shorter: "p_char c s = Some u \<Longrightarrow> length u < length s"
  using skip_ws_length[of s] by (auto simp: p_char_def split: list.splits if_splits)

lemma p_str_shorter: "p_str s = Some (t, r) \<Longrightarrow> length r < length s"
proof (induction s arbitrary: t rule: p_str.induct)
  case (2 c s)
  show ?case
  proof (cases "c = CHR 0x22 \<or> code c < 32")
    case True
    with 2(4) show ?thesis by (auto split: if_splits)
  next
    case nq: False
    show ?thesis
    proof (cases "c = CHR 0x5C")
      case False
      with nq 2(4) obtain u where "p_str s = Some (u, r)" by auto
      with 2(1) nq False show ?thesis by fastforce
    next
      case bs: True
      show ?thesis
      proof (cases s)
        case Nil
        with nq bs 2(4) show ?thesis by simp
      next
        case (Cons e s1)
        show ?thesis
        proof (cases "e = CHR ''u''")
          case True
          with nq bs Cons 2(4) obtain n u
            where "hex4_val (take 4 s1) = Some n" "p_str (drop 4 s1) = Some (u, r)"
            by (auto split: option.splits)
          with 2(2) nq bs Cons True have "length r < length (drop 4 s1)" by blast
          with Cons show ?thesis by simp
        next
          case False
          with nq bs Cons 2(4) obtain u where u: "p_str s1 = Some (u, r)"
            by (auto split: option.splits if_splits)
          from False nq bs Cons 2(4) have "\<exists>x. unescape e = Some x"
            by (auto split: option.splits)
          with u 2(3) nq bs Cons False have "length r < length s1" by blast
          with Cons show ?thesis by simp
        qed
      qed
    qed
  qed
qed simp

lemma read_exp_length: "length (snd (read_exp s)) \<le> length s"
proof (cases s)
  case (Cons c t)
  have "length (dropWhile is_digit t) \<le> length t" "length (dropWhile is_digit (tl t)) \<le> length t"
    using length_dropWhile_le[of is_digit t] length_dropWhile_le[of is_digit "tl t"] by auto
  with Cons show ?thesis by (auto simp: read_exp_def Let_def)
qed (simp add: read_exp_def)

lemma p_unum_shorter: "p_unum s = Some (q, r) \<Longrightarrow> length r < length s"
proof -
  assume p: "p_unum s = Some (q, r)"
  let ?r1 = "dropWhile is_digit s"
  have ip: "takeWhile is_digit s \<noteq> []" using p by (auto simp: p_unum_def Let_def split: if_splits)
  then have r1: "length ?r1 < length s"
    by (metis append_Nil2 length_append length_greater_0_conv less_add_same_cancel2 takeWhile_dropWhile_id)
  define r2 where "r2 = (if ?r1 \<noteq> [] \<and> hd ?r1 = CHR ''.'' then dropWhile is_digit (tl ?r1) else ?r1)"
  have "length r2 \<le> length ?r1"
    using length_dropWhile_le[of is_digit "tl ?r1"] by (auto simp: r2_def)
  moreover obtain e where "p_exp r2 = Some (e, r)"
    using p by (auto simp: p_unum_def Let_def r2_def split: if_splits)
  then have "length r \<le> length r2"
    using read_exp_length[of r2] by (auto simp: p_exp_def Let_def split: if_splits)
  ultimately show ?thesis using r1 by simp
qed

lemma p_num_shorter: "p_num s = Some (q, r) \<Longrightarrow> length r < length s"
  by (cases s) (fastforce simp: p_num_def dest: p_unum_shorter split: if_splits)+

lemma p_val_shorter:
  "p_val n s = Some (v, r) \<Longrightarrow> length r < length s"
  "p_arr n s = Some (vs, r) \<Longrightarrow> length r < length s"
  "p_obj n s = Some (kvs, r) \<Longrightarrow> length r < length s"
proof (induction n s and n s and n s arbitrary: v r and vs r and kvs r rule: p_val_p_arr_p_obj.induct)
  case (2 n s)
  show ?case
  proof (cases "skip_ws s")
    case Nil
    with 2(3) show ?thesis by simp
  next
    case (Cons c t)
    then have t: "length (c # t) \<le> length s" using skip_ws_length[of s] by simp
    consider "c = CHR ''{''" | "c = CHR ''[''" | "c \<noteq> CHR ''{''" "c \<noteq> CHR ''[''" by blast
    then have "length r < length (c # t)"
    proof cases
      case 1
      then show ?thesis
        using 2(1)[OF Cons 1] 2(3) Cons p_char_shorter[of "CHR ''}''" t]
        by (fastforce split: option.splits)
    next
      case b: 2
      then show ?thesis
        using 2(2)[OF Cons _ b] 2(3) Cons p_char_shorter[of "CHR '']''" t]
        by (fastforce split: option.splits)
    next
      case 3
      then show ?thesis
        using 2(3) Cons p_str_shorter[of t] p_num_shorter[of "c # t"]
        by (auto split: if_splits)
    qed
    with t show ?thesis by simp
  qed
next
  case (4 n s)
  from 4(3) obtain x r0 where x: "p_val n s = Some (x, r0)" by (auto split: option.splits)
  with 4(1) have l: "length r0 < length s" by blast
  show ?case
  proof (cases "p_char (CHR '','') r0")
    case None
    with 4(3) x have "p_char (CHR '']'') r0 = Some r" by auto
    with l p_char_shorter show ?thesis by fastforce
  next
    case (Some u)
    with 4(3) x obtain ys where "p_arr n u = Some (ys, r)" by auto
    with 4(2)[OF x refl Some] p_char_shorter[OF Some] l show ?thesis by simp
  qed
next
  case (6 n s)
  from 6(3) obtain t where t: "p_char (CHR 0x22) s = Some t" by (auto split: option.splits)
  with 6(3) obtain k r0 where k: "p_str t = Some (k, r0)" by (auto split: option.splits)
  with 6(3) t obtain u where u: "p_char (CHR '':'') r0 = Some u" by (auto split: option.splits)
  with 6(3) t k obtain x r1 where x: "p_val n u = Some (x, r1)" by (auto split: option.splits)
  have l: "length r1 < length s"
    using p_char_shorter[OF t] p_str_shorter[OF k] p_char_shorter[OF u] 6(1)[OF t k refl u x] by simp
  show ?case
  proof (cases "p_char (CHR '','') r1")
    case None
    with 6(3) t k u x have "p_char (CHR ''}'') r1 = Some r" by auto
    with l p_char_shorter show ?thesis by fastforce
  next
    case (Some w)
    with 6(3) t k u x obtain ys where "p_obj n w = Some (ys, r)" by auto
    with 6(2)[OF t k refl u x refl Some] p_char_shorter[OF Some] l show ?thesis by simp
  qed
qed simp_all

lemma p_fuel:
  "2 * length s + 1 \<le> n \<Longrightarrow> n \<le> m \<Longrightarrow> p_val n s = p_val m s"
  "2 * length s + 2 \<le> n \<Longrightarrow> n \<le> m \<Longrightarrow> p_arr n s = p_arr m s"
  "2 * length s + 2 \<le> n \<Longrightarrow> n \<le> m \<Longrightarrow> p_obj n s = p_obj m s"
proof (induction n s and n s and n s arbitrary: m and m and m rule: p_val_p_arr_p_obj.induct)
  case (2 n s)
  from 2(4) obtain k where m: "m = Suc k" by (cases m) auto
  show ?case
  proof (cases "skip_ws s")
    case (Cons c t)
    then have t: "length t < length s" using skip_ws_length[of s] by simp
    consider "c = CHR ''{''" | "c = CHR ''[''" | "c \<noteq> CHR ''{''" "c \<noteq> CHR ''[''" by blast
    then show ?thesis
    proof cases
      case 1
      then show ?thesis
        using 2(1)[OF Cons 1, of k] 2(3,4) t by (cases "p_char (CHR ''}'') t") (simp_all add: m Cons)
    next
      case b: 2
      then show ?thesis
        using 2(2)[OF Cons _ b, of k] 2(3,4) t by (cases "p_char (CHR '']'') t") (simp_all add: m Cons)
    qed (simp add: m Cons)
  qed (simp add: m)
next
  case (4 n s)
  from 4(4) obtain k where m: "m = Suc k" by (cases m) auto
  have v: "p_val n s = p_val k s" using 4(1)[of k] 4(3,4) m by simp
  show ?case
  proof (cases "p_val n s")
    case None
    with v show ?thesis by (simp add: m)
  next
    case (Some xr)
    obtain x r where x: "p_val n s = Some (x, r)" using Some by (cases xr) auto
    show ?thesis
    proof (cases "p_char (CHR '','') r")
      case None
      with x v show ?thesis by (simp add: m)
    next
      case u: (Some u)
      have "length u < length s" using p_val_shorter(1)[OF x] p_char_shorter[OF u] by simp
      then have "p_arr n u = p_arr k u" using 4(2)[OF x refl u, of k] 4(3,4) m by simp
      with x v u show ?thesis by (simp add: m)
    qed
  qed
next
  case (6 n s)
  from 6(4) obtain k where m: "m = Suc k" by (cases m) auto
  show ?case
  proof (cases "\<exists>t x r u. p_char (CHR 0x22) s = Some t \<and> p_str t = Some (x, r) \<and>
                  p_char (CHR '':'') r = Some u")
    case False
    then show ?thesis by (auto simp: m split: option.splits)
  next
    case True
    then obtain t x r u where t: "p_char (CHR 0x22) s = Some t" and x: "p_str t = Some (x, r)"
      and u: "p_char (CHR '':'') r = Some u" by blast
    have lu: "length u < length s"
      using p_char_shorter[OF t] p_str_shorter[OF x] p_char_shorter[OF u] by simp
    then have v: "p_val n u = p_val k u" using 6(1)[OF t x refl u, of k] 6(3,4) m by simp
    show ?thesis
    proof (cases "p_val n u")
      case None
      with t x u v show ?thesis by (simp add: m)
    next
      case (Some yr)
      obtain y r1 where y: "p_val n u = Some (y, r1)" using Some by (cases yr) auto
      with v have y': "p_val k u = Some (y, r1)" by simp
      show ?thesis
      proof (cases "p_char (CHR '','') r1")
        case None
        with t x u y y' show ?thesis by (simp add: m)
      next
        case w: (Some w)
        have "length w < length s" using lu p_val_shorter(1)[OF y] p_char_shorter[OF w] by simp
        then have "p_obj n w = p_obj k w"
          using 6(2)[OF t x refl u y refl w, of k] 6(3,4) m by simp
        with t x u y y' w show ?thesis by (simp add: m)
      qed
    qed
  qed
qed simp_all

lemma JSON_parse_fuel:
  "2 * length s + 2 \<le> n \<Longrightarrow> p_val n s = p_val (2 * length s + 2) s"
  using p_fuel(1)[of s "2 * length s + 2" n] by simp

section \<open>Byte arrays as JSON\<close>

text \<open>\<open>JSON.stringify(Array.from(v))\<close> of a byte array.\<close>

definition byte_items :: "byte list \<Rightarrow> json list" where
  "byte_items bs = map (\<lambda>b. JNum (of_nat (unat b))) bs"

lemma uint8_items: "uint8_from (JArr (byte_items bs)) = Ok bs"
proof -
  have n: "to_uint8 (Num (of_nat n)) = of_nat n" for n by simp
  have "to_uint8 (Num (of_nat (unat b))) = b" for b :: byte
    unfolding n[of "unat b"] by simp
  then show ?thesis by (simp only: byte_items_def uint8_from.simps map_map o_def js_number.simps map_ident)
qed

lemma wf_byte_items: "wf_json (JArr (byte_items bs))"
proof -
  have n: "n < 256 \<Longrightarrow> wf_json (JNum (of_nat n))" for n
    by (auto intro!: exI[of _ "int n"])
  have "wf_json (JNum (of_nat (unat b)))" for b :: byte
    by (rule n[OF unat_byte_less])
  then show ?thesis unfolding byte_items_def by (simp only: wf_json.simps) force
qed

section \<open>Reading printed naturals\<close>

lemma digit_not_space: "is_digit c \<Longrightarrow> \<not> is_space c"
  by (auto simp: is_digit_def is_space_def)

lemma nat_digits_hd_digit: "is_digit (hd (nat_digits n))"
  by (rule nat_digits_digits[of _ n]) (simp add: hd_in_set)

lemma trim_start_digits: "trim_start (nat_digits n) = nat_digits n"
  using nat_digits_hd_digit[of n] digit_not_space
  by (cases "nat_digits n") (auto simp: trim_start_def)

lemma parseInt10_digits: "parseInt10 (nat_digits n) = Num (of_nat n)"
proof -
  have h: "hd (nat_digits n) \<noteq> CHR ''-''" "hd (nat_digits n) \<noteq> CHR ''+''"
    using nat_digits_hd_digit[of n] by (auto simp: is_digit_def code_def)
  have t: "takeWhile is_digit (nat_digits n) = nat_digits n"
    using nat_digits_digits by (simp add: takeWhile_eq_all_conv)
  show ?thesis
    using h by (simp add: parseInt10_def Let_def trim_start_digits t digits_val_nat_digits)
qed

lemma parseFloat_digits: "parseFloat (nat_digits n) = Num (of_nat n)"
proof -
  have t: "takeWhile is_digit (nat_digits n) = nat_digits n" "dropWhile is_digit (nat_digits n) = []"
    using nat_digits_digits by (simp_all add: takeWhile_eq_all_conv dropWhile_eq_Nil_conv)
  obtain c cs where c: "nat_digits n = c # cs" by (cases "nat_digits n") auto
  with nat_digits_hd_digit[of n] have "c \<noteq> CHR ''-''" "c \<noteq> CHR ''+''" by (auto simp: is_digit_def code_def)
  then have "read_signed (nat_digits n) = read_dec (nat_digits n)" by (simp add: read_signed_def c)
  also have "\<dots> = Some (of_nat n, [])"
    by (simp add: read_dec_def Let_def t read_exp_def pow10_def digits_val_nat_digits)
  finally show ?thesis by (simp add: parseFloat_def trim_start_digits)
qed

end
