(* ===== verification/Firewall.thy ===== *)
theory Firewall
  imports Externals JSON_Props
begin

text \<open>
  \<open>firewall.js\<close>: the health points of a process.  Incidents take points away and heal
  ticks give them back; at zero points the process ends itself.  The module variables are
  the record \<open>fw_state\<close>, the configuration is read from the environment, the exported
  operations are \<open>record_incident\<close> and its four uses, \<open>heal_tick\<close> (the interval
  callback) and the status functions.  No caller awaits an incident, so callers use
  \<open>spawn\<close>; the machine at the end composes incidents, heal ticks and everything that
  happens outside the process.

  Lemmas: the points stay within their bounds in every reachable state, the exact effect of
  an incident, exhausting the points ends the process whatever Redis does, healing waits for
  the quiet interval and reaches the maximum.
\<close>

section \<open>Configuration\<close>

definition MAX_HP :: "'x ext \<Rightarrow> rat" where
  "MAX_HP X = env_num X ''FW_MAX_HP'' 20"

definition WEIGHTS :: "'x ext \<Rightarrow> string \<Rightarrow> rat option" where
  "WEIGHTS X type =
     map_of [(''error'', env_num X ''FW_WEIGHT_ERROR'' 2),
             (''rpcFail'', env_num X ''FW_WEIGHT_RPCFAIL'' 5),
             (''spam'', env_num X ''FW_WEIGHT_SPAM'' 1),
             (''critical'', env_num X ''FW_WEIGHT_CRITICAL'' 10)] type"

definition HEAL_RATE :: "'x ext \<Rightarrow> rat" where
  "HEAL_RATE X = env_num X ''FW_HEAL_RATE'' 1"

definition HEAL_INTERVAL :: "'x ext \<Rightarrow> rat" where
  "HEAL_INTERVAL X = env_num X ''FW_HEAL_INTERVAL'' 300 * 1000"

definition BAR_LEN :: "'x ext \<Rightarrow> rat" where
  "BAR_LEN X = env_num X ''FW_BAR_LENGTH'' 20"

definition AUTO_EXIT :: "'x ext \<Rightarrow> bool" where
  "AUTO_EXIT X \<longleftrightarrow> procenv X ''FW_AUTO_EXIT'' \<noteq> Some ''false''"

section \<open>State and operations\<close>

record 'x fw_state = "'x base" +
  hp :: rat
  lastIncident :: int

text \<open>\<open>c.repeat(n)\<close>: the count is truncated, a negative one throws.\<close>

definition js_repeat :: "char \<Rightarrow> rat \<Rightarrow> string res" where
  "js_repeat c q =
     (let n = (if 0 \<le> q then \<lfloor>q\<rfloor> else \<lceil>q\<rceil>)
      in if n < 0 then Throw (RangeErr ''Invalid count value'') else Ok (replicate (nat n) c))"

definition js_round :: "rat \<Rightarrow> int" where
  "js_round q = \<lfloor>q + 1 / 2\<rfloor>"

text \<open>The block character of the bar is outside the modelled character set; \<open>#\<close> stands for it.\<close>

definition bar :: "'x ext \<Rightarrow> ('x, 'e) fw_state_scheme \<Rightarrow> string res" where
  "bar X s =
     bind_res (js_repeat (CHR ''#'') (of_int (js_round (hp s / MAX_HP X * BAR_LEN X)))) (\<lambda>filled.
     bind_res (js_repeat (CHR '' '') (BAR_LEN X - of_nat (length filled))) (\<lambda>empty.
     Ok (''['' @ filled @ empty @ ''] '' @ rat_to_string (hp s) @ ''/'' @ rat_to_string (MAX_HP X))))"

definition decay :: "'x ext \<Rightarrow> string \<Rightarrow> rat" where
  "decay X type = (case WEIGHTS X type of None \<Rightarrow> 1 | Some w \<Rightarrow> if w = 0 then 1 else w)"

definition fw_event_msg :: "string \<Rightarrow> rat \<Rightarrow> string" where
  "fw_event_msg type h =
     JSON_stringify (JObj [(''event'', JStr ''firewall''), (''type'', JStr type), (''hp'', JNum h)])"

definition record_incident :: "'x ext \<Rightarrow> string \<Rightarrow> (('x, 'e) fw_state_scheme, unit) io" where
  "record_incident X type =
     andthen (modify (\<lambda>s. s\<lparr>hp := max 0 (hp s - decay X type)\<rparr>))
    (bnd (now_ms X) (\<lambda>t.
     andthen (modify (\<lambda>s. s\<lparr>lastIncident := t\<rparr>))
    (bnd (bnd (gets (bar X)) of_res) (\<lambda>_.
     bnd (gets hp) (\<lambda>h.
     andthen (ext (redis_publish X ''nexus.events'' (fw_event_msg type h)))
    (bnd (gets hp) (\<lambda>h'.
     if h' = 0 \<and> AUTO_EXIT X then exit_process 1 else ret ()))))))) "

definition onError :: "'x ext \<Rightarrow> (('x, 'e) fw_state_scheme, unit) io" where
  "onError X = record_incident X ''error''"

definition onRpcFail :: "'x ext \<Rightarrow> (('x, 'e) fw_state_scheme, unit) io" where
  "onRpcFail X = record_incident X ''rpcFail''"

definition onSpam :: "'x ext \<Rightarrow> (('x, 'e) fw_state_scheme, unit) io" where
  "onSpam X = record_incident X ''spam''"

definition onCritical :: "'x ext \<Rightarrow> (('x, 'e) fw_state_scheme, unit) io" where
  "onCritical X = record_incident X ''critical''"

definition heal_tick :: "'x ext \<Rightarrow> (('x, 'e) fw_state_scheme, unit) io" where
  "heal_tick X =
     bnd (now_ms X) (\<lambda>t.
     bnd (gets (\<lambda>s. of_int (t - lastIncident s) > HEAL_INTERVAL X \<and> hp s < MAX_HP X)) (\<lambda>go.
     if go then
       andthen (modify (\<lambda>s. s\<lparr>hp := min (MAX_HP X) (hp s + HEAL_RATE X)\<rparr>))
      (bnd (bnd (gets (bar X)) of_res) (\<lambda>_.
       bnd (gets hp) (\<lambda>h.
       ext (redis_publish X ''nexus.events'' (fw_event_msg ''heal'' h)))))
     else ret ()))"

definition statusBar :: "'x ext \<Rightarrow> ('x, 'e) fw_state_scheme \<Rightarrow> string res" where
  "statusBar X s = bar X s"

text \<open>\<open>s.slice(1, -1)\<close>\<close>

definition slice_ends :: "string \<Rightarrow> string" where
  "slice_ends s = drop 1 (take (length s - 1) s)"

definition fw_report :: "'x ext \<Rightarrow> ('x, 'e) fw_state_scheme \<Rightarrow> (rat \<times> rat \<times> string) res" where
  "fw_report X s = map_Ok (\<lambda>b. (hp s, MAX_HP X, slice_ends b)) (bar X s)"

definition isAlive :: "('x, 'e) fw_state_scheme \<Rightarrow> bool" where
  "isAlive s \<longleftrightarrow> hp s > 0"

section \<open>The machine\<close>

text \<open>
  What can happen to a process: an incident, a heal tick, or anything outside it (time
  passing, other clients of the services).  A process with a deferred exit has ended.
\<close>

datatype 'x fw_event = Incident string | HealTick | Outside 'x

fun fw_next :: "'x ext \<Rightarrow> 'x fw_event \<Rightarrow> 'x fw_state \<Rightarrow> 'x fw_state" where
  "fw_next X (Incident type) s = snd (spawn (record_incident X type) s)"
| "fw_next X HealTick s = snd (spawn (heal_tick X) s)"
| "fw_next X (Outside x) s = s\<lparr>sys := x\<rparr>"

definition fw_init :: "'x ext \<Rightarrow> 'x fw_state \<Rightarrow> bool" where
  "fw_init X s \<longleftrightarrow> hp s = MAX_HP X \<and> deferred s = []"

definition fw_step :: "'x ext \<Rightarrow> 'x fw_state \<Rightarrow> 'x fw_event \<Rightarrow> 'x fw_state \<Rightarrow> bool" where
  "fw_step X s e s' \<longleftrightarrow> deferred s = [] \<and> s' = fw_next X e s"

text \<open>Configurations with a positive maximum and no negative weight or heal rate.\<close>

definition fw_config_ok :: "'x ext \<Rightarrow> bool" where
  "fw_config_ok X \<longleftrightarrow> 0 < MAX_HP X \<and> 0 < HEAL_RATE X \<and>
     0 < env_num X ''FW_WEIGHT_ERROR'' 2 \<and> 0 < env_num X ''FW_WEIGHT_RPCFAIL'' 5 \<and>
     0 < env_num X ''FW_WEIGHT_SPAM'' 1 \<and> 0 < env_num X ''FW_WEIGHT_CRITICAL'' 10"

definition hp_bounded :: "'x ext \<Rightarrow> ('x, 'e) fw_state_scheme \<Rightarrow> bool" where
  "hp_bounded X s \<longleftrightarrow> (fw_config_ok X \<longrightarrow> 0 \<le> hp s \<and> hp s \<le> MAX_HP X)"

text \<open>A run of incidents in a process that has not ended.\<close>

fun incidents :: "'x ext \<Rightarrow> string list \<Rightarrow> 'x fw_state \<Rightarrow> 'x fw_state" where
  "incidents X [] s = s"
| "incidents X (ty # tys) s =
     (if deferred s \<noteq> [] then s else incidents X tys (fw_next X (Incident ty) s))"

text \<open>A run of heal ticks.\<close>

fun heal_ticks :: "'x ext \<Rightarrow> nat \<Rightarrow> 'x fw_state \<Rightarrow> 'x fw_state" where
  "heal_ticks X 0 s = s"
| "heal_ticks X (Suc n) s = heal_ticks X n (fw_next X HealTick s)"

text \<open>A fresh process on the in-memory services, with the default configuration.\<close>

definition fw0 :: "mem fw_state" where
  "fw0 = \<lparr>sys = mem0, deferred = [], hp = 20, lastIncident = 0\<rparr>"

section \<open>The bar\<close>

lemma js_repeat_nat: "0 \<le> q \<Longrightarrow> js_repeat c q = Ok (replicate (nat \<lfloor>q\<rfloor>) c)"
  by (simp add: js_repeat_def Let_def)

lemma js_repeat_small_neg: "-1 < q \<Longrightarrow> q < 0 \<Longrightarrow> js_repeat c q = Ok []"
proof -
  assume "-1 < q" "q < 0"
  then have "\<lceil>q\<rceil> = 0" by (simp add: ceiling_eq_iff)
  with \<open>q < 0\<close> show ?thesis by (simp add: js_repeat_def Let_def)
qed

lemma bar_fill:
  assumes "0 < MAX_HP X" and "0 < BAR_LEN X" and "0 \<le> hp s" and "hp s \<le> MAX_HP X"
  defines "n \<equiv> js_round (hp s / MAX_HP X * BAR_LEN X)"
  shows "0 \<le> n" and "of_int n \<le> BAR_LEN X + 1 / 2"
proof -
  have q: "0 \<le> hp s / MAX_HP X * BAR_LEN X" using assms by simp
  have "hp s / MAX_HP X \<le> 1" using assms by simp
  then have "hp s / MAX_HP X * BAR_LEN X \<le> 1 * BAR_LEN X"
    using assms(2) by (intro mult_right_mono) auto
  then have "of_int n \<le> hp s / MAX_HP X * BAR_LEN X + 1 / 2"
    unfolding n_def js_round_def using of_int_floor_le by blast
  with \<open>hp s / MAX_HP X * BAR_LEN X \<le> 1 * BAR_LEN X\<close> show "of_int n \<le> BAR_LEN X + 1 / 2" by simp
  show "0 \<le> n" unfolding n_def js_round_def using q by simp
qed

lemma bar_Ok:
  assumes "0 < MAX_HP X" and "0 < BAR_LEN X" and "0 \<le> hp s" and "hp s \<le> MAX_HP X"
  shows "\<exists>sp. bar X s =
    Ok (''['' @ replicate (nat (js_round (hp s / MAX_HP X * BAR_LEN X))) (CHR ''#'') @ sp @ ''] '' @
        rat_to_string (hp s) @ ''/'' @ rat_to_string (MAX_HP X))"
proof -
  define n where "n = js_round (hp s / MAX_HP X * BAR_LEN X)"
  note fill = bar_fill[OF assms, folded n_def]
  have "js_repeat (CHR ''#'') (of_int n) = Ok (replicate (nat n) (CHR ''#''))"
    using fill(1) by (simp add: js_repeat_nat)
  moreover have "\<exists>sp. js_repeat (CHR '' '') (BAR_LEN X - of_nat (nat n)) = Ok sp"
  proof (cases "0 \<le> BAR_LEN X - of_nat (nat n)")
    case True
    then show ?thesis by (simp add: js_repeat_nat)
  next
    case False
    moreover have "-1 < BAR_LEN X - of_nat (nat n)" using fill by simp
    ultimately show ?thesis using js_repeat_small_neg by (metis not_le)
  qed
  ultimately show ?thesis unfolding bar_def n_def[symmetric] by auto
qed

section \<open>Effect of an incident\<close>

lemma decay_pos: "fw_config_ok X \<Longrightarrow> 0 < decay X type"
  by (auto simp: decay_def WEIGHTS_def fw_config_ok_def split: if_splits)

lemma hp_frame [simp]:
  "hp (s\<lparr>sys := x\<rparr>) = hp s" "hp (s\<lparr>deferred := d\<rparr>) = hp s"
  "deferred (s\<lparr>hp := h\<rparr>) = deferred s" "deferred (s\<lparr>lastIncident := t\<rparr>) = deferred s"
  "deferred (s\<lparr>sys := x\<rparr>) = deferred s"
  by simp_all

text \<open>Whatever its outcome, an incident takes its weight and stops at zero.\<close>

lemma record_incident_hp:
  "record_incident X type s = (r, s') \<Longrightarrow>
     hp s' = max 0 (hp s - decay X type) \<and> deferred s' = deferred s"
  by (auto simp: record_incident_def andthen_def bnd_def modify_def now_ms_def gets_def of_res_def
      ext_def exit_process_def ret_def split: prod.splits res.splits if_splits)

lemma record_incident_exits:
  "record_incident X type s = (r, s') \<Longrightarrow> AUTO_EXIT X \<Longrightarrow> hp s \<le> decay X type \<Longrightarrow> r \<noteq> Ok ()"
  by (auto simp: record_incident_def andthen_def bnd_def modify_def now_ms_def gets_def of_res_def
      ext_def exit_process_def ret_def split: prod.splits res.splits if_splits)

lemma spawn_incident:
  obtains r where "fst (record_incident X type s) = r"
    and "hp (snd (spawn (record_incident X type) s)) = max 0 (hp s - decay X type)"
    and "r \<noteq> Ok () \<Longrightarrow> deferred (snd (spawn (record_incident X type) s)) \<noteq> []"
proof -
  obtain r s' where run: "record_incident X type s = (r, s')" by force
  from record_incident_hp[OF run]
  have "hp (snd (spawn (record_incident X type) s)) = max 0 (hp s - decay X type)"
    by (simp add: spawn_def run split: res.splits)
  moreover have "r \<noteq> Ok () \<Longrightarrow> deferred (snd (spawn (record_incident X type) s)) \<noteq> []"
    by (simp add: spawn_def run split: res.splits)
  ultimately show ?thesis using run that by simp
qed

lemma heal_tick_hp:
  "heal_tick X s = (r, s') \<Longrightarrow>
     (hp s' = hp s \<or> (hp s < MAX_HP X \<and> hp s' = min (MAX_HP X) (hp s + HEAL_RATE X)))"
  by (auto simp: heal_tick_def andthen_def bnd_def modify_def now_ms_def gets_def of_res_def
      ext_def ret_def split: prod.splits res.splits if_splits)

lemma spawn_heal_hp:
  "hp (snd (spawn (heal_tick X) s)) = hp s \<or>
   (hp s < MAX_HP X \<and> hp (snd (spawn (heal_tick X) s)) = min (MAX_HP X) (hp s + HEAL_RATE X))"
proof -
  obtain r s' where run: "heal_tick X s = (r, s')" by force
  with heal_tick_hp[OF run] show ?thesis by (auto simp: spawn_def split: res.splits)
qed

lemma heal_tick_quiet:
  assumes "fw_config_ok X" and "0 < BAR_LEN X" and "0 \<le> hp s" and "hp s \<le> MAX_HP X"
    and "of_int (fst (Date_now X (sys s)) - lastIncident s) > HEAL_INTERVAL X"
    and "\<And>ch m x. fst (redis_publish X ch m x) = Ok ()"
  shows "\<exists>x. spawn (heal_tick X) s =
    (Ok (), s\<lparr>hp := min (MAX_HP X) (hp s + HEAL_RATE X), sys := x\<rparr>)"
proof -
  obtain t x1 where now: "Date_now X (sys s) = (t, x1)" by force
  let ?s = "s\<lparr>sys := x1, hp := min (MAX_HP X) (hp s + HEAL_RATE X)\<rparr>"
  have "0 \<le> hp ?s" "hp ?s \<le> MAX_HP X" using assms(1,3) by (auto simp: fw_config_ok_def)
  then obtain b where b: "bar X ?s = Ok b"
    using bar_Ok[of X ?s] assms(1,2) by (auto simp: fw_config_ok_def)
  obtain x2 where p: "redis_publish X ''nexus.events'' (fw_event_msg ''heal'' (hp ?s)) x1 = (Ok (), x2)"
    using assms(6) by (metis prod.collapse)
  show ?thesis
  proof (cases "hp s < MAX_HP X")
    case True
    then have "heal_tick X s = (Ok (), ?s\<lparr>sys := x2\<rparr>)"
      using now b p assms(5)
      by (simp add: heal_tick_def andthen_def bnd_def modify_def now_ms_def gets_def of_res_def ext_def)
    then show ?thesis by (auto simp: spawn_def)
  next
    case False
    with assms(1,4) have "min (MAX_HP X) (hp s + HEAL_RATE X) = hp s" by (auto simp: fw_config_ok_def)
    moreover have "heal_tick X s = (Ok (), s\<lparr>sys := x1\<rparr>)"
      using now False by (simp add: heal_tick_def bnd_def now_ms_def gets_def ret_def)
    ultimately show ?thesis by (auto simp: spawn_def)
  qed
qed

text \<open>Relations that also ignore the health points.\<close>

locale fw_order = base_order R for R :: "('x, 'e) fw_state_scheme \<Rightarrow> ('x, 'e) fw_state_scheme \<Rightarrow> bool" +
  assumes R_hp: "R s (s\<lparr>hp := h\<rparr>)" and R_lastIncident: "R s (s\<lparr>lastIncident := t\<rparr>)"
begin

lemma stays_record_incident: "stays R (record_incident X type)"
  unfolding record_incident_def
  by (intro base_rules stays_modify stays_now_ms R_hp R_lastIncident)

lemma stays_incident: "stays R (spawn (onError X))" "stays R (spawn (onRpcFail X))" "stays R (spawn (onSpam X))"
    "stays R (spawn (onCritical X))"
  unfolding onError_def onRpcFail_def onSpam_def onCritical_def
  by (intro stays_spawn stays_record_incident)+

end

interpretation fw: machine "fw_init X" "fw_step X" "hp_bounded X" for X :: "'x ext"
proof unfold_locales
  fix s
  assume "fw_init X s"
  then show "hp_bounded X s" by (auto simp: fw_init_def hp_bounded_def fw_config_ok_def)
next
  fix s :: "'x fw_state" and e s'
  assume inv: "hp_bounded X s" and st: "fw_step X s e s'"
  show "hp_bounded X s'"
  proof (cases e)
    case (Incident type)
    have "hp s' = max 0 (hp s - decay X type)"
      using st Incident spawn_incident[of X type s] by (auto simp: fw_step_def)
    with inv show ?thesis
      using decay_pos[of X type] by (auto simp: hp_bounded_def fw_config_ok_def)
  next
    case HealTick
    with st spawn_heal_hp[of X s] inv show ?thesis
      by (auto simp: fw_step_def hp_bounded_def fw_config_ok_def)
  next
    case (Outside x)
    with st inv show ?thesis by (simp add: fw_step_def hp_bounded_def)
  qed
qed

section \<open>Properties\<close>

text \<open>
  C3: In every state a process can reach by incidents, heal ticks and outside events, the
  health points lie between zero and the maximum, provided the configured maximum, weights
  and heal rate are positive.
\<close>

theorem hp_within_bounds:
  assumes "fw.reachable X s" and "fw_config_ok X"
  shows "0 \<le> hp s \<and> hp s \<le> MAX_HP X"
  using fw.reachable_inv[OF assms(1)] assms(2) by (simp add: hp_bounded_def)

text \<open>
  C13: Exhausting the health points ends the process.  With automatic exit on, a run of
  incidents whose weights add up to at least the points of the process leaves it ended,
  whatever Redis answers: a successful publication is followed by \<open>process.exit(1)\<close> and a
  failed one is an unhandled rejection.
\<close>

theorem exhausting_hp_ends_process:
  assumes "AUTO_EXIT X" and "fw_config_ok X" and "0 < hp s"
    and "hp s \<le> sum_list (map (decay X) tys)"
  shows "deferred (incidents X tys s) \<noteq> []"
  using assms(3,4)
proof (induction tys arbitrary: s)
  case Nil
  then show ?case by simp
next
  case (Cons ty tys)
  let ?s' = "fw_next X (Incident ty) s"
  obtain r where r: "fst (record_incident X ty s) = r"
    and h: "hp ?s' = max 0 (hp s - decay X ty)"
    and d: "r \<noteq> Ok () \<Longrightarrow> deferred ?s' \<noteq> []"
    using spawn_incident[of X ty s] by auto
  show ?case
  proof (cases "hp s \<le> decay X ty")
    case True
    with assms(1) r have "r \<noteq> Ok ()"
      by (metis prod.collapse record_incident_exits)
    then have "deferred ?s' \<noteq> []" by (rule d)
    moreover have "incidents X tys ?s' = ?s'"
      using \<open>deferred ?s' \<noteq> []\<close> by (cases tys) auto
    ultimately show ?thesis by simp
  next
    case False
    with h Cons.prems have "0 < hp ?s'" "hp ?s' \<le> sum_list (map (decay X) tys)"
      by auto
    then show ?thesis using Cons.IH by simp
  qed
qed


theorem hp_within_bounds_witness:
  "fw.reachable mem_ext (fw_next mem_ext (Incident ''spam'') fw0) \<and> fw_config_ok mem_ext \<and>
   0 \<le> hp (fw_next mem_ext (Incident ''spam'') fw0) \<and>
   hp (fw_next mem_ext (Incident ''spam'') fw0) \<le> MAX_HP mem_ext"
proof -
  have c: "fw_config_ok mem_ext"
    by (simp add: fw_config_ok_def MAX_HP_def HEAL_RATE_def env_num_def mem_ext_def)
  have "fw.reachable mem_ext fw0"
    by (rule fw.start) (simp add: fw_init_def fw0_def MAX_HP_def env_num_def mem_ext_def)
  then have r: "fw.reachable mem_ext (fw_next mem_ext (Incident ''spam'') fw0)"
    by (rule fw.move[where e = "Incident ''spam''"]) (simp add: fw_step_def fw0_def)
  show ?thesis using c r hp_within_bounds[OF r c] by blast
qed

theorem exhausting_hp_ends_process_witness:
  "AUTO_EXIT mem_ext \<and> fw_config_ok mem_ext \<and> 0 < hp fw0 \<and>
   hp fw0 \<le> sum_list (map (decay mem_ext) [''critical'', ''rpcFail'', ''rpcFail'']) \<and>
   deferred (incidents mem_ext [''critical'', ''rpcFail'', ''rpcFail''] fw0) \<noteq> []"
proof -
  have a: "AUTO_EXIT mem_ext" by (simp add: AUTO_EXIT_def mem_ext_def)
  have c: "fw_config_ok mem_ext"
    by (simp add: fw_config_ok_def MAX_HP_def HEAL_RATE_def env_num_def mem_ext_def)
  have h: "0 < hp fw0" "hp fw0 \<le> sum_list (map (decay mem_ext) [''critical'', ''rpcFail'', ''rpcFail''])"
    by (simp_all add: fw0_def decay_def WEIGHTS_def env_num_def mem_ext_def)
  show ?thesis using a c h exhausting_hp_ends_process[OF a c h] by blast
qed

text \<open>
  C23: The full effect of an incident while Redis accepts the publication and the points are
  within their bounds: the points drop by the weight of the incident and stop at zero, the
  time of the incident is noted, the event is published with the new points, and the process
  exits with code 1 exactly when no points are left and automatic exit is on.
\<close>

theorem incident_effect:
  assumes "fw_config_ok X" and "0 < BAR_LEN X" and "0 \<le> hp s" and "hp s \<le> MAX_HP X"
    and "Date_now X (sys s) = (t, x1)"
    and "redis_publish X ''nexus.events'' (fw_event_msg type (max 0 (hp s - decay X type))) x1 = (Ok (), x2)"
  shows "record_incident X type s =
    (if hp s \<le> decay X type \<and> AUTO_EXIT X then Exit 1 else Ok (),
     s\<lparr>hp := max 0 (hp s - decay X type), lastIncident := t, sys := x2\<rparr>)"
proof -
  let ?h = "max 0 (hp s - decay X type)"
  let ?s = "s\<lparr>hp := ?h, sys := x1, lastIncident := t\<rparr>"
  have "0 \<le> ?h" "?h \<le> MAX_HP X" using assms(1,3,4) decay_pos[of X type] by (auto simp: fw_config_ok_def)
  then obtain sp where b: "bar X ?s = Ok sp"
    using bar_Ok[of X ?s] assms(1,2) by (auto simp: fw_config_ok_def)
  show ?thesis
    using assms(5,6) b
    by (auto simp: record_incident_def io_simps andthen_def bnd_def modify_def now_ms_def gets_def
        of_res_def ext_def max_def)
qed

theorem incident_effect_witness:
  "record_incident mem_ext ''error'' fw0 =
     (Ok (), fw0\<lparr>hp := 18, lastIncident := 0,
        sys := mem0\<lparr>m_clock := 1, m_pub := [(''nexus.events'', fw_event_msg ''error'' 18)]\<rparr>\<rparr>)"
proof -
  have c: "fw_config_ok mem_ext" "0 < BAR_LEN mem_ext" "MAX_HP mem_ext = 20" "decay mem_ext ''error'' = 2"
    by (simp_all add: fw_config_ok_def MAX_HP_def HEAL_RATE_def BAR_LEN_def env_num_def mem_ext_def
        decay_def WEIGHTS_def)
  show ?thesis
    using incident_effect[of mem_ext fw0 0 "mem0\<lparr>m_clock := 1\<rparr>" "''error''"
        "mem0\<lparr>m_clock := 1, m_pub := [(''nexus.events'', fw_event_msg ''error'' 18)]\<rparr>"] c
    by (simp add: fw0_def mem0_def mem_ext_def)
qed

text \<open>
  C40: Healing.  While the last incident stays further back than the heal interval and Redis
  accepts the publications, each tick gives the heal rate until the maximum is reached:
  after \<open>n\<close> ticks the points are the smaller of the maximum and the start plus \<open>n\<close>
  times the rate, and the process is still running.
\<close>

theorem healing_restores_hp:
  assumes "fw_config_ok X" and "0 < BAR_LEN X" and "0 \<le> hp s" and "hp s \<le> MAX_HP X"
    and "\<And>x. of_int (fst (Date_now X x) - lastIncident s) > HEAL_INTERVAL X"
    and "\<And>ch m x. fst (redis_publish X ch m x) = Ok ()"
  shows "hp (heal_ticks X n s) = min (MAX_HP X) (hp s + of_nat n * HEAL_RATE X) \<and>
         deferred (heal_ticks X n s) = deferred s"
  using assms(3,4,5)
proof (induction n arbitrary: s)
  case 0
  then show ?case by simp
next
  case (Suc n)
  obtain x where x: "spawn (heal_tick X) s =
      (Ok (), s\<lparr>hp := min (MAX_HP X) (hp s + HEAL_RATE X), sys := x\<rparr>)"
    using heal_tick_quiet[OF assms(1,2) Suc.prems(1,2,3) assms(6)] by blast
  let ?s = "s\<lparr>hp := min (MAX_HP X) (hp s + HEAL_RATE X), sys := x\<rparr>"
  have "hp (heal_ticks X n ?s) = min (MAX_HP X) (hp ?s + of_nat n * HEAL_RATE X) \<and>
        deferred (heal_ticks X n ?s) = deferred ?s"
    by (rule Suc.IH) (use Suc.prems assms(1) in \<open>auto simp: fw_config_ok_def\<close>)
  moreover have "0 \<le> HEAL_RATE X * of_nat n" using assms(1) by (simp add: fw_config_ok_def)
  then have "min (MAX_HP X) (min (MAX_HP X) (hp s + HEAL_RATE X) + of_nat n * HEAL_RATE X) =
      min (MAX_HP X) (hp s + of_nat (Suc n) * HEAL_RATE X)"
    by (auto simp: algebra_simps min_def)
  ultimately show ?case using x by simp
qed

text \<open>The in-memory services with a clock that reads one day.\<close>

definition day_later_ext :: "mem ext" where
  "day_later_ext = mem_ext\<lparr>Date_now := (\<lambda>x. (86400000, x))\<rparr>"

theorem healing_restores_hp_witness:
  "hp (heal_ticks day_later_ext 7 (fw0\<lparr>hp := 15\<rparr>)) = 20 \<and>
   hp (heal_ticks day_later_ext 3 (fw0\<lparr>hp := 15\<rparr>)) = 18"
proof -
  have c: "fw_config_ok day_later_ext" "0 < BAR_LEN day_later_ext" "MAX_HP day_later_ext = 20"
    "HEAL_RATE day_later_ext = 1" "HEAL_INTERVAL day_later_ext = 300000"
    by (simp_all add: fw_config_ok_def MAX_HP_def HEAL_RATE_def HEAL_INTERVAL_def BAR_LEN_def
        env_num_def mem_ext_def day_later_ext_def)
  have "hp (heal_ticks day_later_ext n (fw0\<lparr>hp := 15\<rparr>)) = min 20 (15 + of_nat n)" for n
    using healing_restores_hp[of day_later_ext "fw0\<lparr>hp := 15\<rparr>" n] c
    by (simp add: fw0_def day_later_ext_def mem_ext_def)
  then show ?thesis by simp
qed

text \<open>
  The bar reported by \<open>state()\<close>.  \<open>slice(1, -1)\<close> is meant to strip the
  brackets, but the closing bracket is followed by the point count: the report keeps the
  bracket and loses the last digit of the maximum.
\<close>

theorem report_loses_last_digit:
  assumes "bar X s = Ok b" and "MAX_HP X = of_nat m" and "m < 10 ^ 21"
  shows "\<exists>r. fw_report X s = Ok (hp s, MAX_HP X, r) \<and> b = ''['' @ r @ [last (nat_digits m)] \<and>
             (\<exists>pre. r = pre @ ''] '' @ rat_to_string (hp s) @ ''/'' @ butlast (nat_digits m))"
proof -
  have m: "rat_to_string (MAX_HP X) = nat_digits m" using assms(2,3) by (simp add: rat_to_string_nat)
  with assms(1) obtain f e where b0: "b = ''['' @ f @ e @ ''] '' @ rat_to_string (hp s) @ ''/'' @ nat_digits m"
    by (auto simp: bar_def bind_res_Ok_iff)
  define u where "u = f @ e @ ''] '' @ rat_to_string (hp s) @ ''/'' @ butlast (nat_digits m)"
  have b: "b = CHR ''['' # u @ [last (nat_digits m)]" by (simp add: b0 u_def)
  have "slice_ends (CHR ''['' # u @ [c]) = u" for c by (simp add: slice_ends_def)
  then have "fw_report X s = Ok (hp s, MAX_HP X, u)" using assms(1) by (simp add: fw_report_def b)
  moreover have "\<exists>pre. u = pre @ ''] '' @ rat_to_string (hp s) @ ''/'' @ butlast (nat_digits m)"
    by (rule exI[of _ "f @ e"]) (simp add: u_def)
  ultimately show ?thesis using b by auto
qed

theorem report_loses_last_digit_witness:
  "\<exists>b r pre. bar mem_ext fw0 = Ok b \<and> fw_report mem_ext fw0 = Ok (20, 20, r) \<and>
     b = ''['' @ r @ ''0'' \<and> r = pre @ ''] '' @ rat_to_string 20 @ ''/2''"
proof -
  have c: "MAX_HP mem_ext = 20" "0 < BAR_LEN mem_ext" "hp fw0 = 20"
    by (simp_all add: MAX_HP_def BAR_LEN_def env_num_def mem_ext_def fw0_def)
  have d: "nat_digits 20 = ''20''" by code_simp
  obtain b where b: "bar mem_ext fw0 = Ok b" using bar_Ok[of mem_ext fw0] c by auto
  show ?thesis using report_loses_last_digit[OF b, of 20] b c d by auto
qed

end
