(* ===== verification/Retry.thy ===== *)
theory Retry
  imports Externals
begin

text \<open>
  \<open>retry.js\<close>: \<open>withRetry\<close> runs an asynchronous function up to a number of times with
  exponential back-off.  The loop is a recursion on the attempts left.  It is compared with
  the reference \<open>failed_run\<close>, the state reached after a given number of consecutive
  failures.
\<close>

fun retry_loop ::
  "'x ext \<Rightarrow> (('x, 'e) base_scheme, 'a) io \<Rightarrow> int \<Rightarrow> int \<Rightarrow> nat \<Rightarrow> nat \<Rightarrow> exn \<Rightarrow> (('x, 'e) base_scheme, 'a) io"
where
  "retry_loop X fn delay factor i 0 lastErr = throw lastErr"
| "retry_loop X fn delay factor i (Suc left) lastErr = (\<lambda>s.
     case fn s of
       (Ok a, s') \<Rightarrow> (Ok a, s')
     | (Throw e, s') \<Rightarrow>
         andthen (sleep_ms X (delay * factor ^ i)) (retry_loop X fn delay factor (Suc i) left e) s'
     | (Exit c, s') \<Rightarrow> (Exit c, s'))"

definition withRetry_opts ::
  "'x ext \<Rightarrow> (('x, 'e) base_scheme, 'a) io \<Rightarrow> nat \<Rightarrow> int \<Rightarrow> int \<Rightarrow> (('x, 'e) base_scheme, 'a) io" where
  "withRetry_opts X fn attempts delay factor = retry_loop X fn delay factor 0 attempts ThrownUndefined"

text \<open>\<open>withRetry(fn, { attempts })\<close> with the default delay and factor.\<close>

definition withRetry :: "'x ext \<Rightarrow> (('x, 'e) base_scheme, 'a) io \<Rightarrow> nat \<Rightarrow> (('x, 'e) base_scheme, 'a) io" where
  "withRetry X fn attempts = withRetry_opts X fn attempts 800 2"

text \<open>
  The reference: the last error and the state after \<open>k\<close> attempts that all throw, each
  followed by its pause.
\<close>

fun failed_run ::
  "'x ext \<Rightarrow> (('x, 'e) base_scheme, 'a) io \<Rightarrow> int \<Rightarrow> int \<Rightarrow> nat \<Rightarrow> nat \<Rightarrow> exn \<Rightarrow>
   ('x, 'e) base_scheme \<Rightarrow> (exn \<times> ('x, 'e) base_scheme) option"
where
  "failed_run X fn delay factor i 0 err s = Some (err, s)"
| "failed_run X fn delay factor i (Suc k) err s =
     (case fn s of
        (Throw e, s') \<Rightarrow>
          failed_run X fn delay factor (Suc i) k e (s'\<lparr>sys := sleep X (delay * factor ^ i) (sys s')\<rparr>)
      | _ \<Rightarrow> None)"

lemma retry_loop_Ok_iff:
  "retry_loop X fn delay factor i n err s = (Ok a, s') \<longleftrightarrow>
   (\<exists>k<n. \<exists>e s1. failed_run X fn delay factor i k err s = Some (e, s1) \<and> fn s1 = (Ok a, s'))"
proof (induction n arbitrary: i err s)
  case 0
  then show ?case by (simp add: throw_def)
next
  case (Suc n)
  obtain r s1 where fn: "fn s = (r, s1)" by force
  show ?case
  proof (cases r)
    case (Ok b)
    have "(\<exists>k<Suc n. \<exists>e s1. failed_run X fn delay factor i k err s = Some (e, s1) \<and> fn s1 = (Ok a, s')) \<longleftrightarrow>
      fn s = (Ok a, s')"
      using fn Ok by (auto simp: Ex_less_Suc2)
    with fn Ok show ?thesis by simp
  next
    case (Throw e)
    with fn Suc show ?thesis by (auto simp: andthen_def bnd_def sleep_ms_run Ex_less_Suc2)
  next
    case (Exit c)
    with fn show ?thesis by (auto simp: Ex_less_Suc2)
  qed
qed

lemma retry_loop_Throw_iff:
  "retry_loop X fn delay factor i n err s = (Throw e, s') \<longleftrightarrow>
   failed_run X fn delay factor i n err s = Some (e, s')"
proof (induction n arbitrary: i err s)
  case 0
  then show ?case by (auto simp: throw_def)
next
  case (Suc n)
  then show ?case
    by (auto simp: andthen_def bnd_def sleep_ms_run split: prod.splits res.splits)
qed

lemma keeps_retry:
  assumes "keeps I fn" and "\<And>s d. I s \<Longrightarrow> I (s\<lparr>sys := sleep X d (sys s)\<rparr>)"
  shows "keeps I (withRetry X fn n)"
proof -
  have "keeps I (retry_loop X fn delay factor i m err)" for delay factor i m err
  proof (induction m arbitrary: i err)
    case (Suc m)
    show ?case
    proof (rule keepsI)
      fix s r s'
      assume "I s" and run: "retry_loop X fn delay factor i (Suc m) err s = (r, s')"
      obtain r0 s0 where fn: "fn s = (r0, s0)" by force
      with assms(1) \<open>I s\<close> have "I s0" by (rule keepsD)
      show "I s'"
      proof (cases r0)
        case (Throw e)
        with fn run have "retry_loop X fn delay factor (Suc i) m e
            (s0\<lparr>sys := sleep X (delay * factor ^ i) (sys s0)\<rparr>) = (r, s')"
          by (simp add: andthen_def bnd_def sleep_ms_run)
        with Suc assms(2)[OF \<open>I s0\<close>] show ?thesis by (blast dest: keepsD)
      qed (use fn run \<open>I s0\<close> in auto)
    qed
  qed (simp add: keeps_throw)
  then show ?thesis by (simp add: withRetry_def withRetry_opts_def)
qed

lemma withRetry_post:
  assumes "keeps I fn" and "\<And>s d. I s \<Longrightarrow> I (s\<lparr>sys := sleep X d (sys s)\<rparr>)"
    and "\<And>s a s'. I s \<Longrightarrow> fn s = (Ok a, s') \<Longrightarrow> Q a s'"
    and "I s" and "withRetry X fn n s = (Ok a, s')"
  shows "Q a s'"
proof -
  have "I s \<Longrightarrow> retry_loop X fn delay factor i m err s = (Ok a, s') \<Longrightarrow> Q a s'" for delay factor i m err s
  proof (induction m arbitrary: i err s)
    case (Suc m)
    obtain r0 s0 where fn: "fn s = (r0, s0)" by force
    with assms(1) Suc.prems(1) have "I s0" by (rule keepsD)
    show ?case
    proof (cases r0)
      case (Throw e)
      with fn Suc.prems(2) have "retry_loop X fn delay factor (Suc i) m e
          (s0\<lparr>sys := sleep X (delay * factor ^ i) (sys s0)\<rparr>) = (Ok a, s')"
        by (simp add: andthen_def bnd_def sleep_ms_run)
      with assms(2)[OF \<open>I s0\<close>] show ?thesis by (rule Suc.IH)
    qed (use fn Suc.prems assms(3) in auto)
  qed (simp add: throw_def)
  with assms(4,5) show ?thesis by (simp add: withRetry_def withRetry_opts_def)
qed

lemma retry_loop_throw:
  "retry_loop X (throw e) delay factor i m err s =
      (Throw (if m = 0 then err else e),
       s\<lparr>sys := fold (\<lambda>j x. sleep X (delay * factor ^ j) x) [i..<i + m] (sys s)\<rparr>)"
proof (induction m arbitrary: i err s)
  case (Suc m)
  have "[i..<i + Suc m] = i # [Suc i..<Suc i + m]" by (simp add: upt_rec)
  with Suc show ?case by (simp add: throw_def andthen_def bnd_def sleep_ms_run)
qed (simp add: throw_def)

lemma withRetry_throw:
  assumes "0 < n"
  shows "\<exists>x. withRetry X (throw e) n s = (Throw e, s\<lparr>sys := x\<rparr>)"
  using retry_loop_throw[of X e 800 2 0 n ThrownUndefined s] assms
  by (auto simp: withRetry_def withRetry_opts_def)

context sys_order
begin

lemma stays_withRetry:
  assumes "stays R fn"
  shows "stays R (withRetry X fn n)"
proof -
  have "stays R (retry_loop X fn delay factor i m err)" for delay factor i m err
  proof (induction m arbitrary: i err)
    case (Suc m)
    have "stays R (andthen (sleep_ms X (delay * factor ^ i)) (retry_loop X fn delay factor (Suc i) m e))" for e
      using Suc by (intro stays_andthen stays_sleep_ms)
    then have "stays R (catch fn (\<lambda>e. andthen (sleep_ms X (delay * factor ^ i)) (retry_loop X fn delay factor (Suc i) m e)))"
      using assms by (intro stays_catch)
    then show ?case by (simp add: catch_def)
  qed (simp add: stays_pure)
  then show ?thesis by (simp add: withRetry_def withRetry_opts_def)
qed

end

text \<open>
  C21: \<open>withRetry\<close> returns the value of the first attempt that succeeds, and only that:
  it returns \<open>a\<close> exactly when, for some \<open>k\<close> below the number of attempts, the first
  \<open>k\<close> attempts threw and the next one returned \<open>a\<close>; it throws exactly when all
  attempts threw, and then with the error of the last one.
\<close>

theorem withRetry_first_success:
  "(withRetry_opts X fn n delay factor s = (Ok a, s') \<longleftrightarrow>
     (\<exists>k<n. \<exists>e s1. failed_run X fn delay factor 0 k ThrownUndefined s = Some (e, s1) \<and> fn s1 = (Ok a, s'))) \<and>
   (withRetry_opts X fn n delay factor s = (Throw e', s') \<longleftrightarrow>
     failed_run X fn delay factor 0 n ThrownUndefined s = Some (e', s'))"
  unfolding withRetry_opts_def by (intro conjI retry_loop_Ok_iff retry_loop_Throw_iff)

text \<open>
  The back-off schedule.  A function that always throws is attempted \<open>n\<close> times with
  the pauses \<open>delay * factor ^ i\<close> for \<open>i = 0 .. n - 1\<close>: there is a pause after every
  failure, the last one included, before the error reaches the caller.
\<close>

theorem withRetry_backoff:
  assumes "0 < n"
  shows "withRetry_opts X (throw e) n delay factor s =
    (Throw e, s\<lparr>sys := fold (\<lambda>i x. sleep X (delay * factor ^ i) x) [0..<n] (sys s)\<rparr>)"
  using retry_loop_throw[of X e delay factor 0 n ThrownUndefined s] assms by (simp add: withRetry_opts_def)

theorem withRetry_backoff_witness:
  "withRetry_opts mem_ext (throw (Err ''down'') :: (mem base, nat) io) 3 800 2 \<lparr>sys = mem0, deferred = []\<rparr> =
     (Throw (Err ''down''),
      \<lparr>sys = mem0\<lparr>m_clock := 5600, m_sleeps := [800, 1600, 3200]\<rparr>, deferred = []\<rparr>)"
proof -
  have "[0..<3] = [0, 1, 2]" by (simp add: upt_rec)
  then show ?thesis
    using withRetry_backoff[of 3 mem_ext "Err ''down''" 800 2 "\<lparr>sys = mem0, deferred = []\<rparr> :: mem base"]
    by (simp add: mem_ext_def mem0_def)
qed

text \<open>
  The loop with two meters: \<open>calls\<close> counts the calls of the function and \<open>slept\<close> the time
  spent in pauses.
\<close>

fun pauses :: "int \<Rightarrow> int \<Rightarrow> nat \<Rightarrow> nat \<Rightarrow> int" where
  "pauses delay factor i 0 = 0"
| "pauses delay factor i (Suc n) = delay * factor ^ i + pauses delay factor (Suc i) n"

lemma pauses_sum: "pauses delay factor i n = (\<Sum>j<n. delay * factor ^ (i + j))"
  by (induction n arbitrary: i) (simp_all add: sum.lessThan_Suc_shift del: sum.lessThan_Suc)

lemma retry_loop_meters:
  assumes "\<And>s. calls (snd (fn s)) = Suc (calls s)" and "\<And>s d. calls (s\<lparr>sys := sleep X d (sys s)\<rparr>) = calls s"
    and "\<And>s. slept (sys (snd (fn s))) = slept (sys s)" and "\<And>d x. slept (sleep X d x) = slept x + d"
    and "retry_loop X fn delay factor i n err s = (r, s')"
  shows "\<exists>k\<le>n. calls s' = calls s + k \<and>
    (if \<exists>e. r = Throw e then k = n \<and> slept (sys s') = slept (sys s) + pauses delay factor i n
     else 0 < k \<and> slept (sys s') = slept (sys s) + pauses delay factor i (k - 1))"
  using assms(5)
proof (induction n arbitrary: i err s)
  case 0
  then show ?case by (auto simp: throw_def)
next
  case (Suc n)
  obtain q s1 where fn: "fn s = (q, s1)" by force
  with assms(1)[of s] assms(3)[of s] have c: "calls s1 = Suc (calls s)" and t: "slept (sys s1) = slept (sys s)" by simp_all
  show ?case
  proof (cases q)
    case (Throw e)
    let ?s = "s1\<lparr>sys := sleep X (delay * factor ^ i) (sys s1)\<rparr>"
    have "retry_loop X fn delay factor (Suc i) n e ?s = (r, s')"
      using Suc.prems fn Throw by (simp add: andthen_def bnd_def sleep_ms_run)
    from Suc.IH[OF this] obtain k where k: "k \<le> n" "calls s' = Suc (calls s) + k"
      and m: "if \<exists>e. r = Throw e then k = n \<and> slept (sys s') = slept (sys s) + (delay * factor ^ i + pauses delay factor (Suc i) n)
        else 0 < k \<and> slept (sys s') = slept (sys s) + (delay * factor ^ i + pauses delay factor (Suc i) (k - 1))"
      by (auto simp: c t assms(2,4) add.assoc split: if_splits)
    then show ?thesis
      by (intro exI[of _ "Suc k"]) (cases k; auto split: if_splits)
  qed (use fn c t Suc.prems in \<open>auto intro!: exI[of _ 1]\<close>)
qed

text \<open>
  C22: The retry loop ends.  Whatever the function does on each call, \<open>withRetry\<close>
  calls it at most \<open>attempts\<close> times and pauses at most \<open>delay * factor ^ i\<close> summed over
  the attempts; when the result is an error all attempts were made, and otherwise the pauses are
  those of the failures before the last call.  The meters count calls and pauses: a call
  raises the first by one and leaves the second, a pause raises the second by its length.
\<close>

theorem withRetry_terminates:
  assumes "\<And>s. calls (snd (fn s)) = Suc (calls s)" and "\<And>s d. calls (s\<lparr>sys := sleep X d (sys s)\<rparr>) = calls s"
    and "\<And>s. slept (sys (snd (fn s))) = slept (sys s)" and "\<And>d x. slept (sleep X d x) = slept x + d"
    and "0 \<le> delay" and "0 \<le> factor"
    and "withRetry_opts X fn attempts delay factor s = (r, s')"
  shows "\<exists>k\<le>attempts. calls s' = calls s + k \<and>
    slept (sys s') \<le> slept (sys s) + (\<Sum>i<attempts. delay * factor ^ i) \<and>
    (if \<exists>e. r = Throw e
     then k = attempts \<and> slept (sys s') = slept (sys s) + (\<Sum>i<attempts. delay * factor ^ i)
     else 0 < k \<and> slept (sys s') = slept (sys s) + (\<Sum>i<k - 1. delay * factor ^ i))"
proof -
  have le: "(\<Sum>i<m. delay * factor ^ i) \<le> (\<Sum>i<attempts. delay * factor ^ i)" if "m \<le> attempts" for m
    using that assms(5,6) by (intro sum_mono2) auto
  have run: "retry_loop X fn delay factor 0 attempts ThrownUndefined s = (r, s')"
    using assms(7) by (simp add: withRetry_opts_def)
  from retry_loop_meters[where calls = calls and slept = slept, OF assms(1-4) run] obtain k where
    "k \<le> attempts" "calls s' = calls s + k"
    "if \<exists>e. r = Throw e then k = attempts \<and> slept (sys s') = slept (sys s) + (\<Sum>i<attempts. delay * factor ^ i)
     else 0 < k \<and> slept (sys s') = slept (sys s) + (\<Sum>i<k - 1. delay * factor ^ i)"
    unfolding pauses_sum by auto
  then show ?thesis using le[of "k - 1"] le[of attempts] by (intro exI[of _ k]) (auto split: if_splits)
qed

text \<open>A service that queues a job and fails.\<close>

definition flaky :: "(mem base, unit) io" where
  "flaky = ext (\<lambda>x. (Throw (Err ''down''), x\<lparr>m_jobs := m_jobs x @ [([], [], JNull)]\<rparr>))"

theorem withRetry_terminates_witness:
  "\<exists>r s'. withRetry_opts mem_ext flaky 3 800 2 \<lparr>sys = mem0, deferred = []\<rparr> = (r, s') \<and>
     length (m_jobs (sys s')) \<le> 3 \<and> sum_list (m_sleeps (sys s')) \<le> 5600"
proof -
  let ?s = "\<lparr>sys = mem0, deferred = []\<rparr> :: mem base"
  obtain r s' where run: "withRetry_opts mem_ext flaky 3 800 2 ?s = (r, s')" by force
  have m: "length (m_jobs (sys (snd (flaky s)))) = Suc (length (m_jobs (sys s)))"
    "length (m_jobs (sys (s\<lparr>sys := sleep mem_ext d (sys s)\<rparr>))) = length (m_jobs (sys s))"
    "sum_list (m_sleeps (sys (snd (flaky s)))) = sum_list (m_sleeps (sys s))"
    "sum_list (m_sleeps (sleep mem_ext d x)) = sum_list (m_sleeps x) + d" for s :: "mem base" and d x
    by (simp_all add: flaky_def ext_def mem_ext_def)
  have "(\<Sum>i<3. 800 * 2 ^ i) = (5600 :: int)" by (simp add: eval_nat_numeral)
  with withRetry_terminates[where calls = "\<lambda>s. length (m_jobs (sys s))" and slept = "\<lambda>x. sum_list (m_sleeps x)",
      OF m _ _ run] run show ?thesis
    by (auto simp: mem0_def)
qed

end
