(* ===== verification/Db.thy ===== *)
theory Db
  imports Externals JSON_Props
begin

text \<open>
  \<open>db.js\<close>: the user store.  A user is a Redis hash \<open>user:<handle>\<close>; its
  \<open>wallet\<close> field holds the secret key, encrypted with AES-256-GCM and framed as
  \<open>enc:\<close> followed by base64 of IV, tag and cipher text.  Operations are computations on
  the process state that reach Redis through \<open>ext\<close>; exceptions of Redis, of the cipher
  and of \<open>JSON.parse\<close> end them.

  The interface \<open>user_store\<close> is what \<open>commands.js\<close> relies on; the operations provide
  it over every Redis that keeps the laws of \<open>redis_hashes\<close>.
\<close>

section \<open>Key and frame\<close>

definition USERS_SET :: string where
  "USERS_SET = ''users''"

definition CIPHER_KEY :: "'x ext \<Rightarrow> byte list" where
  "CIPHER_KEY X = hex_decode (case procenv X ''WALLET_CIPHER_KEY'' of None \<Rightarrow> [] | Some v \<Rightarrow> v)"

text \<open>Loading the module ends the process unless the key has 32 bytes.\<close>

definition db_load :: "'x ext \<Rightarrow> unit res" where
  "db_load X = (if length (CIPHER_KEY X) \<noteq> 32 then Exit 1 else Ok ())"

definition encrypt :: "'x ext \<Rightarrow> byte list \<Rightarrow> (('x, 'e) base_scheme, string) io" where
  "encrypt X buf =
     bnd (ext (randomBytes X 12)) (\<lambda>iv.
     case gcm_encrypt X (CIPHER_KEY X) iv buf of
       (cipher, tag) \<Rightarrow> ret (base64_encode (iv @ tag @ cipher)))"

definition decrypt :: "'x ext \<Rightarrow> string \<Rightarrow> byte list res" where
  "decrypt X b64 =
     (let raw = base64_decode b64; iv = take 12 raw; tag = take 16 (drop 12 raw); cip = drop 28 raw
      in gcm_decrypt X (CIPHER_KEY X) iv tag cip)"

definition enc_prefix :: string where
  "enc_prefix = ''enc:''"

definition user_key :: "string \<Rightarrow> string" where
  "user_key handle = ''user:'' @ handle"

section \<open>Operations\<close>

text \<open>An object of fields; a value may be \<open>undefined\<close>.\<close>

type_synonym fields = "(string \<times> string option) list"

definition field :: "fields \<Rightarrow> string \<Rightarrow> string option" where
  "field d k = (case map_of d k of None \<Rightarrow> None | Some v \<Rightarrow> v)"

definition delete_field :: "string \<Rightarrow> (string \<times> 'v) list \<Rightarrow> (string \<times> 'v) list" where
  "delete_field k d = filter (\<lambda>kv. fst kv \<noteq> k) d"

definition seal_wallet :: "'x ext \<Rightarrow> fields \<Rightarrow> (('x, 'e) base_scheme, fields) io" where
  "seal_wallet X d =
     (case field d ''wallet'' of
        None \<Rightarrow> ret d
      | Some w \<Rightarrow>
          if w \<noteq> [] \<and> \<not> startsWith w enc_prefix
          then bnd (encrypt X (utf8_encode w)) (\<lambda>c. ret (obj_put d ''wallet'' (Some (enc_prefix @ c))))
          else ret d)"

definition upsertUser :: "'x ext \<Rightarrow> string \<Rightarrow> fields \<Rightarrow> (('x, 'e) base_scheme, unit) io" where
  "upsertUser X handle d0 =
     bnd (if truthy (field d0 ''chatId'')
          then andthen (ext (redis_hset X (user_key handle) [(''chatId'', field d0 ''chatId'')]))
                       (ret (delete_field ''chatId'' d0))
          else ret d0) (\<lambda>d1.
     bnd (seal_wallet X d1) (\<lambda>d2.
     andthen (ext (redis_sadd X USERS_SET handle))
             (if d2 \<noteq> [] then ext (redis_hset X (user_key handle) d2) else ret ())))"

definition setWalletItems :: "'x ext \<Rightarrow> string \<Rightarrow> json list \<Rightarrow> (('x, 'e) base_scheme, unit) io" where
  "setWalletItems X handle items =
     bnd (encrypt X (utf8_encode (JSON_stringify (JArr items)))) (\<lambda>c.
     andthen (ext (redis_sadd X USERS_SET handle))
             (ext (redis_hset X (user_key handle) [(''wallet'', Some (enc_prefix @ c))])))"

definition setWalletSecret :: "'x ext \<Rightarrow> string \<Rightarrow> byte list \<Rightarrow> (('x, 'e) base_scheme, unit) io" where
  "setWalletSecret X handle secret = setWalletItems X handle (byte_items secret)"

definition getUser :: "'x ext \<Rightarrow> string \<Rightarrow> (('x, 'e) base_scheme, (string \<times> string) list option) io" where
  "getUser X handle =
     bnd (ext (redis_hgetall X (user_key handle))) (\<lambda>d.
     if d = [] then ret None else ret (Some (delete_field ''wallet'' d)))"

text \<open>\<open>Uint8Array.from(JSON.parse(decrypt(enc.slice(4)).toString()))\<close>\<close>

definition open_wallet :: "'x ext \<Rightarrow> string \<Rightarrow> byte list res" where
  "open_wallet X enc =
     bind_res (decrypt X (drop 4 enc)) (\<lambda>plain.
     bind_res (JSON_parse (utf8_decode plain)) uint8_from)"

definition getWalletSecret :: "'x ext \<Rightarrow> string \<Rightarrow> (('x, 'e) base_scheme, byte list option) io" where
  "getWalletSecret X handle =
     bnd (ext (redis_hget X (user_key handle) ''wallet'')) (\<lambda>v.
     case v of
       None \<Rightarrow> ret None
     | Some enc \<Rightarrow>
         if enc = [] \<or> \<not> startsWith enc enc_prefix then ret None
         else bnd (of_res (open_wallet X enc)) (\<lambda>secret. ret (Some secret)))"

definition getWalletCompat ::
  "'x ext \<Rightarrow> string \<Rightarrow> (('x, 'e) base_scheme, byte list option \<times> string option) io" where
  "getWalletCompat X handle =
     bnd (ext (redis_hget X (user_key handle) ''wallet'')) (\<lambda>v.
     case v of
       None \<Rightarrow> ret (None, None)
     | Some enc \<Rightarrow>
         if enc \<noteq> [] \<and> startsWith enc enc_prefix
         then bnd (of_res (open_wallet X enc)) (\<lambda>secret. ret (Some secret, None))
         else if enc \<noteq> [] then ret (None, Some enc)
         else ret (None, None))"

definition getAllUsers :: "'x ext \<Rightarrow> (('x, 'e) base_scheme, string list) io" where
  "getAllUsers X = ext (redis_smembers X USERS_SET)"

text \<open>A process on the empty in-memory store.\<close>

definition base0 :: "mem base" where
  "base0 = \<lparr>sys = mem0, deferred = []\<rparr>"

context sys_order
begin

lemma stays_upsertUser: "stays R (upsertUser X h d)"
  unfolding upsertUser_def seal_wallet_def encrypt_def by (intro sys_rules)

lemma stays_setWalletItems: "stays R (setWalletItems X h items)"
  unfolding setWalletItems_def encrypt_def by (intro sys_rules)

lemma stays_getUser: "stays R (getUser X h)"
  unfolding getUser_def by (intro sys_rules)

lemma stays_getWalletCompat: "stays R (getWalletCompat X h)"
  unfolding getWalletCompat_def by (intro sys_rules)

end

section \<open>The frame of an encrypted wallet\<close>

lemma startsWith_prefix [simp]: "startsWith (p @ s) p"
  by (simp add: startsWith_def)

context aead
begin

lemma decrypt_frame:
  assumes "length iv = 12" and "gcm_encrypt X (CIPHER_KEY X) iv p = (c, t)"
  shows "decrypt X (base64_encode (iv @ t @ c)) = Ok p"
  using assms gcm_tag[OF assms(2)] gcm_round[OF assms(2)] by (simp add: decrypt_def)

lemma encrypt_Ok:
  assumes "encrypt X p s = (Ok c, s')"
  shows "decrypt X c = Ok p" and "\<exists>x. s' = s\<lparr>sys := x\<rparr>"
proof -
  from assms obtain iv x where rb: "randomBytes X 12 (sys s) = (Ok iv, x)"
    and s': "s' = s\<lparr>sys := x\<rparr>"
    and c: "c = (case gcm_encrypt X (CIPHER_KEY X) iv p of (ci, t) \<Rightarrow> base64_encode (iv @ t @ ci))"
    by (auto simp: encrypt_def bnd_def ext_def ret_def split: prod.splits res.splits)
  obtain ci t where g: "gcm_encrypt X (CIPHER_KEY X) iv p = (ci, t)" by force
  show "decrypt X c = Ok p"
    using decrypt_frame[OF random_length[OF rb] g] c g by simp
  show "\<exists>x. s' = s\<lparr>sys := x\<rparr>" using s' by blast
qed

lemma open_wallet_items:
  assumes "encrypt X (utf8_encode (JSON_stringify (JArr (byte_items bs)))) s = (Ok c, s')"
  shows "open_wallet X (enc_prefix @ c) = Ok bs"
  using encrypt_Ok(1)[OF assms] JSON_parse_stringify[OF wf_byte_items[of bs]]
  by (simp add: open_wallet_def enc_prefix_def uint8_items del: uint8_from.simps JSON_stringify.simps)

end

section \<open>The store seen through the laws of Redis\<close>

text \<open>Every stored wallet field is empty or carries the mark of an encrypted wallet.\<close>

definition wallets_sealed :: "(string \<Rightarrow> string \<Rightarrow> string option) \<Rightarrow> bool" where
  "wallets_sealed h \<longleftrightarrow> (\<forall>k w. h k ''wallet'' = Some w \<longrightarrow> w = [] \<or> startsWith w enc_prefix)"

definition sealed_fields :: "(string \<times> string) list \<Rightarrow> bool" where
  "sealed_fields fs \<longleftrightarrow> (\<forall>w. (''wallet'', w) \<in> set fs \<longrightarrow> w = [] \<or> startsWith w enc_prefix)"

lemma hash_put_sealed:
  assumes "wallets_sealed h" and "sealed_fields fs"
  shows "wallets_sealed (h(k := hash_put (h k) fs))"
  unfolding wallets_sealed_def
proof (intro allI impI)
  fix k' w
  assume *: "(h(k := hash_put (h k) fs)) k' ''wallet'' = Some w"
  show "w = [] \<or> startsWith w enc_prefix"
  proof (cases "k' = k \<and> ''wallet'' \<in> fst ` set fs")
    case True
    with * hash_put_in[of "''wallet''" fs "h k"] assms(2) show ?thesis by (auto simp: sealed_fields_def)
  next
    case False
    with * have "h k' ''wallet'' = Some w" by (auto simp: hash_put_other split: if_splits)
    with assms(1) show ?thesis by (simp add: wallets_sealed_def)
  qed
qed

lemma map_of_defined: "map_of (defined_fields fs) k = map_option Some (map_of fs k)"
  by (induction fs) (auto simp: defined_fields_def)

lemma field_defined: "field (defined_fields fs) k = map_of fs k"
  by (simp add: field_def map_of_defined split: option.splits)

lemma delete_defined: "delete_field k (defined_fields fs) = defined_fields (delete_field k fs)"
  by (induction fs) (auto simp: delete_field_def defined_fields_def)

lemma obj_put_defined: "obj_put (defined_fields fs) k (Some v) = defined_fields (obj_put fs k v)"
  by (induction fs k v rule: obj_put.induct) (auto simp: defined_fields_def)

lemma defined_Nil [simp]: "defined_fields fs = [] \<longleftrightarrow> fs = []"
  by (simp add: defined_fields_def)

lemma obj_put_keys: "fst ` set (obj_put fs k v) = insert k (fst ` set fs)"
  by (induction fs k v rule: obj_put.induct) auto

lemma obj_put_distinct: "distinct (map fst fs) \<Longrightarrow> distinct (map fst (obj_put fs k v))"
  by (induction fs k v rule: obj_put.induct) (auto simp: obj_put_keys)

lemma delete_distinct: "distinct (map fst fs) \<Longrightarrow> distinct (map fst (delete_field k fs))"
  by (simp add: delete_field_def distinct_map_filter)

lemma sealed_fieldsI:
  "distinct (map fst fs) \<Longrightarrow>
   (\<And>w. map_of fs ''wallet'' = Some w \<Longrightarrow> w = [] \<or> startsWith w enc_prefix) \<Longrightarrow> sealed_fields fs"
  by (simp add: sealed_fields_def)

text \<open>What \<open>upsertUser\<close> hands to Redis: defined fields with a sealed wallet.\<close>

definition plain_object :: "fields \<Rightarrow> bool" where
  "plain_object d \<longleftrightarrow> (\<exists>fs. d = defined_fields fs \<and> distinct (map fst fs))"

definition sealed_object :: "fields \<Rightarrow> bool" where
  "sealed_object d \<longleftrightarrow> (\<exists>fs. d = defined_fields fs \<and> sealed_fields fs)"

lemma seal_wallet_returns: "plain_object d \<Longrightarrow> returns sealed_object (seal_wallet X d)"
proof -
  assume "plain_object d"
  then obtain fs where d: "d = defined_fields fs" "distinct (map fst fs)" by (auto simp: plain_object_def)
  have put: "sealed_object (obj_put d ''wallet'' (Some (enc_prefix @ c)))" for c
    unfolding sealed_object_def d(1) obj_put_defined
    by (intro exI[of _ "obj_put fs ''wallet'' (enc_prefix @ c)"] conjI refl sealed_fieldsI obj_put_distinct d(2))
      (simp add: map_of_obj_put)
  have id: "sealed_object d" if "field d ''wallet'' = None \<or> (\<exists>w. field d ''wallet'' = Some w \<and> (w = [] \<or> startsWith w enc_prefix))"
    using that d unfolding sealed_object_def
    by (intro exI[of _ fs] conjI refl sealed_fieldsI) (auto simp: field_defined)
  show ?thesis
    unfolding seal_wallet_def using put id
    by (auto split: option.splits intro!: returns_bnd returns_ret)
qed

context redis_hashes
begin

abbreviation stored :: "('x, 'e) base_scheme \<Rightarrow> string \<Rightarrow> string \<Rightarrow> string option" where
  "stored s \<equiv> hashes (sys s)"

lemma encrypt_frame: "encrypt X p s = (r, s') \<Longrightarrow> stored s' = stored s"
  by (auto simp: encrypt_def bnd_def ext_def ret_def random_frame split: prod.splits res.splits)

lemma seal_wallet_frame: "seal_wallet X d s = (r, s') \<Longrightarrow> stored s' = stored s"
  by (auto simp: seal_wallet_def bnd_def ret_def encrypt_frame
      split: prod.splits res.splits option.splits if_splits)

lemma ext_hset_Ok:
  "ext (redis_hset X k (defined_fields fs)) s = (Ok u, s') \<Longrightarrow>
   stored s' = (stored s)(k := hash_put (stored s k) fs)"
  by (auto simp: ext_def hset_Ok split: prod.splits)

lemma ext_sadd_frame: "ext (redis_sadd X k h) s = (r, s') \<Longrightarrow> stored s' = stored s"
  by (auto simp: ext_def sadd_frame split: prod.splits)

lemma keeps_stored: "(\<And>s r s'. m s = (r, s') \<Longrightarrow> stored s' = stored s) \<Longrightarrow> keeps (\<lambda>s. P (stored s)) m"
  by (rule keepsI) simp

lemma keeps_hset_sealed:
  assumes "sealed_object d"
  shows "keeps (\<lambda>s. wallets_sealed (stored s)) (ext (redis_hset X k d))"
proof (rule keeps_ext)
  fix s :: "('x, 'e) base_scheme" and r x
  assume "wallets_sealed (stored s)" and "redis_hset X k d (sys s) = (r, x)"
  moreover obtain fs where "d = defined_fields fs" "sealed_fields fs"
    using assms by (auto simp: sealed_object_def)
  ultimately show "wallets_sealed (stored (s\<lparr>sys := x\<rparr>))"
    using hset_cases[of k fs "sys s" r x] hash_put_sealed by auto
qed

lemma upsertUser_keeps_sealed:
  assumes "plain_object d"
  shows "keeps (\<lambda>s. wallets_sealed (stored s)) (upsertUser X handle d)"
proof -
  obtain fs where d: "d = defined_fields fs" "distinct (map fst fs)" using assms by (auto simp: plain_object_def)
  have chat: "sealed_object [(''chatId'', field d ''chatId'')]" if "truthy (field d ''chatId'')"
    using that by (auto simp: sealed_object_def truthy_def defined_fields_def sealed_fields_def
        intro!: exI[of _ "[(''chatId'', the (field d ''chatId''))]"])
  have del: "plain_object (delete_field ''chatId'' d)"
    unfolding plain_object_def d(1) delete_defined using delete_distinct[OF d(2)] by blast
  have seal: "keeps (\<lambda>s. wallets_sealed (stored s)) (seal_wallet X d1)" for d1
    by (rule keeps_stored) (rule seal_wallet_frame)
  have tail: "keeps (\<lambda>s. wallets_sealed (stored s)) (bnd (seal_wallet X d1) (\<lambda>d2.
      andthen (ext (redis_sadd X USERS_SET handle))
        (if d2 \<noteq> [] then ext (redis_hset X (user_key handle) d2) else ret ())))"
    if "plain_object d1" for d1
    by (rule keeps_bnd_returns[OF seal seal_wallet_returns[OF that]])
      (intro keeps_andthen keeps_if keeps_ret keeps_hset_sealed keeps_stored; auto dest: ext_sadd_frame)
  show ?thesis
    unfolding upsertUser_def
    by (rule keeps_bnd_returns[where Q = plain_object, OF _ _ tail])
      (auto intro!: keeps_andthen keeps_ret keeps_hset_sealed returns_andthen returns_ret chat del assms)
qed

lemma setWalletItems_keeps_sealed:
  "keeps (\<lambda>s. wallets_sealed (stored s)) (setWalletItems X handle items)"
proof -
  have "sealed_object [(''wallet'', Some (enc_prefix @ c))]" for c
    unfolding sealed_object_def
    by (intro exI[of _ "[(''wallet'', enc_prefix @ c)]"]) (simp add: defined_fields_def sealed_fields_def)
  then show ?thesis
    unfolding setWalletItems_def
    by (intro keeps_bnd keeps_andthen keeps_hset_sealed)
      (auto intro!: keeps_stored dest: encrypt_frame ext_sadd_frame)
qed

end

section \<open>The interface of the user store\<close>

text \<open>
  \<open>profile s h\<close> is the hash of the user \<open>h\<close>.  Storing public fields changes those
  fields of that user and nothing else; reading returns the profile without the wallet.
\<close>

definition public_fields :: "(string \<times> string) list \<Rightarrow> bool" where
  "public_fields fs \<longleftrightarrow> ''chatId'' \<notin> fst ` set fs \<and> ''wallet'' \<notin> fst ` set fs"

locale user_store =
  fixes put :: "string \<Rightarrow> fields \<Rightarrow> ('s, unit) io"
    and get :: "string \<Rightarrow> ('s, (string \<times> string) list option) io"
    and profile :: "'s \<Rightarrow> string \<Rightarrow> string \<Rightarrow> string option"
  assumes put_Ok: "public_fields fs \<Longrightarrow> put h (defined_fields fs) s = (Ok u, s') \<Longrightarrow>
      profile s' = (profile s)(h := hash_put (profile s h) fs)"
    and get_frame: "get h s = (r, s') \<Longrightarrow> profile s' = profile s"
    and get_Ok: "get h s = (Ok (Some d), s') \<Longrightarrow> map_of d = (profile s h)(''wallet'' := None)"
    and get_None: "get h s = (Ok None, s') \<Longrightarrow> profile s h = Map.empty"
begin

lemma get_after_put:
  assumes "public_fields fs" and "put h (defined_fields fs) s = (Ok u, s1)"
    and "get h s1 = (Ok r, s2)" and "distinct (map fst fs)" and "(f, v) \<in> set fs"
  shows "\<exists>d. r = Some d \<and> map_of d f = Some v"
proof -
  have fv: "hash_put (profile s h) fs f = Some v"
    using hash_put_in[of f fs "profile s h"] assms(4,5) by (force dest: eq_key_imp_eq_value)
  have p: "profile s1 h = hash_put (profile s h) fs" using put_Ok[OF assms(1,2)] by simp
  have "f \<noteq> ''wallet''" using assms(1,5) by (force simp: public_fields_def)
  then show ?thesis
    using assms(3) get_None[of h s1 s2] get_Ok[of h s1 _ s2] fv p by (cases r) auto
qed

lemma put_keeps_others:
  "public_fields fs \<Longrightarrow> put h (defined_fields fs) s = (Ok u, s') \<Longrightarrow> h' \<noteq> h \<Longrightarrow> profile s' h' = profile s h'"
  by (simp add: put_Ok)

lemma put_keeps_wallet:
  "public_fields fs \<Longrightarrow> put h (defined_fields fs) s = (Ok u, s') \<Longrightarrow>
   profile s' h' ''wallet'' = profile s h' ''wallet''"
  by (simp add: put_Ok hash_put_other public_fields_def)

end

lemma upsertUser_public:
  assumes "public_fields fs"
  shows "upsertUser X h (defined_fields fs) =
    andthen (ext (redis_sadd X USERS_SET h))
      (if fs \<noteq> [] then ext (redis_hset X (user_key h) (defined_fields fs)) else ret ())"
proof -
  have f: "field (defined_fields fs) ''chatId'' = None" "field (defined_fields fs) ''wallet'' = None"
    using assms by (auto simp: field_defined public_fields_def map_of_eq_None_iff)
  show ?thesis
    by (simp add: upsertUser_def f truthy_def seal_wallet_def bnd_def ret_def)
qed

context redis_hashes
begin

sublocale users: user_store "upsertUser X" "getUser X" "\<lambda>s h. stored s (user_key h)"
proof unfold_locales
  fix fs h u and s s' :: "('x, 'e) base_scheme"
  assume pub: "public_fields fs" and run: "upsertUser X h (defined_fields fs) s = (Ok u, s')"
  then obtain a s1 where s1: "ext (redis_sadd X USERS_SET h) s = (Ok a, s1)"
    and rest: "(if fs \<noteq> [] then ext (redis_hset X (user_key h) (defined_fields fs)) else ret ()) s1 = (Ok u, s')"
    by (auto simp: upsertUser_public elim: andthen_OkD)
  have "stored s' = (stored s1)(user_key h := hash_put (stored s1 (user_key h)) fs)"
    using rest ext_hset_Ok by (cases "fs = []") (auto simp: ret_def)
  with ext_sadd_frame[OF s1]
  show "(\<lambda>h. stored s' (user_key h)) =
      (\<lambda>h. stored s (user_key h))(h := hash_put (stored s (user_key h)) fs)"
    by (auto simp: user_key_def)
next
  fix h r and s s' :: "('x, 'e) base_scheme"
  assume "getUser X h s = (r, s')"
  then show "(\<lambda>h. stored s' (user_key h)) = (\<lambda>h. stored s (user_key h))"
    by (auto simp: getUser_def bnd_def ext_def ret_def hgetall_frame split: prod.splits res.splits if_splits)
next
  fix h d and s s' :: "('x, 'e) base_scheme"
  assume "getUser X h s = (Ok (Some d), s')"
  then obtain m x where m: "redis_hgetall X (user_key h) (sys s) = (Ok m, x)" "d = delete_field ''wallet'' m"
    by (auto simp: getUser_def bnd_def ext_def ret_def split: prod.splits res.splits if_splits)
  have "map_of (delete_field ''wallet'' m) = (map_of m)(''wallet'' := None)"
    by (induction m) (auto simp: delete_field_def fun_eq_iff)
  with m hgetall_Ok[OF m(1)] show "map_of d = (stored s (user_key h))(''wallet'' := None)" by simp
next
  fix h and s s' :: "('x, 'e) base_scheme"
  assume "getUser X h s = (Ok None, s')"
  then obtain x where m: "redis_hgetall X (user_key h) (sys s) = (Ok [], x)"
    by (auto simp: getUser_def bnd_def ext_def ret_def split: prod.splits res.splits if_splits)
  show "stored s (user_key h) = Map.empty" using hgetall_Ok[OF m] by simp
qed

lemmas profile_get_after_put = users.get_after_put
lemmas profile_put_keeps_others = users.put_keeps_others
lemmas profile_put_keeps_wallet = users.put_keeps_wallet
lemmas profile_put_Ok = users.put_Ok
lemmas profile_get_frame = users.get_frame
lemmas profile_get_Ok = users.get_Ok
lemmas profile_get_None = users.get_None

end

section \<open>Properties\<close>

text \<open>
  C2: Wallet round trip.  A secret stored by \<open>setWalletSecret\<close> is read back unchanged by
  \<open>getWalletSecret\<close> whenever Redis answers the read: the serialization, the cipher, the
  base64 frame and their inverses compose to the identity.
\<close>

theorem wallet_roundtrip:
  assumes "redis_hashes X hashes" and "aead X"
    and "setWalletSecret X h secret s = (Ok u, s1)"
    and "redis_hget X (user_key h) ''wallet'' (sys s1) = (Ok v, x)"
  shows "getWalletSecret X h s1 = (Ok (Some secret), s1\<lparr>sys := x\<rparr>)"
proof -
  from assms(3) obtain c a s0 s2 where
    e: "encrypt X (utf8_encode (JSON_stringify (JArr (byte_items secret)))) s = (Ok c, s0)" and
    "ext (redis_sadd X USERS_SET h) s0 = (Ok a, s2)" and
    put: "ext (redis_hset X (user_key h) [(''wallet'', Some (enc_prefix @ c))]) s2 = (Ok u, s1)"
    by (auto simp: setWalletSecret_def setWalletItems_def elim!: bnd_OkD andthen_OkD)
  have "defined_fields [(''wallet'', enc_prefix @ c)] = [(''wallet'', Some (enc_prefix @ c))]"
    by (simp add: defined_fields_def)
  with put redis_hashes.ext_hset_Ok[OF assms(1), of "user_key h" "[(''wallet'', enc_prefix @ c)]" s2 u s1]
  have "hashes (sys s1) (user_key h) ''wallet'' = Some (enc_prefix @ c)" by simp
  with redis_hashes.hget_Ok[OF assms(1,4)] have v: "v = Some (enc_prefix @ c)" by simp
  have "open_wallet X (enc_prefix @ c) = Ok secret"
    by (rule aead.open_wallet_items[OF assms(2) e])
  with assms(4) v show ?thesis
    by (simp add: getWalletSecret_def bnd_def ext_def of_res_def ret_def enc_prefix_def startsWith_def)
qed

theorem wallet_roundtrip_witness:
  "redis_hashes mem_ext mem_hashes \<and> aead mem_ext \<and>
   (\<exists>s1 v x. setWalletSecret mem_ext ''bob'' [7, 0, 255] base0 = (Ok (), s1) \<and>
      redis_hget mem_ext (user_key ''bob'') ''wallet'' (sys s1) = (Ok v, x) \<and>
      getWalletSecret mem_ext ''bob'' s1 = (Ok (Some [7, 0, 255]), s1\<lparr>sys := x\<rparr>))"
proof -
  have r: "redis_hashes mem_ext mem_hashes" by (rule mem_redis.redis_hashes_axioms)
  have a: "aead mem_ext" by (rule mem_aead.aead_axioms)
  obtain s1 where s1: "setWalletSecret mem_ext ''bob'' [7, 0, 255] base0 = (Ok (), s1)"
    by (simp add: setWalletSecret_def setWalletItems_def encrypt_def andthen_def bnd_def ext_def ret_def
        mem_ext_def mem_encrypt_def mem_sadd_def mem_hset_def)
  obtain v x where v: "redis_hget mem_ext (user_key ''bob'') ''wallet'' (sys s1) = (Ok v, x)"
    by (simp add: mem_ext_def)
  show ?thesis using r a s1 v wallet_roundtrip[OF r a s1 v] by blast
qed

text \<open>
  \<open>getUser\<close> never exposes the wallet: whatever Redis holds and answers, the fields it
  returns do not contain \<open>wallet\<close>.
\<close>

theorem getUser_hides_wallet:
  assumes "getUser X h s = (Ok (Some d), s')"
  shows "''wallet'' \<notin> fst ` set d"
  using assms
  by (auto simp: getUser_def bnd_def ext_def ret_def delete_field_def split: prod.splits res.splits if_splits)

theorem getUser_hides_wallet_witness:
  "getUser mem_ext ''bob'' (base0\<lparr>sys := mem0\<lparr>m_hash := [(''user:bob'', [(''sol'', ''1''), (''wallet'', ''enc:x'')])]\<rparr>\<rparr>) =
     (Ok (Some [(''sol'', ''1'')]),
      base0\<lparr>sys := mem0\<lparr>m_hash := [(''user:bob'', [(''sol'', ''1''), (''wallet'', ''enc:x'')])]\<rparr>\<rparr>) \<and>
   ''wallet'' \<notin> fst ` set [(''sol'', ''1'')]"
proof -
  have g: "getUser mem_ext ''bob'' (base0\<lparr>sys := mem0\<lparr>m_hash := [(''user:bob'', [(''sol'', ''1''), (''wallet'', ''enc:x'')])]\<rparr>\<rparr>) =
     (Ok (Some [(''sol'', ''1'')]),
      base0\<lparr>sys := mem0\<lparr>m_hash := [(''user:bob'', [(''sol'', ''1''), (''wallet'', ''enc:x'')])]\<rparr>\<rparr>)"
    by (simp add: getUser_def bnd_def ext_def ret_def mem_ext_def al_get_def user_key_def delete_field_def)
  show ?thesis using g getUser_hides_wallet[OF g] by blast
qed





text \<open>
  \<open>getWalletCompat\<close> returns at most one of the decrypted secret and the legacy
  string, so the migration branch of \<open>initializeUsers\<close>, which asks for both, never runs.
\<close>

theorem compat_never_both:
  assumes "getWalletCompat X h s = (Ok (secret, legacy), s')"
  shows "secret = None \<or> legacy = None"
  using assms
  by (auto simp: getWalletCompat_def bnd_def ext_def ret_def of_res_def
      split: prod.splits res.splits option.splits if_splits)

theorem compat_never_both_witness:
  "getWalletCompat mem_ext ''bob'' (base0\<lparr>sys := mem0\<lparr>m_hash := [(''user:bob'', [(''wallet'', ''[1,2]'')])]\<rparr>\<rparr>) =
     (Ok (None, Some ''[1,2]''), base0\<lparr>sys := mem0\<lparr>m_hash := [(''user:bob'', [(''wallet'', ''[1,2]'')])]\<rparr>\<rparr>) \<and>
   (None = (None :: byte list option) \<or> Some ''[1,2]'' = None)"
proof -
  have g: "getWalletCompat mem_ext ''bob'' (base0\<lparr>sys := mem0\<lparr>m_hash := [(''user:bob'', [(''wallet'', ''[1,2]'')])]\<rparr>\<rparr>) =
     (Ok (None, Some ''[1,2]''), base0\<lparr>sys := mem0\<lparr>m_hash := [(''user:bob'', [(''wallet'', ''[1,2]'')])]\<rparr>\<rparr>)"
    by (simp add: getWalletCompat_def bnd_def ext_def ret_def mem_ext_def al_get_def user_key_def
        enc_prefix_def startsWith_def)
  show ?thesis using g compat_never_both[OF g] by blast
qed

end
