(* ===== verification/Memory.thy ===== *)
theory Memory
  imports Externals
begin

text \<open>
  \<open>memory.js\<close>: the conversation memory, one Redis stream per user with a time to live of
  a day.  \<open>recall\<close> returns the latest entries, oldest first, as objects.  Over the laws of
  \<open>redis_streams\<close>, what was remembered is what is recalled, in order and up to the limit.
  The file read when the module loads is not used by it; it is part of the boot sequence in
  \<open>Boot\<close>.
\<close>

section \<open>Operations\<close>

definition STREAM_PREFIX :: string where
  "STREAM_PREFIX = ''memory:''"

definition MEMORY_TTL :: int where
  "MEMORY_TTL = 24 * 60 * 60"

definition remember :: "'x ext \<Rightarrow> string \<Rightarrow> string \<Rightarrow> int \<Rightarrow> (('x, 'e) base_scheme, unit) io" where
  "remember X handle text ts =
     andthen (ext (redis_xadd X (STREAM_PREFIX @ handle)
                 [''text'', text, ''ts'', rat_to_string (of_int ts)]))
             (ext (redis_expire X (STREAM_PREFIX @ handle) MEMORY_TTL))"

text \<open>The object of an entry: fields and values alternate; a last field without a value is \<open>undefined\<close>.\<close>

fun entry_object :: "(string \<times> string option) list \<Rightarrow> string list \<Rightarrow> (string \<times> string option) list" where
  "entry_object obj [] = obj"
| "entry_object obj [f] = obj_put obj f None"
| "entry_object obj (f # v # r) = entry_object (obj_put obj f (Some v)) r"

definition recall ::
  "'x ext \<Rightarrow> string \<Rightarrow> nat \<Rightarrow> (('x, 'e) base_scheme, (string \<times> string option) list list) io" where
  "recall X handle limit =
     bnd (ext (redis_xrevrange X (STREAM_PREFIX @ handle) limit)) (\<lambda>raw.
     ret (rev (map (\<lambda>(i, fields). entry_object [] fields) raw)))"

text \<open>What an entry looks like to the reader.\<close>

definition memory_entry :: "string \<times> int \<Rightarrow> (string \<times> string option) list" where
  "memory_entry m = [(''text'', Some (fst m)), (''ts'', Some (rat_to_string (of_int (snd m))))]"

section \<open>The stream as a log\<close>

text \<open>
  The contract of a conversation log: appending adds one entry at the end for its user only,
  and reading returns the last entries in their order.
\<close>

locale conversation_log =
  fixes append_entry :: "string \<Rightarrow> string \<times> int \<Rightarrow> ('s, unit) io"
    and last_entries :: "string \<Rightarrow> nat \<Rightarrow> ('s, 'v list) io"
    and log :: "'s \<Rightarrow> string \<Rightarrow> 'v list"
    and render :: "string \<times> int \<Rightarrow> 'v"
  assumes append_Ok: "append_entry h m s = (Ok u, s') \<Longrightarrow> log s' = (log s)(h := log s h @ [render m])"
    and last_Ok: "last_entries h n s = (Ok es, s') \<Longrightarrow> es = drop (length (log s h) - n) (log s h)"
begin

lemma appended:
  "for_each ms (append_entry h) s = (Ok u, s') \<Longrightarrow> log s' = (log s)(h := log s h @ map render ms)"
proof (induction ms arbitrary: s)
  case Nil
  then show ?case by (simp add: ret_def)
next
  case (Cons m ms)
  then obtain v t where t: "append_entry h m s = (Ok v, t)" and rest: "for_each ms (append_entry h) t = (Ok u, s')"
    by (auto elim: andthen_OkD)
  show ?case using Cons.IH[OF rest] append_Ok[OF t] by (auto simp: fun_eq_iff)
qed

lemma last_after_appends:
  assumes "for_each ms (append_entry h) s = (Ok u, s1)" and "last_entries h n s1 = (Ok es, s2)"
    and "n \<le> length ms"
  shows "es = map render (drop (length ms - n) ms)"
  using last_Ok[OF assms(2)] appended[OF assms(1)] assms(3) by (simp add: drop_map)

lemma last_other_user:
  assumes "for_each ms (append_entry h) s = (Ok u, s1)" and "h' \<noteq> h"
  shows "log s1 h' = log s h'"
  using appended[OF assms(1)] assms(2) by simp

end

context redis_streams
begin

definition memory_log :: "('x, 'e) base_scheme \<Rightarrow> string \<Rightarrow> (string \<times> string option) list list" where
  "memory_log s h = map (\<lambda>(i, fields). entry_object [] fields) (streams (sys s) (STREAM_PREFIX @ h))"

sublocale memory: conversation_log "\<lambda>h (text, ts). remember X h text ts" "recall X" memory_log memory_entry
proof unfold_locales
  fix h m u and s s' :: "('x, 'e) base_scheme"
  assume run: "(case m of (text, ts) \<Rightarrow> remember X h text ts) s = (Ok u, s')"
  obtain t ts where m: "m = (t, ts)" by force
  let ?k = "STREAM_PREFIX @ h" and ?fs = "[''text'', t, ''ts'', rat_to_string (of_int ts)]"
  from run m obtain a x where x: "redis_xadd X ?k ?fs (sys s) = (Ok a, x)"
    and s': "streams (sys s') = streams x"
    by (auto simp: remember_def andthen_def bnd_def ext_def expire_frame split: prod.splits res.splits)
  obtain i where "streams x = (streams (sys s))(?k := streams (sys s) ?k @ [(i, ?fs)])"
    using xadd_Ok[OF x] by blast
  with s' show "memory_log s' = (memory_log s)(h := memory_log s h @ [memory_entry m])"
    by (auto simp: memory_log_def memory_entry_def m STREAM_PREFIX_def)
next
  fix h n es and s s' :: "('x, 'e) base_scheme"
  assume "recall X h n s = (Ok es, s')"
  then obtain raw x where raw: "redis_xrevrange X (STREAM_PREFIX @ h) n (sys s) = (Ok raw, x)"
    and es: "es = rev (map (\<lambda>(i, fields). entry_object [] fields) raw)"
    by (auto simp: recall_def bnd_def ext_def ret_def split: prod.splits res.splits)
  show "es = drop (length (memory_log s h) - n) (memory_log s h)"
    unfolding es xrevrange_Ok[OF raw] memory_log_def by (simp add: rev_map rev_take drop_map)
qed

lemmas memory_last = memory.last_after_appends
lemmas memory_other = memory.last_other_user

end

section \<open>Property\<close>

text \<open>
  C24: What the agent recalls.  After a sequence of messages is remembered for a user,
  recalling at most as many entries as were remembered returns exactly the latest of them,
  oldest first, each with its text and time stamp.
\<close>

theorem recall_latest:
  assumes "redis_streams X streams"
    and "for_each ms (\<lambda>(text, ts). remember X h text ts) s = (Ok u, s1)"
    and "recall X h n s1 = (Ok es, s2)" and "n \<le> length ms"
  shows "es = map memory_entry (drop (length ms - n) ms)"
  by (rule redis_streams.memory_last[OF assms])

theorem recall_latest_witness:
  "\<exists>s1 s2. for_each [(''hi'', 1), (''bye'', 2)] (\<lambda>(text, ts). remember mem_ext ''bob'' text ts)
       (\<lparr>sys = mem0, deferred = []\<rparr> :: mem base) = (Ok (), s1) \<and>
     recall mem_ext ''bob'' 1 s1 = (Ok [memory_entry (''bye'', 2)], s2)"
proof -
  have r: "redis_streams mem_ext mem_streams" by (rule mem_redis_streams.redis_streams_axioms)
  obtain s1 where s1: "for_each [(''hi'', 1), (''bye'', 2)] (\<lambda>(text, ts). remember mem_ext ''bob'' text ts)
       (\<lparr>sys = mem0, deferred = []\<rparr> :: mem base) = (Ok (), s1)"
    by (simp add: remember_def andthen_def bnd_def ext_def ret_def mem_ext_def mem_xadd_def)
  obtain es s2 where es: "recall mem_ext ''bob'' 1 s1 = (Ok es, s2)"
    by (simp add: recall_def bnd_def ext_def ret_def mem_ext_def)
  show ?thesis using s1 es recall_latest[OF r s1 es] by simp
qed

end
