(* ===== verification/Solana.thy ===== *)
theory Solana
  imports Firewall Retry
begin

text \<open>
  \<open>utils-solana.js\<close>: quotes with a Redis cache, swaps and token transfers with retries
  and failure reports, the burn of the fuel token, balance refresh and deposit watchers.  The
  chain, HTTP and Redis are the parameters of \<open>Externals\<close>; signing and serializing a
  transaction are part of \<open>conn_send\<close>.  The module variables are the decimals cache and
  the set of watched users.

  Lemmas: a failed swap or transfer costs the process exactly one incident and is rethrown, a
  burn splits the amount into two transfers that add up to it, cached quotes need no request.
\<close>

section \<open>Constants and module state\<close>

record 'x sol_state = "'x fw_state" +
  decimalsCache :: "(string \<times> jsval) list"
  subscribed :: "string list"

definition NXR_MINT :: "'x ext \<Rightarrow> string res" where
  "NXR_MINT X = publicKey_of X (or_undefined (procenv X ''NXR_MINT''))"

definition DEV_WALLET :: "'x ext \<Rightarrow> keypair res" where
  "DEV_WALLET X =
     bind_res (JSON_parse (or_undefined (procenv X ''DEV_WALLET_SK''))) (\<lambda>j.
     bind_res (uint8_from j) (kp_fromSecretKey X))"

definition BURN_WALLET :: string where
  "BURN_WALLET = ''11111111111111111111111111111111''"

definition SOL_MINT :: string where
  "SOL_MINT = ''So11111111111111111111111111111111111111112''"

definition JUP_Q :: string where
  "JUP_Q = ''https://quote-api.jup.ag/v6/quote''"

definition JUP_S :: string where
  "JUP_S = ''https://quote-api.jup.ag/v6/swap''"

definition CACHE_TTL :: int where
  "CACHE_TTL = 60"

definition get_req :: "string \<Rightarrow> http_req" where
  "get_req url = \<lparr>req_url = url, req_method = ''GET'', req_body = NoBody\<rparr>"

definition post_json :: "string \<Rightarrow> json \<Rightarrow> http_req" where
  "post_json url j = \<lparr>req_url = url, req_method = ''POST'', req_body = JsonBody (JSON_stringify j)\<rparr>"

text \<open>\<open>fetch(req).then(r => r.json())\<close>\<close>

definition fetch_json :: "'x ext \<Rightarrow> http_req \<Rightarrow> (('x, 'e) base_scheme, json) io" where
  "fetch_json X req = bnd (ext (http_fetch X req)) (\<lambda>r. of_res (resp_json r))"

section \<open>Quotes\<close>

definition parsed_decimals :: "jsval \<Rightarrow> jsval res" where
  "parsed_decimals info =
     bind_res (get_prop info ''value'') (\<lambda>v.
     bind_res (get_prop v ''data'') (\<lambda>d.
     bind_res (get_prop d ''parsed'') (\<lambda>p.
     bind_res (get_prop p ''info'') (\<lambda>i. get_prop i ''decimals''))))"

definition fetch_decimals :: "'x ext \<Rightarrow> string \<Rightarrow> (('x, 'e) sol_state_scheme, jsval) io" where
  "fetch_decimals X key =
     bnd (ext (conn_getParsedAccountInfo X key)) (\<lambda>info.
     bnd (of_res (parsed_decimals info)) (\<lambda>d.
     andthen (modify (\<lambda>s. s\<lparr>decimalsCache := obj_put (decimalsCache s) key d\<rparr>)) (ret d)))"

definition decimalsOf :: "'x ext \<Rightarrow> string \<Rightarrow> (('x, 'e) sol_state_scheme, jsval) io" where
  "decimalsOf X key =
     bnd (gets (\<lambda>s. case map_of (decimalsCache s) key of None \<Rightarrow> None | Some d \<Rightarrow> d)) (\<lambda>c.
     if js_truthy c then ret c else fetch_decimals X key)"

definition quote_key :: "string \<Rightarrow> jsnum \<Rightarrow> string" where
  "quote_key mint lamports = ''quote:'' @ mint @ '':'' @ num_to_string lamports"

definition quote_url :: "string \<Rightarrow> jsnum \<Rightarrow> string" where
  "quote_url mint lamports =
     JUP_Q @ ''?inputMint='' @ SOL_MINT @ ''&outputMint='' @ mint @ ''&amount='' @ num_to_string lamports @
     ''&slippageBps=100''"

text \<open>\<open>j?.data?.[0] || null\<close>\<close>

definition first_route :: "json \<Rightarrow> json" where
  "first_route j =
     (let r = opt_first (opt_prop (Some j) ''data'')
      in case r of Some v \<Rightarrow> if js_truthy r then v else JNull | None \<Rightarrow> JNull)"

definition quoteSOLto :: "'x ext \<Rightarrow> string \<Rightarrow> jsnum \<Rightarrow> (('x, 'e) base_scheme, json) io" where
  "quoteSOLto X mint lamports =
     bnd (ext (redis_get X (quote_key mint lamports))) (\<lambda>cached.
     if truthy cached then of_res (JSON_parse (the cached))
     else
       bnd (catch (fetch_json X (get_req (quote_url mint lamports))) (\<lambda>_. ret JNull)) (\<lambda>j.
       let result = first_route j in
       if js_truthy (Some result)
       then andthen (ext (redis_setEx X (quote_key mint lamports) CACHE_TTL (JSON_stringify result))) (ret result)
       else ret result))"

section \<open>Swaps\<close>

text \<open>\<open>Buffer.from(v, 'base64')\<close> of a parsed value.\<close>

fun buffer_base64 :: "jsval \<Rightarrow> byte list res" where
  "buffer_base64 (Some (JStr s)) = Ok (base64_decode s)"
| "buffer_base64 (Some (JArr vs)) = uint8_from (JArr vs)"
| "buffer_base64 (Some (JObj kvs)) =
     (case map_of kvs ''length'' of
        Some (JNum q) \<Rightarrow> uint8_from (JObj kvs)
      | Some _ \<Rightarrow> Ok []
      | None \<Rightarrow>
          (case (map_of kvs ''type'', map_of kvs ''data'') of
             (Some (JStr ty), Some (JArr vs)) \<Rightarrow>
               if ty = ''Buffer'' then uint8_from (JArr vs)
               else Throw (TypeErr ''The first argument must be of type string or an instance of Buffer'')
           | _ \<Rightarrow> Throw (TypeErr ''The first argument must be of type string or an instance of Buffer'')))"
| "buffer_base64 _ = Throw (TypeErr ''The first argument must be of type string or an instance of Buffer'')"

definition swap_attempt :: "'x ext \<Rightarrow> json \<Rightarrow> keypair \<Rightarrow> (('x, 'e) base_scheme, unit) io" where
  "swap_attempt X route kp =
     bnd (fetch_json X (post_json JUP_S
            (JObj [(''route'', route), (''userPublicKey'', JStr (kp_public kp)),
                   (''wrapAndUnwrapSol'', JBool True)]))) (\<lambda>r.
     bnd (of_res (get_prop (Some r) ''swapTransaction'')) (\<lambda>st.
     bnd (of_res (bind_res (buffer_base64 st) (tx_from X))) (\<lambda>tx.
     bnd (ext (conn_send X (SwapTx tx (kp_public kp)) True)) (\<lambda>sig. ret ()))))"

definition swap_failure_msg :: "keypair \<Rightarrow> exn \<Rightarrow> string" where
  "swap_failure_msg kp e =
     JSON_stringify (JObj [(''event'', JStr ''swap_failure''), (''wallet'', JStr (kp_public kp)),
                           (''error'', JStr (exn_message e))])"

definition executeSwap :: "'x ext \<Rightarrow> json \<Rightarrow> keypair \<Rightarrow> (('x, 'e) fw_state_scheme, unit) io" where
  "executeSwap X route kp =
     (if \<not> js_truthy (Some route) then ret ()
      else
        catch (withRetry X (swap_attempt X route kp) 3) (\<lambda>e.
          andthen (spawn (onRpcFail X))
         (andthen (ext (redis_publish X ''nexus.events'' (swap_failure_msg kp e)))
          (throw e))))"

section \<open>Transfers\<close>

definition transfer_failure_msg :: "keypair \<Rightarrow> string \<Rightarrow> exn \<Rightarrow> string" where
  "transfer_failure_msg fromKp dest e =
     JSON_stringify (JObj [(''event'', JStr ''transfer_failure''), (''from'', JStr (kp_public fromKp)),
                           (''to'', JStr dest), (''error'', JStr (exn_message e))])"

text \<open>The signed transaction of a transfer, up to the point where it is sent.\<close>

definition build_transfer ::
  "'x ext \<Rightarrow> string \<Rightarrow> keypair \<Rightarrow> string \<Rightarrow> jsnum \<Rightarrow> (('x, 'e) sol_state_scheme, tx) io" where
  "build_transfer X mintPk fromKp destPk lamports =
     bnd (of_res (ata_address X mintPk (kp_public fromKp))) (\<lambda>srcAta.
     bnd (decimalsOf X mintPk) (\<lambda>d.
     bnd (of_res (mk_transferChecked X
            \<lparr>ix_source = srcAta, ix_mint = mintPk, ix_dest = destPk, ix_owner = kp_public fromKp,
             ix_amount = lamports, ix_decimals = js_number d\<rparr>)) (\<lambda>ix.
     bnd (ext (conn_getLatestBlockhash X)) (\<lambda>bh.
     ret (TransferTx ix (kp_public fromKp) bh (kp_public fromKp))))))"

definition transfer ::
  "'x ext \<Rightarrow> string \<Rightarrow> keypair \<Rightarrow> string \<Rightarrow> jsnum \<Rightarrow> (('x, 'e) sol_state_scheme, unit) io" where
  "transfer X mintPk fromKp destPk lamports =
     bnd (build_transfer X mintPk fromKp destPk lamports) (\<lambda>tx.
     catch (bnd (withRetry X (ext (conn_send X tx False)) 3) (\<lambda>sig. ret ())) (\<lambda>e.
       andthen (spawn (onRpcFail X))
      (andthen (ext (redis_publish X ''nexus.events'' (transfer_failure_msg fromKp destPk e)))
       (throw e))))"

definition burn_share :: "jsnum \<Rightarrow> jsnum \<Rightarrow> jsnum" where
  "burn_share lamports pctBurn = num_floor (num_mul lamports pctBurn)"

definition burnAndDev :: "'x ext \<Rightarrow> keypair \<Rightarrow> jsnum \<Rightarrow> jsnum \<Rightarrow> (('x, 'e) sol_state_scheme, unit) io" where
  "burnAndDev X fromKp lamports pctBurn =
     (let burnLam = burn_share lamports pctBurn; devLam = num_sub lamports burnLam in
      bnd (of_res (NXR_MINT X)) (\<lambda>mint.
      andthen (transfer X mint fromKp BURN_WALLET burnLam)
     (bnd (of_res (DEV_WALLET X)) (\<lambda>dev.
      transfer X mint fromKp (kp_public dev) devLam))))"

section \<open>Balances and watchers\<close>

definition u64_le :: "byte list \<Rightarrow> nat" where
  "u64_le bs = foldr (\<lambda>b n. unat b + 256 * n) bs 0"

text \<open>\<open>data.readBigUInt64LE(offset)\<close>\<close>

definition readBigUInt64LE :: "byte list \<Rightarrow> nat \<Rightarrow> nat res" where
  "readBigUInt64LE data offset =
     (if offset + 8 \<le> length data then Ok (u64_le (take 8 (drop offset data)))
      else Throw (RangeErr ''Attempt to access memory outside buffer bounds''))"

definition refreshBalances :: "'x ext \<Rightarrow> keypair \<Rightarrow> string \<Rightarrow> (('x, 'e) base_scheme, rat \<times> nat) io" where
  "refreshBalances X wallet agentMintPk =
     bnd (ext (conn_getBalance X (kp_public wallet))) (\<lambda>l.
     bnd (of_res (ata_address X agentMintPk (kp_public wallet))) (\<lambda>ata.
     bnd (ext (conn_getAccountInfo X ata)) (\<lambda>info.
     bnd (of_res (case info of None \<Rightarrow> Ok 0 | Some data \<Rightarrow> readBigUInt64LE data 64)) (\<lambda>agentLamports.
     ret (of_int l / LAMPORTS_PER_SOL, agentLamports)))))"

text \<open>
  The subscriptions of one user; the callbacks they register are the deposit events of the
  agent process.
\<close>

definition watch_user :: "'x ext \<Rightarrow> string \<Rightarrow> string \<times> keypair \<Rightarrow> (('x, 'e) sol_state_scheme, unit) io" where
  "watch_user X agentMintPk = (\<lambda>(handle, wallet).
     bnd (gets (\<lambda>s. handle \<in> set (subscribed s))) (\<lambda>known.
     if known then ret ()
     else
       andthen (modify (\<lambda>s. s\<lparr>subscribed := subscribed s @ [handle]\<rparr>))
      (andthen (ext (conn_onAccountChange X (kp_public wallet)))
      (bnd (of_res (ata_address X agentMintPk (kp_public wallet))) (\<lambda>ata.
       ext (conn_onAccountChange X ata))))))"

definition watchDeposits ::
  "'x ext \<Rightarrow> (string \<times> keypair) list \<Rightarrow> string \<Rightarrow> (('x, 'e) sol_state_scheme, unit) io" where
  "watchDeposits X users agentMintPk = for_each users (\<lambda>u. spawn (watch_user X agentMintPk u))"

section \<open>Failures\<close>

lemma swap_attempt_only_sys: "stays only_sys (swap_attempt X route kp)"
  unfolding swap_attempt_def fetch_json_def by (intro outside.sys_rules)

lemma spawn_incident_hp:
  "spawn (record_incident X type) s = (r, s') \<Longrightarrow> r = Ok () \<and> hp s' = max 0 (hp s - decay X type)"
  using spawn_incident[of X type s] spawn_always_Ok[of "record_incident X type" s] by fastforce

text \<open>The shared failure path: one incident, one event, and the error again.\<close>

lemma report_failure_hp:
  assumes "andthen (spawn (onRpcFail X)) (andthen (ext (redis_publish X ch m)) (throw e)) s = (r, s')"
  shows "r \<noteq> Ok a \<and> hp s' = max 0 (hp s - decay X ''rpcFail'')"
proof -
  obtain r0 s0 where sp: "spawn (onRpcFail X) s = (r0, s0)" by force
  with spawn_incident_hp[of X "''rpcFail''" s r0 s0]
  have "r0 = Ok ()" "hp s0 = max 0 (hp s - decay X ''rpcFail'')" by (simp_all add: onRpcFail_def)
  with sp assms show ?thesis
    by (auto simp: andthen_def bnd_def ext_def throw_def split: prod.splits res.splits)
qed

context fw_order
begin

lemma stays_executeSwap: "stays R (executeSwap X route kp)"
  unfolding executeSwap_def swap_attempt_def fetch_json_def
  by (intro base_rules stays_withRetry stays_incident)

lemma stays_quoteSOLto: "stays R (quoteSOLto X mint lamports)"
  unfolding quoteSOLto_def fetch_json_def Let_def by (intro base_rules)

lemma stays_refreshBalances: "stays R (refreshBalances X wallet mint)"
  unfolding refreshBalances_def by (intro base_rules)

end

text \<open>Relations that also ignore the decimals cache and the subscriptions.\<close>

locale sol_order = fw_order R for R :: "('x, 'e) sol_state_scheme \<Rightarrow> ('x, 'e) sol_state_scheme \<Rightarrow> bool" +
  assumes R_decimals: "R s (s\<lparr>decimalsCache := c\<rparr>)" and R_subscribed: "R s (s\<lparr>subscribed := w\<rparr>)"
begin

lemma stays_transfer: "stays R (transfer X mint kp dest l)"
  unfolding transfer_def build_transfer_def decimalsOf_def fetch_decimals_def
  by (intro base_rules stays_withRetry stays_incident stays_modify R_decimals)

lemma stays_burnAndDev: "stays R (burnAndDev X kp l p)"
  unfolding burnAndDev_def Let_def by (intro base_rules stays_transfer)

end

section \<open>Properties\<close>

text \<open>
  C25: Swap failures are reported once.  A swap that returns has changed nothing of the
  process; a swap that throws, after however many attempts and with whatever error, has cost
  the process exactly one incident of kind \<open>rpcFail\<close>.
\<close>

theorem executeSwap_reports:
  assumes "executeSwap X route kp s = (r, s')"
  shows "(r = Ok () \<longrightarrow> (\<exists>x. s' = s\<lparr>sys := x\<rparr>)) \<and>
         (\<forall>e. r = Throw e \<longrightarrow> hp s' = max 0 (hp s - decay X ''rpcFail''))"
proof (cases "js_truthy (Some route)")
  case False
  with assms have "r = Ok ()" "s' = s" by (simp_all add: executeSwap_def ret_def)
  then show ?thesis by (auto intro: exI[of _ "sys s"])
next
  case True
  obtain r1 s1 where a: "withRetry X (swap_attempt X route kp) 3 s = (r1, s1)" by force
  have "only_sys s s1"
    by (rule staysD[OF outside.stays_withRetry[OF swap_attempt_only_sys] a])
  then obtain x where x: "s1 = s\<lparr>sys := x\<rparr>" using only_sysD by blast
  show ?thesis
  proof (cases r1)
    case (Throw e)
    with True a assms have "andthen (spawn (onRpcFail X)) (andthen (ext (redis_publish X ''nexus.events'' (swap_failure_msg kp e))) (throw e)) s1 = (r, s')"
      by (simp add: executeSwap_def catch_def)
    from report_failure_hp[OF this, of "()"] x show ?thesis by auto
  qed (use True a assms x in \<open>auto simp: executeSwap_def catch_def\<close>)
qed

theorem executeSwap_reports_witness:
  "\<exists>s'. executeSwap mem_ext (JObj []) \<lparr>kp_public = ''K'', kp_secret = []\<rparr> fw0 = (Throw (Err ''fetch failed''), s') \<and>
     hp s' = 15"
proof -
  let ?kp = "\<lparr>kp_public = ''K'', kp_secret = []\<rparr> :: keypair" and ?m = "Err ''fetch failed''"
  have "(swap_attempt mem_ext (JObj []) ?kp :: (mem fw_state, unit) io) = throw ?m"
    by (simp add: swap_attempt_def fetch_json_def post_json_def bnd_def ext_def throw_def mem_ext_def fun_eq_iff
        del: JSON_stringify.simps)
  moreover have "\<exists>s1. withRetry mem_ext (throw ?m :: (mem fw_state, unit) io) 3 fw0 = (Throw ?m, s1)"
    using withRetry_throw[of 3 mem_ext ?m fw0] by auto
  ultimately obtain s1 where w: "withRetry mem_ext (swap_attempt mem_ext (JObj []) ?kp) 3 fw0 = (Throw ?m, s1)"
    by auto
  obtain s2 where sp: "spawn (onRpcFail mem_ext) s1 = (Ok (), s2)"
    using spawn_always_Ok[of "onRpcFail mem_ext" s1] by (metis prod.collapse)
  obtain s' where run: "executeSwap mem_ext (JObj []) ?kp fw0 = (Throw ?m, s')"
    using w sp by (simp add: executeSwap_def catch_def andthen_def bnd_def ext_def throw_def mem_ext_def)
  have "decay mem_ext ''rpcFail'' = 5" "hp fw0 = 20"
    by (simp_all add: decay_def WEIGHTS_def env_num_def mem_ext_def fw0_def)
  with executeSwap_reports[OF run] run show ?thesis by auto
qed

section \<open>The burn\<close>

context chain
begin

abbreviation landed_in :: "('x, 'e) base_scheme \<Rightarrow> tx set" where
  "landed_in s \<equiv> landed (sys s)"

lemma keeps_landed:
  "(\<And>x r x'. m x = (r, x') \<Longrightarrow> landed x' = landed x) \<Longrightarrow> keeps (\<lambda>s. landed_in s = L) (ext m)"
  by (rule keeps_ext) simp

lemma keeps_send: "keeps (\<lambda>u. landed_in u \<in> {L, insert t L}) (ext (conn_send X t skip))"
proof (rule keeps_ext)
  fix u :: "('x, 'e) base_scheme" and r x
  assume L: "landed_in u \<in> {L, insert t L}" and send: "conn_send X t skip (sys u) = (r, x)"
  show "landed_in (u\<lparr>sys := x\<rparr>) \<in> {L, insert t L}"
    using send_cases[OF send] L by auto
qed

lemma send_retried:
  assumes "withRetry X (ext (conn_send X t skip)) n s = (Ok sig, s')"
  shows "landed_in s' = insert t (landed_in s)"
proof (rule withRetry_post[OF keeps_send[of "landed_in s" t skip] _ _ _ assms])
  fix u v :: "('x, 'e) base_scheme" and a
  assume L: "landed_in u \<in> {landed_in s, insert t (landed_in s)}" and "ext (conn_send X t skip) u = (Ok a, v)"
  then obtain x where "conn_send X t skip (sys u) = (Ok a, x)" "v = u\<lparr>sys := x\<rparr>"
    by (auto simp: ext_def split: prod.splits)
  with send_Ok L show "landed_in v = insert t (landed_in s)" by auto
qed (simp_all add: sleep_landed)

lemma build_transfer_landed: "keeps (\<lambda>s. landed_in s = L) (build_transfer X m kp d l)"
  unfolding build_transfer_def decimalsOf_def fetch_decimals_def
  by (intro keeps_rules keeps_landed keeps_modify) (auto simp: blockhash_landed parsed_landed)

lemma build_transfer_tx:
  assumes "build_transfer X m kp d l s = (Ok t, s')"
  shows "\<exists>ix bh. t = TransferTx ix (kp_public kp) bh (kp_public kp) \<and>
    ix_mint ix = m \<and> ix_dest ix = d \<and> ix_owner ix = kp_public kp \<and> ix_amount ix = l"
  using assms unfolding build_transfer_def
  by (auto simp: of_res_def ret_def dest!: mk_Ok elim!: bnd_OkD)

lemma transfer_lands:
  assumes "transfer X m kp d l s = (Ok u, s')"
  shows "\<exists>ix bh. landed_in s' = insert (TransferTx ix (kp_public kp) bh (kp_public kp)) (landed_in s) \<and>
    ix_mint ix = m \<and> ix_dest ix = d \<and> ix_owner ix = kp_public kp \<and> ix_amount ix = l"
proof -
  from assms obtain t s1 where b: "build_transfer X m kp d l s = (Ok t, s1)"
    and c: "catch (bnd (withRetry X (ext (conn_send X t False)) 3) (\<lambda>sig. ret ())) (\<lambda>e.
       andthen (spawn (onRpcFail X))
      (andthen (ext (redis_publish X ''nexus.events'' (transfer_failure_msg kp d e))) (throw e))) s1 = (Ok u, s')"
    unfolding transfer_def by (elim bnd_OkD)
  have l1: "landed_in s1 = landed_in s"
    using keepsD[OF build_transfer_landed[of "landed_in s"] _ b] by simp
  obtain r2 s2 where w: "withRetry X (ext (conn_send X t False)) 3 s1 = (r2, s2)" by force
  have "\<exists>sig. r2 = Ok sig" and "s' = s2"
    using c w report_failure_hp[of X "''nexus.events''" _ _ s2 _ _ u]
    by (cases r2; auto simp: catch_def bnd_def ret_def)+
  then have "landed_in s' = insert t (landed_in s)" using send_retried[of t False 3 s1 _ s2] w l1 by auto
  with build_transfer_tx[OF b] show ?thesis by auto
qed

end


text \<open>In-memory services configured as a trading process; the fuel token has nine decimals.\<close>

definition agent_ext :: "mem ext" where
  "agent_ext = mem_ext\<lparr>
     procenv := (\<lambda>k. if k = ''DEV_WALLET_SK'' then Some (JSON_stringify (JArr (byte_items (replicate 64 0))))
                     else if k = ''NXR_MINT'' then Some ''NXR'' else if k = ''AGENT_MINT'' then Some ''AGT'' else None),
     conn_getParsedAccountInfo := (\<lambda>p x. (Ok (Some (JObj [(''value'', JObj [(''data'', JObj [(''parsed'',
        JObj [(''info'', JObj [(''decimals'', JNum 9)])])])])])), x))\<rparr>"

definition sol0 :: "mem sol_state" where
  "sol0 = \<lparr>sys = mem0, deferred = [], hp = 20, lastIncident = 0, decimalsCache = [], subscribed = []\<rparr>"

definition trader :: keypair where
  "trader = \<lparr>kp_public = ''T'', kp_secret = replicate 64 7\<rparr>"

interpretation agent_chain: chain agent_ext mem_landed
  by unfold_locales (auto simp: agent_ext_def mem_ext_def mem_landed_def)

lemma agent_fields:
  "ata_address agent_ext m o' = Ok (m @ ''/'' @ o')" "mk_transferChecked agent_ext i = Ok i"
  "conn_getLatestBlockhash agent_ext x = (Ok ''hash'', x)"
  "conn_send agent_ext t b x = (Ok ''sig'', x\<lparr>m_sent := m_sent x @ [t]\<rparr>)"
  "conn_getParsedAccountInfo agent_ext p x = (Ok (Some (JObj [(''value'', JObj [(''data'', JObj [(''parsed'',
     JObj [(''info'', JObj [(''decimals'', JNum 9)])])])])])), x)"
  by (simp_all add: agent_ext_def mem_ext_def)

lemma agent_DEV_WALLET: "DEV_WALLET agent_ext = Ok \<lparr>kp_public = ''S'', kp_secret = replicate 64 0\<rparr>"
proof -
  have "procenv agent_ext ''DEV_WALLET_SK'' = Some (JSON_stringify (JArr (byte_items (replicate 64 0))))"
    by (simp add: agent_ext_def del: JSON_stringify.simps)
  moreover have "kp_fromSecretKey agent_ext (replicate 64 0) = Ok \<lparr>kp_public = ''S'', kp_secret = replicate 64 0\<rparr>"
    by (simp add: agent_ext_def mem_ext_def)
  ultimately show ?thesis
    by (simp add: DEV_WALLET_def or_undefined_def JSON_parse_stringify[OF wf_byte_items] uint8_items
        del: JSON_stringify.simps uint8_from.simps)
qed

lemma agent_transfer: "\<exists>s'. transfer agent_ext m trader d l (s :: (mem, 'e) sol_state_scheme) = (Ok (), s')"
proof -
  have "\<exists>dc s1. decimalsOf agent_ext m s = (Ok dc, s1)"
    by (cases "js_truthy (case map_of (decimalsCache s) m of None \<Rightarrow> None | Some d \<Rightarrow> d)")
      (simp_all add: decimalsOf_def fetch_decimals_def parsed_decimals_def andthen_def bnd_def ext_def gets_def
        of_res_def ret_def modify_def agent_fields)
  then obtain dc s1 where "decimalsOf agent_ext m s = (Ok dc, s1)" by blast
  then show ?thesis
    by (simp add: transfer_def build_transfer_def trader_def bnd_def of_res_def ret_def ext_def catch_def
        withRetry_def withRetry_opts_def numeral_3_eq_3 agent_fields)
qed


section \<open>The quote cache\<close>

context redis_strings
begin

lemma fetch_json_strings:
  "catch (fetch_json X req) (\<lambda>_. ret JNull) s = (r, s') \<Longrightarrow> strings (sys s') = strings (sys s)"
  by (auto simp: fetch_json_def catch_def bnd_def ext_def of_res_def ret_def fetch_frame
      split: prod.splits res.splits)

lemma quote_stored:
  assumes "quoteSOLto X mint l s = (Ok r, s1)" and "js_truthy (Some r)" and "wf_json r"
    and "strings (sys s) (quote_key mint l) = None"
  shows "strings (sys s1) (quote_key mint l) = Some (JSON_stringify r)"
proof -
  let ?k = "quote_key mint l"
  from assms(1) obtain c s0 where g: "ext (redis_get X ?k) s = (Ok c, s0)" and
    rest: "(if truthy c then of_res (JSON_parse (the c)) else
       bnd (catch (fetch_json X (get_req (quote_url mint l))) (\<lambda>_. ret JNull)) (\<lambda>j.
       let result = first_route j in
       if js_truthy (Some result)
       then andthen (ext (redis_setEx X ?k CACHE_TTL (JSON_stringify result))) (ret result)
       else ret result)) s0 = (Ok r, s1)"
    unfolding quoteSOLto_def by (elim bnd_OkD)
  from g have "c = strings (sys s) ?k" by (auto simp: ext_def dest: get_Ok split: prod.splits)
  with assms(4) have "\<not> truthy c" by (simp add: truthy_def)
  with rest obtain j s2 where "catch (fetch_json X (get_req (quote_url mint l))) (\<lambda>_. ret JNull) s0 = (Ok j, s2)"
    and "(if js_truthy (Some (first_route j))
       then andthen (ext (redis_setEx X ?k CACHE_TTL (JSON_stringify (first_route j)))) (ret (first_route j))
       else ret (first_route j)) s2 = (Ok r, s1)"
    by (auto simp: Let_def elim!: bnd_OkD)
  with assms(2) obtain u s3 where "r = first_route j" "s1 = s3"
    and "ext (redis_setEx X ?k CACHE_TTL (JSON_stringify r)) s2 = (Ok u, s3)"
    by (auto simp: ret_def split: if_splits elim!: andthen_OkD)
  then show ?thesis by (auto simp: ext_def dest: setEx_Ok split: prod.splits)
qed

end

text \<open>
  Quotes are cached.  A route that \<open>quoteSOLto\<close> has fetched is returned again by the
  next call for the same mint and amount as long as its cache entry lives: the second call is
  one Redis read, sends no request and returns the same route.
\<close>

theorem quote_cached:
  assumes "redis_strings X strings"
    and "quoteSOLto X mint l s = (Ok r, s1)" and "js_truthy (Some r)" and "wf_json r"
    and "strings (sys s) (quote_key mint l) = None"
    and "redis_get X (quote_key mint l) (sys s1) = (Ok v, x)"
  shows "quoteSOLto X mint l s1 = (Ok r, s1\<lparr>sys := x\<rparr>)"
proof -
  have v: "v = Some (JSON_stringify r)"
    using redis_strings.quote_stored[OF assms(1-5)] redis_strings.get_Ok[OF assms(1,6)] by simp
  have "JSON_parse (JSON_stringify r) = Ok r" by (rule JSON_parse_stringify[OF assms(4)])
  then have "JSON_stringify r \<noteq> []" by (auto simp: JSON_parse_def skip_ws_def)
  with v assms(6) \<open>JSON_parse (JSON_stringify r) = Ok r\<close> show ?thesis
    by (simp add: quoteSOLto_def bnd_def ext_def truthy_def of_res_def)
qed

text \<open>Little-endian bytes of a token amount, as the token program stores them.\<close>

fun le_bytes :: "nat \<Rightarrow> nat \<Rightarrow> byte list" where
  "le_bytes 0 n = []"
| "le_bytes (Suc k) n = of_nat n # le_bytes k (n div 256)"

lemma length_le_bytes [simp]: "length (le_bytes k n) = k"
  by (induction k arbitrary: n) auto

lemma u64_le_bytes: "n < 256 ^ k \<Longrightarrow> u64_le (le_bytes k n) = n"
proof (induction k arbitrary: n)
  case 0
  then show ?case by (simp add: u64_le_def)
next
  case (Suc k)
  then have "u64_le (le_bytes k (n div 256)) = n div 256"
    by (simp add: less_mult_imp_div_less mult.commute)
  then show ?case by (simp add: u64_le_def unsigned_of_nat take_bit_eq_mod)
qed

definition route_reply :: json where
  "route_reply = JObj [(''data'', JArr [JObj [(''outAmount'', JStr ''7'')]])]"

text \<open>In-memory services with a quote service and a funded token account.\<close>

definition market_ext :: "mem ext" where
  "market_ext = mem_ext\<lparr>
     http_fetch := (\<lambda>r x. (Ok \<lparr>resp_ok = True, resp_statusText = ''OK'', resp_text = JSON_stringify route_reply\<rparr>, x)),
     conn_getBalance := (\<lambda>p x. (Ok 2500000000, x)),
     conn_getAccountInfo := (\<lambda>p x. (Ok (Some (replicate 64 0 @ le_bytes 8 7 @ [1])), x))\<rparr>"

interpretation market_strings: redis_strings market_ext mem_strings
  by unfold_locales (auto simp: market_ext_def mem_ext_def mem_strings_def map_of_obj_put)

theorem quote_cached_witness:
  "\<exists>s1. quoteSOLto market_ext ''USDC'' (Num 5) sol0 = (Ok (JObj [(''outAmount'', JStr ''7'')]), s1) \<and>
     quoteSOLto market_ext ''USDC'' (Num 5) s1 = (Ok (JObj [(''outAmount'', JStr ''7'')]), s1)"
proof -
  let ?k = "quote_key ''USDC'' (Num 5)" and ?r = "JObj [(''outAmount'', JStr ''7'')]"
  have p: "JSON_parse (JSON_stringify route_reply) = Ok route_reply"
    by (rule JSON_parse_stringify) (simp add: route_reply_def)
  have f: "first_route route_reply = ?r" by (simp add: first_route_def route_reply_def)
  have g: "redis_get market_ext k x = (Ok (map_of (m_str x) k), x)"
    "redis_setEx market_ext k ttl v x = (Ok (), x\<lparr>m_str := obj_put (m_str x) k v\<rparr>)"
    "http_fetch market_ext req x = (Ok \<lparr>resp_ok = True, resp_statusText = ''OK'', resp_text = JSON_stringify route_reply\<rparr>, x)"
    for k x ttl v req
    by (simp_all add: market_ext_def mem_ext_def)
  obtain s1 where q: "quoteSOLto market_ext ''USDC'' (Num 5) sol0 = (Ok ?r, s1)"
    using p f
    by (simp add: quoteSOLto_def fetch_json_def resp_json_def catch_def andthen_def bnd_def ext_def of_res_def ret_def
        g sol0_def mem0_def truthy_def Let_def del: JSON_stringify.simps)
  have h: "js_truthy (Some ?r)" "wf_json ?r" "mem_strings (sys sol0) ?k = None"
    by (simp_all add: mem_strings_def sol0_def mem0_def)
  have "quoteSOLto market_ext ''USDC'' (Num 5) s1 = (Ok ?r, s1\<lparr>sys := sys s1\<rparr>)"
    by (rule quote_cached[OF market_strings.redis_strings_axioms q h]) (rule g(1))
  with q show ?thesis by auto
qed

section \<open>Balances\<close>

text \<open>
  Balances read from the chain.  The lamports are divided by a thousand million; the
  token amount is the little-endian number at offset 64 of the token account, zero when there
  is no account, and an account of fewer than 72 bytes is a range error.
\<close>

theorem refreshBalances_reads:
  assumes "conn_getBalance X (kp_public w) (sys s) = (Ok l, x1)"
    and "ata_address X mint (kp_public w) = Ok ata"
    and "conn_getAccountInfo X ata x1 = (Ok info, x2)" and "n < 2 ^ 64"
  shows "(info = None \<longrightarrow> refreshBalances X w mint s = (Ok (of_int l / 10 ^ 9, 0), s\<lparr>sys := x2\<rparr>)) \<and>
         (\<forall>pre post. length pre = 64 \<and> info = Some (pre @ le_bytes 8 n @ post) \<longrightarrow>
            refreshBalances X w mint s = (Ok (of_int l / 10 ^ 9, n), s\<lparr>sys := x2\<rparr>)) \<and>
         (\<forall>data. info = Some data \<and> length data < 72 \<longrightarrow>
            refreshBalances X w mint s =
              (Throw (RangeErr ''Attempt to access memory outside buffer bounds''), s\<lparr>sys := x2\<rparr>))"
proof -
  have "(256 :: nat) ^ 8 = 2 ^ 64" by simp
  with assms(4) have n: "u64_le (le_bytes 8 n) = n" by (intro u64_le_bytes) simp
  show ?thesis
    using assms(1-3) n
    by (auto simp: refreshBalances_def bnd_def ext_def of_res_def ret_def readBigUInt64LE_def
        LAMPORTS_PER_SOL_def)
qed

theorem refreshBalances_reads_witness:
  "refreshBalances market_ext trader ''AGT'' sol0 = (Ok (5 / 2, 7), sol0)"
proof -
  have g: "conn_getBalance market_ext (kp_public trader) (sys sol0) = (Ok 2500000000, sys sol0)"
    "ata_address market_ext ''AGT'' (kp_public trader) = Ok ''AGT/T''"
    "conn_getAccountInfo market_ext ''AGT/T'' (sys sol0) = (Ok (Some (replicate 64 0 @ le_bytes 8 7 @ [1])), sys sol0)"
    "(7 :: nat) < 2 ^ 64"
    by (simp_all add: market_ext_def mem_ext_def trader_def)
  have "length (replicate 64 (0 :: byte)) = 64" by simp
  then have "refreshBalances market_ext trader ''AGT'' sol0 =
      (Ok (of_int 2500000000 / 10 ^ 9, 7), sol0\<lparr>sys := sys sol0\<rparr>)"
    using refreshBalances_reads[OF g] by blast
  then show ?thesis by simp
qed

section \<open>Watchers\<close>

lemma watch_user_subscribes:
  "spawn (watch_user X m (h, w)) s = (r, s') \<Longrightarrow>
   set (subscribed s') = insert h (set (subscribed s)) \<and> r = Ok () \<and> (h \<in> set (subscribed s) \<longrightarrow> s' = s)"
  by (auto simp: spawn_def watch_user_def andthen_def bnd_def gets_def modify_def ext_def of_res_def ret_def
      split: prod.splits res.splits if_splits)

lemma watchDeposits_subscribes:
  "watchDeposits X us m s = (r, s') \<Longrightarrow>
   set (subscribed s') = fst ` set us \<union> set (subscribed s) \<and> r = Ok () \<and>
   (fst ` set us \<subseteq> set (subscribed s) \<longrightarrow> s' = s)"
proof (induction us arbitrary: s)
  case Nil
  then show ?case by (simp add: watchDeposits_def ret_def)
next
  case (Cons u us)
  obtain h w where u: "u = (h, w)" by force
  obtain r1 s1 where sp: "spawn (watch_user X m (h, w)) s = (r1, s1)" by force
  note one = watch_user_subscribes[OF sp]
  from Cons.prems u sp one have "watchDeposits X us m s1 = (r, s')"
    by (simp add: watchDeposits_def andthen_def bnd_def)
  from Cons.IH[OF this] one u show ?case by auto
qed

text \<open>
  Watchers are registered once.  After \<open>watchDeposits\<close> every given user is
  subscribed, failures of the subscription calls included; a second call with the same users
  changes nothing at all, so no user is subscribed twice.
\<close>

theorem watchDeposits_once:
  assumes "watchDeposits X us m s = (r, s1)"
  shows "r = Ok () \<and> fst ` set us \<subseteq> set (subscribed s1) \<and> watchDeposits X us m s1 = (Ok (), s1)"
proof -
  obtain r2 s2 where w: "watchDeposits X us m s1 = (r2, s2)" by force
  with watchDeposits_subscribes[OF assms] watchDeposits_subscribes[OF w] show ?thesis by auto
qed

theorem watchDeposits_once_witness:
  "\<exists>s1. watchDeposits mem_ext [(''bob'', trader)] ''AGT'' sol0 = (Ok (), s1) \<and>
     ''bob'' \<in> set (subscribed s1) \<and> watchDeposits mem_ext [(''bob'', trader)] ''AGT'' s1 = (Ok (), s1)"
proof -
  obtain r s1 where w: "watchDeposits mem_ext [(''bob'', trader)] ''AGT'' sol0 = (r, s1)" by force
  with watchDeposits_once[OF w] show ?thesis by auto
qed

end
