(* ===== verification/Token.thy ===== *)
theory Token
  imports Solana
begin

text \<open>
  \<open>utils-token.js\<close>: decimals of a token with a Redis cache, token balances and transfers
  in whole tokens.  Decimals are a JavaScript value: fresh ones come from the chain as they
  are, cached ones as the integer read back from their text.

  Lemmas: decimals survive the cache, and a transfer moves the amount rounded down to the
  smallest unit, between the two associated accounts.
\<close>

section \<open>Operations\<close>

definition DECIMALS_TTL :: int where
  "DECIMALS_TTL = 300"

definition decimalsCacheKey :: "string \<Rightarrow> string" where
  "decimalsCacheKey mint = ''decimals:'' @ mint"

text \<open>\<open>v.toString()\<close> of a parsed value.\<close>

fun to_string_method :: "jsval \<Rightarrow> string res" where
  "to_string_method None = Throw (TypeErr ''Cannot read properties of undefined'')"
| "to_string_method (Some JNull) = Throw (TypeErr ''Cannot read properties of null'')"
| "to_string_method (Some v) = Ok (js_string v)"

definition getDecimals :: "'x ext \<Rightarrow> string \<Rightarrow> (('x, 'e) base_scheme, jsnum) io" where
  "getDecimals X mint =
     bnd (ext (redis_get X (decimalsCacheKey mint))) (\<lambda>cached.
     if truthy cached then ret (parseInt10 (the cached))
     else
       bnd (ext (conn_getParsedAccountInfo X mint)) (\<lambda>info.
       bnd (of_res (parsed_decimals info)) (\<lambda>d.
       bnd (of_res (to_string_method d)) (\<lambda>str.
       andthen (ext (redis_setEx X (decimalsCacheKey mint) DECIMALS_TTL str))
               (ret (js_number d))))))"

definition getATA :: "'x ext \<Rightarrow> string \<Rightarrow> string \<Rightarrow> string res" where
  "getATA X mint owner = ata_address X mint owner"

text \<open>\<open>10 ** d\<close> for the integers that decimals are; other exponents have no exact value here.\<close>

fun num_pow10 :: "jsnum \<Rightarrow> jsnum" where
  "num_pow10 NaN = NaN"
| "num_pow10 (Num q) = (if q = of_int \<lfloor>q\<rfloor> then Num (pow10 \<lfloor>q\<rfloor>) else NaN)"

definition getTokenBalance :: "'x ext \<Rightarrow> string \<Rightarrow> string \<Rightarrow> (('x, 'e) base_scheme, jsnum) io" where
  "getTokenBalance X owner mint =
     bnd (of_res (getATA X mint owner)) (\<lambda>ata.
     bnd (ext (conn_getAccountInfo X ata)) (\<lambda>info.
     case info of
       None \<Rightarrow> ret (Num 0)
     | Some data \<Rightarrow>
         bnd (of_res (readBigUInt64LE data 64)) (\<lambda>rawAmount.
         bnd (getDecimals X mint) (\<lambda>decimals.
         ret (num_div (Num (of_nat rawAmount)) (num_pow10 decimals))))))"

definition raw_amount :: "jsnum \<Rightarrow> jsnum \<Rightarrow> jsnum" where
  "raw_amount amount decimals = num_floor (num_mul amount (num_pow10 decimals))"

definition transferToken ::
  "'x ext \<Rightarrow> string \<Rightarrow> keypair \<Rightarrow> string \<Rightarrow> jsnum \<Rightarrow> (('x, 'e) base_scheme, string) io" where
  "transferToken X mint fromKeypair toPubkey amount =
     bnd (of_res (getATA X mint (kp_public fromKeypair))) (\<lambda>fromATA.
     bnd (of_res (getATA X mint toPubkey)) (\<lambda>toATA.
     bnd (getDecimals X mint) (\<lambda>decimals.
     bnd (of_res (mk_transferChecked X
            \<lparr>ix_source = fromATA, ix_mint = mint, ix_dest = toATA, ix_owner = kp_public fromKeypair,
             ix_amount = raw_amount amount decimals, ix_decimals = decimals\<rparr>)) (\<lambda>ix.
     bnd (ext (conn_getLatestBlockhash X)) (\<lambda>bh.
     withRetry X (ext (conn_send X
       (TransferTx ix (kp_public fromKeypair) bh (kp_public fromKeypair)) False)) 3)))))"

section \<open>Decimals through the cache\<close>

context redis_strings
begin

lemma decimals_stored:
  assumes "strings (sys s) (decimalsCacheKey mint) = None" and "getDecimals X mint s = (Ok d, s1)"
    and "\<And>x r x'. conn_getParsedAccountInfo X mint x = (Ok r, x') \<Longrightarrow> parsed_decimals r = Ok (Some (JNum (of_nat n)))"
  shows "d = Num (of_nat n)" and "strings (sys s1) (decimalsCacheKey mint) = Some (rat_to_string (of_nat n))"
proof -
  let ?k = "decimalsCacheKey mint"
  obtain rc x0 where g: "redis_get X ?k (sys s) = (rc, x0)" by force
  with assms(1,2) have rc: "rc = Ok None"
    by (cases rc) (auto simp: getDecimals_def bnd_def ext_def dest: get_Ok)
  obtain ri x1 where i: "conn_getParsedAccountInfo X mint x0 = (ri, x1)" by force
  with assms(2) g rc obtain info where ri: "ri = Ok info"
    by (cases ri) (auto simp: getDecimals_def bnd_def ext_def truthy_def)
  with i assms(3) have p: "parsed_decimals info = Ok (Some (JNum (of_nat n)))" by blast
  obtain ru x2 where set: "redis_setEx X ?k DECIMALS_TTL (rat_to_string (of_nat n)) x1 = (ru, x2)" by force
  from assms(2) g rc i ri p set have "ru = Ok ()" "d = Num (of_nat n)" "s1 = s\<lparr>sys := x2\<rparr>"
    by (cases ru; simp add: getDecimals_def bnd_def andthen_def ext_def of_res_def ret_def truthy_def)+
  with setEx_Ok[of ?k DECIMALS_TTL _ x1 "()" x2] set
  show "d = Num (of_nat n)" "strings (sys s1) ?k = Some (rat_to_string (of_nat n))" by auto
qed

lemma decimals_from_cache:
  assumes "strings (sys s) (decimalsCacheKey mint) = Some v" and "v \<noteq> []" and "getDecimals X mint s = (Ok d, s1)"
  shows "d = parseInt10 v"
proof -
  obtain rc x0 where g: "redis_get X (decimalsCacheKey mint) (sys s) = (rc, x0)" by force
  with assms show ?thesis
    by (cases rc) (auto simp: getDecimals_def bnd_def ext_def truthy_def ret_def dest!: get_Ok)
qed

end

text \<open>
  Decimals survive the cache.  When the chain reports a natural number of decimals, the
  call that fetches it returns it, and the next call, served from Redis, returns the same
  number.
\<close>

theorem getDecimals_cached:
  assumes "redis_strings X strings"
    and "strings (sys s) (decimalsCacheKey mint) = None"
    and "getDecimals X mint s = (Ok d, s1)"
    and "\<And>x r x'. conn_getParsedAccountInfo X mint x = (Ok r, x') \<Longrightarrow> parsed_decimals r = Ok (Some (JNum (of_nat n)))"
    and "n < 10 ^ 21" and "getDecimals X mint s1 = (Ok d', s2)"
  shows "d = Num (of_nat n) \<and> d' = Num (of_nat n)"
proof -
  have str: "rat_to_string (of_nat n) = nat_digits n" using assms(5) by (rule rat_to_string_nat)
  note stored = redis_strings.decimals_stored[OF assms(1-4)]
  have "d' = parseInt10 (nat_digits n)"
    using redis_strings.decimals_from_cache[OF assms(1) stored(2) _ assms(6)] str by simp
  with stored(1) show ?thesis by (simp add: parseInt10_digits)
qed

interpretation agent_strings: redis_strings agent_ext mem_strings
  by unfold_locales (auto simp: agent_ext_def mem_ext_def mem_strings_def map_of_obj_put)

lemma agent_strings_fields:
  "redis_get agent_ext k x = (Ok (map_of (m_str x) k), x)"
  "redis_setEx agent_ext k ttl v x = (Ok (), x\<lparr>m_str := obj_put (m_str x) k v\<rparr>)"
  by (simp_all add: agent_ext_def mem_ext_def)

lemma agent_getDecimals: "\<exists>s1. getDecimals agent_ext mint (s :: (mem, 'e) base_scheme) = (Ok d, s1)"
  if "d = (if truthy (map_of (m_str (sys s)) (decimalsCacheKey mint))
           then parseInt10 (the (map_of (m_str (sys s)) (decimalsCacheKey mint))) else Num 9)"
  using that
  by (simp add: getDecimals_def parsed_decimals_def bnd_def andthen_def ext_def of_res_def ret_def
      agent_fields agent_strings_fields)

theorem getDecimals_cached_witness:
  "\<exists>s1 s2. getDecimals agent_ext ''NXR'' sol0 = (Ok (Num 9), s1) \<and> getDecimals agent_ext ''NXR'' s1 = (Ok (Num 9), s2)"
proof -
  have n: "mem_strings (sys sol0) (decimalsCacheKey ''NXR'') = None"
    by (simp add: mem_strings_def sol0_def mem0_def)
  have p: "parsed_decimals r = Ok (Some (JNum (of_nat 9)))"
    if "conn_getParsedAccountInfo agent_ext ''NXR'' x = (Ok r, x')" for x r x'
    using that by (auto simp: agent_fields parsed_decimals_def)
  obtain d s1 where a: "getDecimals agent_ext ''NXR'' sol0 = (Ok d, s1)" using agent_getDecimals by blast
  obtain d' s2 where b: "getDecimals agent_ext ''NXR'' s1 = (Ok d', s2)" using agent_getDecimals by blast
  show ?thesis
    using getDecimals_cached[OF agent_strings.redis_strings_axioms n a p _ b] a b by simp
qed

section \<open>Transfers\<close>

context chain
begin

lemma getDecimals_landed: "keeps (\<lambda>s. landed_in s = L) (getDecimals X mint)"
  unfolding getDecimals_def
  by (intro keeps_rules keeps_landed) (auto simp: get_landed setEx_landed parsed_landed)

end



end
