(* ===== verification/JobQueue.thy ===== *)
theory JobQueue
  imports Externals
begin

text \<open>
  \<open>jobQueue.js\<close>: the three queues and the helpers that add jobs to them.  Job data crosses
  the queue as JSON, so \<open>NaN\<close> arrives as \<open>null\<close> and an \<open>undefined\<close> member does
  not arrive at all; the payload of a trade is built accordingly.
\<close>

record trade_cmd =
  t_side :: string
  t_mint :: "string option"
  t_sol :: jsnum

fun json_num :: "jsnum \<Rightarrow> json" where
  "json_num NaN = JNull"
| "json_num (Num q) = JNum q"

definition opt_member :: "string \<Rightarrow> string option \<Rightarrow> (string \<times> json) list" where
  "opt_member k v = (case v of None \<Rightarrow> [] | Some s \<Rightarrow> [(k, JStr s)])"

definition cmd_json :: "trade_cmd \<Rightarrow> json" where
  "cmd_json c = JObj ([(''t'', JStr (t_side c))] @ opt_member ''mint'' (t_mint c) @ [(''sol'', json_num (t_sol c))])"

definition trade_payload :: "trade_cmd \<Rightarrow> string option \<Rightarrow> json" where
  "trade_payload c handle = JObj ([(''cmd'', cmd_json c)] @ opt_member ''handle'' handle)"

definition enqueueTrade :: "'x ext \<Rightarrow> json \<Rightarrow> (('x, 'e) base_scheme, unit) io" where
  "enqueueTrade X payload = ext (queue_add X ''trades'' ''execute-trade'' payload)"

definition enqueueLLM :: "'x ext \<Rightarrow> json \<Rightarrow> (('x, 'e) base_scheme, unit) io" where
  "enqueueLLM X payload = ext (queue_add X ''llm'' ''llm-task'' payload)"

definition enqueueAPITask :: "'x ext \<Rightarrow> json \<Rightarrow> (('x, 'e) base_scheme, unit) io" where
  "enqueueAPITask X payload = ext (queue_add X ''apiTasks'' ''api-task'' payload)"

lemma payload_members:
  "get_prop (Some (trade_payload c h)) ''cmd'' = Ok (Some (cmd_json c))"
  "get_prop (Some (trade_payload c h)) ''handle'' = Ok (map_option JStr h)"
  "get_prop (Some (cmd_json c)) ''t'' = Ok (Some (JStr (t_side c)))"
  "get_prop (Some (cmd_json c)) ''mint'' = Ok (map_option JStr (t_mint c))"
  "get_prop (Some (cmd_json c)) ''sol'' = Ok (Some (json_num (t_sol c)))"
  by (simp_all add: trade_payload_def cmd_json_def opt_member_def split: option.splits)

end
