(* ===== verification/JS_Regex.thy ===== *)
theory JS_Regex
  imports JS_Values
begin

text \<open>
  The regular expressions of \<open>commands.js\<close>: literals (under the \<open>i\<close> flag), character
  classes with greedy bounds, groups, alternation, optional groups, captures and word
  boundaries.  A matcher returns every way to match from a position, in the order in which
  the backtracking of JavaScript tries them; \<open>rx_exec\<close> takes the first one at the leftmost
  position, as \<open>String.match\<close> does without the \<open>g\<close> flag.
\<close>

datatype rx =
    Ch char
  | Rep "char \<Rightarrow> bool" nat nat   \<comment> \<open>class, lower bound, further optional repetitions\<close>
  | Plus "char \<Rightarrow> bool"          \<comment> \<open>\<open>[...]+\<close>\<close>
  | Star "char \<Rightarrow> bool"          \<comment> \<open>\<open>[...]*\<close>\<close>
  | Cat rx rx
  | Alt rx rx
  | Opt rx
  | Cap rx
  | WB                           \<comment> \<open>\<open>\b\<close>\<close>
  | Eps

text \<open>A position: the character before it, the text after it, the captures so far.\<close>

type_synonym pos = "char option \<times> string \<times> string list"

fun at_boundary :: "pos \<Rightarrow> bool" where
  "at_boundary (p, s, _) \<longleftrightarrow>
     ((case p of None \<Rightarrow> False | Some c \<Rightarrow> is_word c) \<noteq> (s \<noteq> [] \<and> is_word (hd s)))"

fun ch_m :: "(char \<Rightarrow> bool) \<Rightarrow> pos \<Rightarrow> pos list" where
  "ch_m P (p, s, cs) = (case s of [] \<Rightarrow> [] | c # t \<Rightarrow> if P c then [(Some c, t, cs)] else [])"

text \<open>Greedy: longer matches come first.\<close>

fun star_m :: "(char \<Rightarrow> bool) \<Rightarrow> char option \<Rightarrow> string \<Rightarrow> string list \<Rightarrow> pos list" where
  "star_m P p [] cs = [(p, [], cs)]"
| "star_m P p (c # t) cs = (if P c then star_m P (Some c) t cs @ [(p, c # t, cs)] else [(p, c # t, cs)])"

fun upto_m :: "(char \<Rightarrow> bool) \<Rightarrow> nat \<Rightarrow> pos \<Rightarrow> pos list" where
  "upto_m P 0 x = [x]"
| "upto_m P (Suc n) x = concat (map (upto_m P n) (ch_m P x)) @ [x]"

fun exactly_m :: "(char \<Rightarrow> bool) \<Rightarrow> nat \<Rightarrow> pos \<Rightarrow> pos list" where
  "exactly_m P 0 x = [x]"
| "exactly_m P (Suc n) x = concat (map (exactly_m P n) (ch_m P x))"

definition same_letter :: "char \<Rightarrow> char \<Rightarrow> bool" where
  "same_letter a b \<longleftrightarrow> to_lower a = to_lower b"

fun rx_m :: "rx \<Rightarrow> pos \<Rightarrow> pos list" where
  "rx_m (Ch a) x = ch_m (same_letter a) x"
| "rx_m (Rep P lo extra) x = concat (map (upto_m P extra) (exactly_m P lo x))"
| "rx_m (Plus P) x = concat (map (\<lambda>(p, s, cs). star_m P p s cs) (ch_m P x))"
| "rx_m (Star P) x = (case x of (p, s, cs) \<Rightarrow> star_m P p s cs)"
| "rx_m (Cat r q) x = concat (map (rx_m q) (rx_m r x))"
| "rx_m (Alt r q) x = rx_m r x @ rx_m q x"
| "rx_m (Opt r) x = rx_m r x @ [x]"
| "rx_m (Cap r) x =
     (case x of (p, s, cs) \<Rightarrow>
        map (\<lambda>(p', s', cs'). (p', s', cs' @ [take (length s - length s') s])) (rx_m r x))"
| "rx_m WB x = (if at_boundary x then [x] else [])"
| "rx_m Eps x = [x]"

fun rx_from :: "rx \<Rightarrow> char option \<Rightarrow> string \<Rightarrow> string list option" where
  "rx_from r p s =
     (case rx_m r (p, s, []) of
        (_, _, cs) # _ \<Rightarrow> Some cs
      | [] \<Rightarrow> (case s of [] \<Rightarrow> None | c # t \<Rightarrow> rx_from r (Some c) t))"

declare rx_from.simps [simp del]

text \<open>\<open>s.match(r)\<close>: the captures of the first match.\<close>

definition rx_exec :: "rx \<Rightarrow> string \<Rightarrow> string list option" where
  "rx_exec r s = rx_from r None s"

definition rx_test :: "rx \<Rightarrow> string \<Rightarrow> bool" where
  "rx_test r s \<longleftrightarrow> rx_exec r s \<noteq> None"

fun lit :: "string \<Rightarrow> rx" where
  "lit [] = Eps"
| "lit (c # cs) = Cat (Ch c) (lit cs)"

fun alts :: "rx list \<Rightarrow> rx" where
  "alts [] = Rep (\<lambda>_. False) 1 0"
| "alts [r] = r"
| "alts (r # rs) = Alt r (alts rs)"

fun cats :: "rx list \<Rightarrow> rx" where
  "cats [] = Eps"
| "cats (r # rs) = Cat r (cats rs)"

text \<open>
  \<open>s.replace(new RegExp(pat, 'ig'), '')\<close> for a pattern without special characters.
\<close>

definition starts_ci :: "string \<Rightarrow> string \<Rightarrow> bool" where
  "starts_ci s p \<longleftrightarrow> toLowerCase (take (length p) s) = toLowerCase p"

fun remove_ci :: "string \<Rightarrow> string \<Rightarrow> string" where
  "remove_ci p [] = []"
| "remove_ci p (c # cs) =
     (if p \<noteq> [] \<and> starts_ci (c # cs) p then remove_ci p (drop (length p - 1) cs)
      else c # remove_ci p cs)"

section \<open>Facts about the matcher\<close>

text \<open>
  \<open>prefers r x y\<close>: the first match of \<open>r\<close> from \<open>x\<close> ends at \<open>y\<close>.  First matches
  compose, which is all that is needed to follow a match through a concatenation.
\<close>

definition prefers :: "rx \<Rightarrow> pos \<Rightarrow> pos \<Rightarrow> bool" where
  "prefers r x y \<longleftrightarrow> rx_m r x \<noteq> [] \<and> hd (rx_m r x) = y"

named_theorems prefers_rules \<open>following the first match\<close>

lemma hd_concat_map: "xs \<noteq> [] \<Longrightarrow> f (hd xs) \<noteq> [] \<Longrightarrow> hd (concat (map f xs)) = hd (f (hd xs))"
  by (cases xs) auto

lemma prefers_Cat [prefers_rules]: "prefers r x y \<Longrightarrow> prefers q y z \<Longrightarrow> prefers (Cat r q) x z"
  unfolding prefers_def by (cases "rx_m r x") auto

lemma prefers_Alt1: "prefers r x y \<Longrightarrow> prefers (Alt r q) x y"
  unfolding prefers_def by (cases "rx_m r x") auto

lemma prefers_Alt2: "rx_m r x = [] \<Longrightarrow> prefers q x y \<Longrightarrow> prefers (Alt r q) x y"
  unfolding prefers_def by auto

lemma prefers_Eps [prefers_rules]: "prefers Eps x x"
  by (simp add: prefers_def)

lemma prefers_Ch [prefers_rules]: "same_letter a c \<Longrightarrow> prefers (Ch a) (p, c # t, cs) (Some c, t, cs)"
  by (simp add: prefers_def)

lemma prefers_Cap [prefers_rules]:
  "prefers r (p, s, cs) (p', s', cs') \<Longrightarrow>
   prefers (Cap r) (p, s, cs) (p', s', cs' @ [take (length s - length s') s])"
  unfolding prefers_def by (cases "rx_m r (p, s, cs)") auto

lemma star_m_run:
  assumes "\<forall>c\<in>set xs. P c" and "r = [] \<or> \<not> P (hd r)"
  shows "star_m P p (xs @ r) cs \<noteq> [] \<and>
    hd (star_m P p (xs @ r) cs) = (if xs = [] then p else Some (last xs), r, cs)"
  using assms
proof (induction xs arbitrary: p)
  case Nil
  then show ?case by (cases r) auto
next
  case (Cons x xs)
  then show ?case by auto
qed

lemma prefers_Plus:
  assumes "xs \<noteq> []" and "\<forall>c\<in>set xs. P c" and "r = [] \<or> \<not> P (hd r)"
  shows "prefers (Plus P) (p, xs @ r, cs) (Some (last xs), r, cs)"
proof -
  obtain y ys where "xs = y # ys" using assms(1) by (cases xs) auto
  then show ?thesis
    using star_m_run[of ys P r "Some y" cs] assms by (auto simp: prefers_def)
qed

lemma exactly_m_run:
  "\<forall>c\<in>set xs. P c \<Longrightarrow>
   exactly_m P (length xs) (p, xs @ r, cs) = [(if xs = [] then p else Some (last xs), r, cs)]"
  by (induction xs arbitrary: p) auto

lemma upto_m_run:
  assumes "\<forall>c\<in>set xs. P c" and "length xs \<le> n" and "r = [] \<or> \<not> P (hd r)"
  shows "upto_m P n (p, xs @ r, cs) \<noteq> [] \<and>
    hd (upto_m P n (p, xs @ r, cs)) = (if xs = [] then p else Some (last xs), r, cs)"
  using assms
proof (induction n arbitrary: xs p)
  case (Suc n)
  show ?case
  proof (cases xs)
    case Nil
    with Suc.prems show ?thesis by (cases r) auto
  next
    case (Cons y ys)
    with Suc.prems have "length ys \<le> n" "\<forall>c\<in>set ys. P c" by auto
    with Suc.IH[of ys "Some y"] Suc.prems Cons show ?thesis by auto
  qed
qed simp

lemma prefers_Rep:
  assumes "\<forall>c\<in>set xs. P c" and "lo \<le> length xs" and "length xs \<le> lo + extra"
    and "r = [] \<or> \<not> P (hd r)" and "0 < lo"
  shows "prefers (Rep P lo extra) (p, xs @ r, cs) (Some (last xs), r, cs)"
proof -
  let ?a = "take lo xs" and ?b = "drop lo xs"
  have ne: "?a \<noteq> []" using assms(2,5) by auto
  have "exactly_m P (length ?a) (p, ?a @ ?b @ r, cs) = [(Some (last ?a), ?b @ r, cs)]"
    using exactly_m_run[of ?a P p "?b @ r" cs] assms(1) ne by (auto dest: in_set_takeD)
  then have ex: "exactly_m P lo (p, xs @ r, cs) = [(Some (last ?a), ?b @ r, cs)]"
    using assms(2) by (simp add: min_absorb2 append_take_drop_id[symmetric] del: append_take_drop_id)
      (metis append_assoc append_take_drop_id)
  have last: "(if ?b = [] then Some (last ?a) else Some (last ?b)) = Some (last xs)"
    using assms(2) by (auto simp: last_drop)
  have "\<forall>c\<in>set ?b. P c" "length ?b \<le> extra"
    using assms(1,3) by (auto dest: in_set_dropD)
  then have "upto_m P extra (Some (last ?a), ?b @ r, cs) \<noteq> [] \<and>
    hd (upto_m P extra (Some (last ?a), ?b @ r, cs)) = (Some (last xs), r, cs)"
    using upto_m_run[of ?b P extra r "Some (last ?a)" cs] assms(4) last by simp
  with ex show ?thesis by (simp add: prefers_def)
qed

lemma rx_exec_start:
  "prefers r (None, s, []) (p, t, cs) \<Longrightarrow> rx_exec r s = Some cs"
  unfolding rx_exec_def prefers_def
  by (subst rx_from.simps) (auto split: list.splits)

section \<open>Soundness\<close>

text \<open>The language of an expression, captures and boundaries aside.\<close>

fun matches :: "rx \<Rightarrow> string \<Rightarrow> bool" where
  "matches (Ch a) u \<longleftrightarrow> (\<exists>c. u = [c] \<and> same_letter a c)"
| "matches (Rep P lo extra) u \<longleftrightarrow> list_all P u \<and> lo \<le> length u \<and> length u \<le> lo + extra"
| "matches (Plus P) u \<longleftrightarrow> list_all P u \<and> u \<noteq> []"
| "matches (Star P) u \<longleftrightarrow> list_all P u"
| "matches (Cat r q) u \<longleftrightarrow> (\<exists>v w. u = v @ w \<and> matches r v \<and> matches q w)"
| "matches (Alt r q) u \<longleftrightarrow> matches r u \<or> matches q u"
| "matches (Opt r) u \<longleftrightarrow> u = [] \<or> matches r u"
| "matches (Cap r) u \<longleftrightarrow> matches r u"
| "matches WB u \<longleftrightarrow> u = []"
| "matches Eps u \<longleftrightarrow> u = []"

lemma ch_m_sound: "(p', s', cs') \<in> set (ch_m P (p, s, cs)) \<Longrightarrow> \<exists>c. s = c # s' \<and> P c"
  by (auto split: list.splits if_splits)

lemma star_m_sound: "(p', s', cs') \<in> set (star_m P p s cs) \<Longrightarrow> \<exists>u. s = u @ s' \<and> list_all P u"
proof (induction P p s cs rule: star_m.induct)
  case (2 P p c t cs)
  show ?case
  proof (cases "P c \<and> (p', s', cs') \<in> set (star_m P (Some c) t cs)")
    case True
    with 2 obtain u where "t = u @ s'" "list_all P u" by blast
    with True show ?thesis by (intro exI[of _ "c # u"]) simp
  next
    case False
    with 2 show ?thesis by (auto split: if_splits)
  qed
qed simp

lemma upto_m_sound:
  "(p', s', cs') \<in> set (upto_m P n x) \<Longrightarrow> \<exists>u. fst (snd x) = u @ s' \<and> list_all P u \<and> length u \<le> n"
proof (induction n arbitrary: x)
  case (Suc n)
  obtain p s cs where x: "x = (p, s, cs)" by (cases x)
  show ?case
  proof (cases "(p', s', cs') = x")
    case False
    with Suc.prems obtain y where y: "y \<in> set (ch_m P x)" "(p', s', cs') \<in> set (upto_m P n y)" by auto
    obtain q t ds where yy: "y = (q, t, ds)" by (cases y)
    from y(1) x yy obtain c where "s = c # t" "P c" using ch_m_sound by blast
    moreover from Suc.IH[OF y(2)] yy obtain u where "t = u @ s'" "list_all P u" "length u \<le> n" by auto
    ultimately show ?thesis using x by (intro exI[of _ "c # u"]) simp
  qed (use x in auto)
qed auto

lemma exactly_m_sound:
  "y \<in> set (exactly_m P n x) \<Longrightarrow> \<exists>u. fst (snd x) = u @ fst (snd y) \<and> list_all P u \<and> length u = n"
proof (induction n arbitrary: x)
  case (Suc n)
  obtain p s cs where x: "x = (p, s, cs)" by (cases x)
  from Suc.prems obtain z where z: "z \<in> set (ch_m P x)" "y \<in> set (exactly_m P n z)" by auto
  obtain q t ds where zz: "z = (q, t, ds)" by (cases z)
  from z(1) x zz obtain c where "s = c # t" "P c" using ch_m_sound by blast
  moreover from Suc.IH[OF z(2)] zz obtain u where "t = u @ fst (snd y)" "list_all P u" "length u = n" by auto
  ultimately show ?case using x by (intro exI[of _ "c # u"]) simp
qed auto

lemma rx_m_sound: "y \<in> set (rx_m r x) \<Longrightarrow> \<exists>u. fst (snd x) = u @ fst (snd y) \<and> matches r u"
proof (induction r arbitrary: x y)
  case (Ch a)
  then show ?case
    using ch_m_sound[of "fst y" "fst (snd y)" "snd (snd y)" "same_letter a" "fst x" "fst (snd x)" "snd (snd x)"]
    by auto
next
  case (Rep P lo extra)
  then obtain z where z: "z \<in> set (exactly_m P lo x)" "y \<in> set (upto_m P extra z)" by auto
  obtain u where "fst (snd x) = u @ fst (snd z)" "list_all P u" "length u = lo"
    using exactly_m_sound[OF z(1)] by blast
  moreover obtain v where "fst (snd z) = v @ fst (snd y)" "list_all P v" "length v \<le> extra"
    using upto_m_sound[of "fst y" "fst (snd y)" "snd (snd y)" P extra z] z(2) by auto
  ultimately show ?case by (intro exI[of _ "u @ v"]) simp
next
  case (Plus P)
  then obtain z where z: "z \<in> set (ch_m P x)" "y \<in> set (star_m P (fst z) (fst (snd z)) (snd (snd z)))"
    by (auto split: prod.splits)
  obtain c where "fst (snd x) = c # fst (snd z)" "P c"
    using ch_m_sound[of "fst z" "fst (snd z)" "snd (snd z)" P "fst x" "fst (snd x)" "snd (snd x)"] z(1) by auto
  moreover obtain u where "fst (snd z) = u @ fst (snd y)" "list_all P u"
    using star_m_sound[of "fst y" "fst (snd y)" "snd (snd y)" P "fst z" "fst (snd z)" "snd (snd z)"] z(2) by auto
  ultimately show ?case by (intro exI[of _ "c # u"]) simp
next
  case (Star P)
  then show ?case
    using star_m_sound[of "fst y" "fst (snd y)" "snd (snd y)" P "fst x" "fst (snd x)" "snd (snd x)"]
    by (auto split: prod.splits)
next
  case (Cat r q)
  then obtain z where z: "z \<in> set (rx_m r x)" "y \<in> set (rx_m q z)" by auto
  obtain u where u: "fst (snd x) = u @ fst (snd z)" "matches r u" using Cat.IH(1)[OF z(1)] by blast
  obtain v where v: "fst (snd z) = v @ fst (snd y)" "matches q v" using Cat.IH(2)[OF z(2)] by blast
  have "matches (Cat r q) (u @ v)" using u(2) v(2) by auto
  with u(1) v(1) show ?case by (intro exI[of _ "u @ v"]) simp
next
  case (Alt r q)
  then have "y \<in> set (rx_m r x) \<or> y \<in> set (rx_m q x)" by simp
  then show ?case
  proof
    assume "y \<in> set (rx_m r x)"
    from Alt.IH(1)[OF this] show ?thesis by auto
  next
    assume "y \<in> set (rx_m q x)"
    from Alt.IH(2)[OF this] show ?thesis by auto
  qed
next
  case (Opt r)
  show ?case
  proof (cases "y = x")
    case False
    with Opt.prems have "y \<in> set (rx_m r x)" by simp
    from Opt.IH[OF this] show ?thesis by auto
  qed simp
next
  case (Cap r)
  then obtain z where z: "z \<in> set (rx_m r x)" "fst (snd y) = fst (snd z)"
    by (auto split: prod.splits)
  from Cap.IH[OF z(1)] z(2) show ?case by simp
qed (auto split: if_splits)

lemma rx_exec_sound: "rx_exec r s = Some cs \<Longrightarrow> \<exists>a u b. s = a @ u @ b \<and> matches r u"
proof -
  have "rx_from r p s = Some cs \<Longrightarrow> \<exists>a u b. s = a @ u @ b \<and> matches r u" for p s
  proof (induction r p s rule: rx_from.induct)
    case (1 r p s)
    show ?case
    proof (cases "rx_m r (p, s, [])")
      case Nil
      with "1.prems" obtain c t where s: "s = c # t" and "rx_from r (Some c) t = Some cs"
        by (subst (asm) rx_from.simps) (auto split: list.splits)
      with "1.IH"[OF Nil s] show ?thesis by (metis append_Cons)
    next
      case (Cons y ys)
      then have "y \<in> set (rx_m r (p, s, []))" by simp
      from rx_m_sound[OF this] show ?thesis by (metis append_Nil fst_conv snd_conv)
    qed
  qed
  then show "rx_exec r s = Some cs \<Longrightarrow> \<exists>a u b. s = a @ u @ b \<and> matches r u" by (simp add: rx_exec_def)
qed

lemma matches_lit: "matches (lit w) u \<Longrightarrow> list_all2 same_letter w u"
  by (induction w arbitrary: u) auto

end
