(* ===== verification/Command_Parser.thy ===== *)
theory Command_Parser
  imports JS_Regex
begin

text \<open>
  The command language of \<open>commands.js\<close>: the trigger expressions, the removal of the
  agent's own mention, and the order in which the expressions are tried.

  Lemmas: well-formed buy and sell texts parse to their mint and amount, whatever the mint
  contains, and the priority of the commands.
\<close>

section \<open>Trigger expressions\<close>

definition amount_char :: "char \<Rightarrow> bool" where
  "amount_char c \<longleftrightarrow> is_digit c \<or> c = CHR ''.''"

definition trade_rx :: "string \<Rightarrow> rx" where
  "trade_rx verb =
     cats [alts [lit (CHR ''/'' # verb), lit verb], Plus is_space, Cap (Rep is_alnum 32 12),
           Plus is_space, Cap (Plus amount_char)]"

definition BUY_RX :: rx where
  "BUY_RX = trade_rx ''buy''"

definition SELL_RX :: rx where
  "SELL_RX = trade_rx ''sell''"

definition DEP_RX :: rx where
  "DEP_RX = cats [WB, Cap (alts [lit ''deposit'', lit ''wallet'']), WB]"

definition BAL_RX :: rx where
  "BAL_RX = cats [WB, lit ''balance'', WB]"

definition PORT_RX :: rx where
  "PORT_RX = cats [WB, alts [lit ''holdings'', lit ''portfolio'', lit ''how much i hold''], WB]"

definition PRICE_RX :: rx where
  "PRICE_RX =
     cats [WB, alts [cats [lit ''sol'', Opt (lit ''ana''), lit '' price''], lit ''price of solana''], WB]"

definition AUTO_RX :: rx where
  "AUTO_RX =
     cats [WB, lit ''auto'', Opt (lit ''trade''), Star is_space, Cap (alts [lit ''on'', lit ''off'']), WB]"

definition RISK_RX :: rx where
  "RISK_RX =
     cats [WB, lit ''risk'', Star is_space, Cap (alts [lit ''low'', lit ''med'', lit ''high'']), WB]"

section \<open>Parsing\<close>

text \<open>\<open>TW_HANDLE\<close> is a Twitter handle in lower case; handles contain no special characters.\<close>

definition stripMention :: "string \<Rightarrow> string \<Rightarrow> string" where
  "stripMention TW_HANDLE txt =
     (if TW_HANDLE \<noteq> [] then js_trim (remove_ci (CHR ''@'' # TW_HANDLE) txt) else txt)"

datatype command =
    Trade string string jsnum   \<comment> \<open>side, mint, amount\<close>
  | Deposit
  | Balance
  | Portfolio
  | Price
  | Auto string
  | Risk string

definition parse_command :: "string \<Rightarrow> command option" where
  "parse_command clean =
     (case rx_exec BUY_RX clean of
        Some cs \<Rightarrow> Some (Trade ''buy'' (cs ! 0) (to_number (cs ! 1)))
      | None \<Rightarrow>
     (case rx_exec SELL_RX clean of
        Some cs \<Rightarrow> Some (Trade ''sell'' (cs ! 0) (to_number (cs ! 1)))
      | None \<Rightarrow>
        if rx_test DEP_RX clean then Some Deposit
        else if rx_test BAL_RX clean then Some Balance
        else if rx_test PORT_RX clean then Some Portfolio
        else if rx_test PRICE_RX clean then Some Price
        else (case rx_exec RISK_RX clean of
                Some cs \<Rightarrow> Some (Risk (cs ! 0))
              | None \<Rightarrow> map_option (\<lambda>cs. Auto (cs ! 0)) (rx_exec AUTO_RX clean))))"

section \<open>Trades\<close>

lemma alnum_not_space: "is_alnum c \<Longrightarrow> \<not> is_space c"
  by (auto simp: is_alnum_def is_alpha_def is_digit_def is_space_def)

lemma amount_not_space: "amount_char c \<Longrightarrow> \<not> is_space c"
  by (auto simp: amount_char_def is_digit_def is_space_def code_def)

lemma space_facts [simp]: "is_space (CHR '' '')" "\<not> is_alnum (CHR '' '')" "\<not> amount_char (CHR '' '')"
  by (simp_all add: is_space_def is_alnum_def is_alpha_def is_digit_def amount_char_def code_def)

text \<open>A text of the shape the trade expressions describe.\<close>

definition trade_text :: "string \<Rightarrow> string \<Rightarrow> string \<Rightarrow> string" where
  "trade_text word mint amt = word @ '' '' @ mint @ '' '' @ amt"

definition valid_mint :: "string \<Rightarrow> bool" where
  "valid_mint m \<longleftrightarrow> list_all is_alnum m \<and> 32 \<le> length m \<and> length m \<le> 44"

definition valid_amount :: "string \<Rightarrow> bool" where
  "valid_amount a \<longleftrightarrow> list_all amount_char a \<and> a \<noteq> []"

lemma prefers_spaces:
  "r \<noteq> [] \<Longrightarrow> \<not> is_space (hd r) \<Longrightarrow> prefers (Plus is_space) (p, CHR '' '' # r, cs) (Some (CHR '' ''), r, cs)"
  using prefers_Plus[of "'' ''" is_space r p cs] by simp

lemma trade_rx_tail:
  assumes "valid_mint m" and "valid_amount a"
  shows "prefers (cats [Plus is_space, Cap (Rep is_alnum 32 12), Plus is_space, Cap (Plus amount_char)])
    (p, CHR '' '' # m @ CHR '' '' # a, []) (Some (last a), [], [m, a])"
proof -
  have m: "\<forall>c\<in>set m. is_alnum c" "m \<noteq> []" "32 \<le> length m" "length m \<le> 32 + 12"
    using assms(1) by (auto simp: valid_mint_def list_all_iff)
  have a: "\<forall>c\<in>set a. amount_char c" "a \<noteq> []" using assms(2) by (auto simp: valid_amount_def list_all_iff)
  have s1: "prefers (Plus is_space) (p, CHR '' '' # m @ CHR '' '' # a, []) (Some (CHR '' ''), m @ CHR '' '' # a, [])"
    using m alnum_not_space[of "hd m"] by (intro prefers_spaces) auto
  have "prefers (Rep is_alnum 32 12) (Some (CHR '' ''), m @ CHR '' '' # a, []) (Some (last m), CHR '' '' # a, [])"
    by (rule prefers_Rep) (use m in auto)
  from prefers_Cap[OF this]
  have s2: "prefers (Cap (Rep is_alnum 32 12)) (Some (CHR '' ''), m @ CHR '' '' # a, []) (Some (last m), CHR '' '' # a, [m])"
    by simp
  have s3: "prefers (Plus is_space) (Some (last m), CHR '' '' # a, [m]) (Some (CHR '' ''), a, [m])"
    using a amount_not_space[of "hd a"] by (intro prefers_spaces) auto
  have "prefers (Plus amount_char) (Some (CHR '' ''), a @ [], [m]) (Some (last a), [], [m])"
    by (rule prefers_Plus) (use a in auto)
  from prefers_Cap[OF this]
  have s4: "prefers (Cap (Plus amount_char)) (Some (CHR '' ''), a, [m]) (Some (last a), [], [m, a])"
    by simp
  show ?thesis
    unfolding cats.simps
    by (rule prefers_Cat[OF s1 prefers_Cat[OF s2 prefers_Cat[OF s3 prefers_Cat[OF s4 prefers_Eps]]]])
qed

lemma prefers_lit: "prefers (lit w) (p, w @ r, cs) (if w = [] then p else Some (last w), r, cs)"
proof (induction w arbitrary: p)
  case (Cons c w)
  have "prefers (Ch c) (p, c # w @ r, cs) (Some c, w @ r, cs)"
    by (rule prefers_Ch) (simp add: same_letter_def)
  from prefers_Cat[OF this Cons[of "Some c"]] show ?case by (cases w) auto
qed (simp add: prefers_Eps)

lemma trade_rx_match:
  assumes "valid_mint m" and "valid_amount a" and "verb \<in> {''buy'', ''sell''}" and "word \<in> {verb, CHR ''/'' # verb}"
  shows "rx_exec (trade_rx verb) (trade_text word m a) = Some [m, a]"
proof -
  let ?r = "CHR '' '' # m @ CHR '' '' # a"
  have "prefers (Alt (lit (CHR ''/'' # verb)) (lit verb)) (None, word @ ?r, []) (Some (last verb), ?r, [])"
  proof (cases "word = CHR ''/'' # verb")
    case True
    then show ?thesis
      using prefers_Alt1[OF prefers_lit[of "CHR ''/'' # verb" None ?r "[]"], of "lit verb"] assms(3) by auto
  next
    case False
    with assms(4) have w: "word = verb" by simp
    have "rx_m (lit (CHR ''/'' # verb)) (None, verb @ ?r, []) = []"
      using assms(3) by (auto simp: same_letter_def to_lower_def code_def)
    from prefers_Alt2[OF this prefers_lit] w assms(3) show ?thesis by auto
  qed
  from prefers_Cat[OF this trade_rx_tail[OF assms(1,2)]]
  have "prefers (trade_rx verb) (None, trade_text word m a, []) (Some (last a), [], [m, a])"
    by (simp add: trade_rx_def trade_text_def)
  then show ?thesis by (rule rx_exec_start)
qed

lemma matches_trade_rx:
  assumes "matches (trade_rx verb) u" and "verb \<noteq> []"
  shows "\<exists>b sp m sp' r. u = b @ sp @ m @ sp' @ r \<and> b \<noteq> [] \<and> same_letter (last verb) (last b) \<and>
    sp \<noteq> [] \<and> list_all is_space sp \<and> sp' \<noteq> [] \<and> list_all is_space sp'"
proof -
  from assms(1) obtain b sp m sp' r where u: "u = b @ sp @ m @ sp' @ r"
    and b: "matches (lit (CHR ''/'' # verb)) b \<or> matches (lit verb) b"
    and sp: "sp \<noteq> []" "list_all is_space sp" "sp' \<noteq> []" "list_all is_space sp'"
    by (auto simp: trade_rx_def simp del: lit.simps)
  from b have "b \<noteq> [] \<and> same_letter (last verb) (last b)"
  proof
    assume "matches (lit (CHR ''/'' # verb)) b"
    then have l: "list_all2 same_letter (CHR ''/'' # verb) b" by (rule matches_lit)
    then have n: "length b = Suc (length verb)" using list_all2_lengthD by fastforce
    then have "b \<noteq> []" by auto
    with n list_all2_nthD[OF l, of "length verb"] assms(2) show ?thesis
      by (auto simp: last_conv_nth nth_Cons' split: if_splits)
  next
    assume "matches (lit verb) b"
    then have l: "list_all2 same_letter verb b" by (rule matches_lit)
    then have n: "length b = length verb" using list_all2_lengthD by fastforce
    then have "b \<noteq> []" using assms(2) by auto
    with n list_all2_nthD[OF l, of "length verb - 1"] assms(2) show ?thesis
      by (auto simp: last_conv_nth)
  qed
  with u sp show ?thesis by blast
qed

lemma spaces_before_last:
  assumes "x @ sp @ m @ sp' @ r = w @ '' '' @ m2 @ '' '' @ a" and "sp \<noteq> []" "list_all is_space sp"
    and "sp' \<noteq> []" "list_all is_space sp'"
    and "list_all (\<lambda>c. \<not> is_space c) w" "list_all (\<lambda>c. \<not> is_space c) m2" "list_all (\<lambda>c. \<not> is_space c) a"
  shows "x = w"
proof -
  have none: "filter is_space v = []" if "list_all (\<lambda>c. \<not> is_space c) v" for v
    using that by (simp add: filter_empty_conv list_all_iff)
  have all: "filter is_space v = v" if "list_all is_space v" for v
    using that by (simp add: filter_id_conv list_all_iff)
  have "filter is_space (x @ sp @ m @ sp' @ r) = filter is_space (w @ '' '' @ m2 @ '' '' @ a)"
    by (rule arg_cong[OF assms(1)])
  then have f: "filter is_space x @ sp @ filter is_space m @ sp' @ filter is_space r = ''  ''"
    using all[OF assms(3)] all[OF assms(5)] none[OF assms(6)] none[OF assms(7)] none[OF assms(8)] by simp
  have "length (filter is_space x @ sp @ filter is_space m @ sp' @ filter is_space r) = 2"
    unfolding f by simp
  then have "length (filter is_space x) + (length sp + length sp') \<le> 2" by simp
  moreover have "1 \<le> length sp" "1 \<le> length sp'" using assms(2,4) by (simp_all add: Suc_le_eq)
  ultimately have "length (filter is_space x) = 0" by linarith
  then have "filter is_space x = []" by simp
  then have x: "\<forall>c\<in>set x. \<not> is_space c" by (simp add: filter_empty_conv)
  from assms(2,3) obtain c cs where sp: "sp = c # cs" "is_space c" by (cases sp) auto
  have "takeWhile (\<lambda>c. \<not> is_space c) (x @ sp @ m @ sp' @ r) = x"
    using x sp by (simp add: takeWhile_append2)
  moreover have "takeWhile (\<lambda>c. \<not> is_space c) (w @ '' '' @ m2 @ '' '' @ a) = w"
    using assms(6) by (simp add: takeWhile_append2 list_all_iff)
  ultimately show ?thesis unfolding assms(1) by (rule trans[OF sym])
qed

lemma trade_rx_other_verb:
  assumes "valid_mint m" and "valid_amount a" and "word \<in> {''sell'', ''/sell''}"
  shows "rx_exec BUY_RX (trade_text word m a) = None"
proof (rule ccontr)
  assume "rx_exec BUY_RX (trade_text word m a) \<noteq> None"
  then obtain cs where "rx_exec (trade_rx ''buy'') (trade_text word m a) = Some cs" by (auto simp: BUY_RX_def)
  from rx_exec_sound[OF this] obtain x u y where t: "trade_text word m a = x @ u @ y"
    and mu: "matches (trade_rx ''buy'') u" by blast
  have "last ''buy'' = CHR ''y''" by simp
  then obtain b sp m' sp' r where u: "u = b @ sp @ m' @ sp' @ r" "b \<noteq> []" "same_letter (CHR ''y'') (last b)"
    and sp: "sp \<noteq> []" "list_all is_space sp" "sp' \<noteq> []" "list_all is_space sp'"
    using matches_trade_rx[OF mu] by (metis list.distinct(1))
  have "(x @ b) @ sp @ m' @ sp' @ (r @ y) = word @ '' '' @ m @ '' '' @ a"
    using t u(1) by (simp add: trade_text_def)
  then have "x @ b = word"
    by (rule spaces_before_last[OF _ sp])
      (use assms alnum_not_space amount_not_space in
        \<open>auto simp: valid_mint_def valid_amount_def list_all_iff is_space_def code_def\<close>)
  moreover have "last b = last (x @ b)" using u(2) by simp
  ultimately have "last b = CHR ''l''" using assms(3) by auto
  with u(3) show False by (simp add: same_letter_def to_lower_def code_def)
qed

section \<open>Property\<close>

lemma parse_trade_text:
  assumes "valid_mint m" and "valid_amount a" and "side = ''buy'' \<or> side = ''sell''"
    and "word = side \<or> word = CHR ''/'' # side"
  shows "parse_command (trade_text word m a) = Some (Trade side m (to_number a))"
proof (cases "side = ''buy''")
  case True
  with trade_rx_match[OF assms(1,2), of side word] assms(4) show ?thesis
    by (auto simp: parse_command_def BUY_RX_def)
next
  case False
  with assms(3) have "side = ''sell''" by blast
  moreover from this have "rx_exec BUY_RX (trade_text word m a) = None"
    using trade_rx_other_verb[OF assms(1,2)] assms(4) by auto
  ultimately show ?thesis
    using trade_rx_match[OF assms(1,2), of side word] assms(4) by (auto simp: parse_command_def SELL_RX_def)
qed

text \<open>
  The trade commands are read as written.  A text of the verb, with or without slash, a
  mint of 32 to 44 letters and digits and an amount of digits and points, separated by single
  spaces, is parsed as a trade on that side with that mint and amount; in particular a sell
  order is never taken for a buy order, whatever letters its mint contains.
\<close>

theorem parse_trade:
  assumes "valid_mint m" and "valid_amount a" and "side = ''buy'' \<or> side = ''sell''"
    and "word = side \<or> word = CHR ''/'' # side"
  shows "parse_command (trade_text word m a) = Some (Trade side m (to_number a))"
  using assms by (rule parse_trade_text)

theorem parse_trade_witness:
  "valid_mint ''So11111111111111111111111111111111111111112'' \<and> valid_amount ''0.5'' \<and>
   parse_command (trade_text ''/sell'' ''So11111111111111111111111111111111111111112'' ''0.5'') =
     Some (Trade ''sell'' ''So11111111111111111111111111111111111111112'' (to_number ''0.5''))"
proof -
  have v: "valid_mint ''So11111111111111111111111111111111111111112''" "valid_amount ''0.5''" by code_simp+
  show ?thesis using v parse_trade[OF v, of "''sell''" "''/sell''"] by blast
qed

section \<open>Mentions\<close>

lemma to_lower_at: "to_lower c = to_lower (CHR ''@'') \<Longrightarrow> c = CHR ''@''"
proof -
  assume "to_lower c = to_lower (CHR ''@'')"
  then have eq: "code (to_lower c) = 64" by (simp add: to_lower_def code_def)
  have "code c = 64"
  proof (cases "(65 \<le> code c \<and> code c \<le> 90) \<or> (192 \<le> code c \<and> code c \<le> 222 \<and> code c \<noteq> 215)")
    case True
    then have "code (to_lower c) = code c + 32" by (auto simp: to_lower_def code_def)
    with eq True show ?thesis by auto
  qed (use eq in \<open>auto simp: to_lower_def split: if_splits\<close>)
  then have "(of_char c :: nat) = of_char (CHR ''@'')" by (simp add: code_def)
  then show ?thesis by (simp only: of_char_eq_iff)
qed

lemma remove_ci_none: "CHR ''@'' \<notin> set xs \<Longrightarrow> remove_ci (CHR ''@'' # h) xs = xs"
proof (induction xs)
  case (Cons c xs)
  then have "\<not> starts_ci (c # xs) (CHR ''@'' # h)"
    using to_lower_at by (auto simp: starts_ci_def toLowerCase_def)
  with Cons show ?case by simp
qed simp

text \<open>A text without mentions and outer white space is not changed.\<close>

lemma stripMention_plain:
  assumes "CHR ''@'' \<notin> set xs" and "xs \<noteq> []" and "\<not> is_space (hd xs)" and "\<not> is_space (last xs)"
  shows "stripMention h xs = xs"
proof -
  have "dropWhile is_space xs = xs" using assms(2,3) by (cases xs) simp_all
  moreover have "dropWhile is_space (rev xs) = rev xs"
    using assms(2,4) by (cases "rev xs") (auto simp: last_rev hd_rev[symmetric])
  ultimately show ?thesis using assms(1) by (simp add: stripMention_def js_trim_def remove_ci_none)
qed

end
