(* ===== verification/Users.thy ===== *)
theory Users
  imports Db Solana JobQueue
begin

text \<open>
  The user side of \<open>commands.js\<close>: the map of users of the agent process, its
  initialization from Redis, the creation of users, preferences, and the reaction to deposits.
  A user object is shared by reference between the map, the watcher callbacks and the
  handlers; nothing ever replaces the object of a handle, so the model keeps the one copy in
  the map and updates it there.

  Lemmas: the wallet of a user never changes while the process runs, users are created once,
  preferences survive a restart, and the key of a created user is never stored.
\<close>

section \<open>State\<close>

record user =
  u_wallet :: keypair
  u_sol :: jsnum
  u_tierBal :: jsnum
  u_auto :: bool
  u_risk :: "string option"

record 'x agent_state = "'x sol_state" +
  users :: "(string \<times> user) list"

definition AGENT_MINT_PK :: "'x ext \<Rightarrow> string res" where
  "AGENT_MINT_PK X = publicKey_of X (or_undefined (procenv X ''AGENT_MINT''))"

definition find_user :: "string \<Rightarrow> ('x, 'e) agent_state_scheme \<Rightarrow> user option" where
  "find_user h s = map_of (users s) h"

definition put_user :: "string \<Rightarrow> user \<Rightarrow> (('x, 'e) agent_state_scheme, unit) io" where
  "put_user h u = modify (\<lambda>s. s\<lparr>users := obj_put (users s) h u\<rparr>)"

section \<open>Persistence\<close>

definition bool_string :: "bool \<Rightarrow> string" where
  "bool_string b = (if b then ''true'' else ''false'')"

definition user_fields :: "user \<Rightarrow> fields" where
  "user_fields u =
     [(''sol'', Some (num_to_string (u_sol u))), (''tierBal'', Some (num_to_string (u_tierBal u))),
      (''auto'', Some (bool_string (u_auto u))), (''risk'', u_risk u)]"

definition persist :: "'x ext \<Rightarrow> string \<Rightarrow> user \<Rightarrow> (('x, 'e) base_scheme, unit) io" where
  "persist X handle u = upsertUser X handle (user_fields u)"

definition read_field :: "(string \<times> string) list \<Rightarrow> string \<Rightarrow> string \<Rightarrow> string" where
  "read_field d k dflt = (case map_of d k of None \<Rightarrow> dflt | Some v \<Rightarrow> v)"

definition hydrate :: "keypair \<Rightarrow> (string \<times> string) list \<Rightarrow> user" where
  "hydrate kp d =
     \<lparr>u_wallet = kp, u_sol = parseFloat (read_field d ''sol'' ''0''),
      u_tierBal = parseFloat (read_field d ''tierBal'' ''0''),
      u_auto = (map_of d ''auto'' = Some ''true''), u_risk = Some (read_field d ''risk'' ''med'')\<rparr>"

section \<open>Initialization\<close>

text \<open>The body of the loop of \<open>initializeUsers\<close>.\<close>

definition load_user :: "'x ext \<Rightarrow> string \<Rightarrow> (('x, 'e) agent_state_scheme, unit) io" where
  "load_user X handle =
     bnd (getUser X handle) (\<lambda>data.
     case data of
       None \<Rightarrow> ret ()
     | Some d \<Rightarrow>
         bnd (getWalletCompat X handle) (\<lambda>(secret, legacyStr).
         case secret of
           None \<Rightarrow> ret ()
         | Some sec \<Rightarrow>
             if length sec = 64 then
               bnd (of_res (kp_fromSecretKey X sec)) (\<lambda>kp.
               andthen (if truthy legacyStr
                        then setWalletItems X handle (map (\<lambda>c. JStr [c]) (the legacyStr))
                        else ret ())
                       (put_user handle (hydrate kp d)))
             else ret ()))"

definition initializeUsers :: "'x ext \<Rightarrow> (('x, 'e) agent_state_scheme, unit) io" where
  "initializeUsers X =
     bnd (getAllUsers X) (\<lambda>handles.
     andthen (for_each handles (load_user X))
    (bnd (gets users) (\<lambda>us.
     bnd (of_res (AGENT_MINT_PK X)) (\<lambda>mint.
     watchDeposits X (map (\<lambda>(h, u). (h, u_wallet u)) us) mint))))"

section \<open>Creation and getters\<close>

definition new_user :: "keypair \<Rightarrow> user" where
  "new_user kp = \<lparr>u_wallet = kp, u_sol = Num 0, u_tierBal = Num 0, u_auto = False, u_risk = Some ''med''\<rparr>"

definition ensure :: "'x ext \<Rightarrow> string \<Rightarrow> (('x, 'e) agent_state_scheme, user) io" where
  "ensure X handle =
     bnd (gets (find_user handle)) (\<lambda>u.
     case u of
       Some v \<Rightarrow> ret v
     | None \<Rightarrow>
         bnd (ext (kp_generate X)) (\<lambda>kp.
         andthen (put_user handle (new_user kp))
        (andthen (persist X handle (new_user kp))
         (ret (new_user kp)))))"

definition walletOf :: "'x ext \<Rightarrow> string \<Rightarrow> (('x, 'e) agent_state_scheme, string) io" where
  "walletOf X handle = bnd (ensure X handle) (\<lambda>u. ret (kp_public (u_wallet u)))"

definition balanceOf :: "'x ext \<Rightarrow> string \<Rightarrow> (('x, 'e) agent_state_scheme, string \<times> jsnum) io" where
  "balanceOf X handle = bnd (ensure X handle) (\<lambda>u. ret (toFixed 3 (u_sol u), u_tierBal u))"

definition updateBalances :: "'x ext \<Rightarrow> string \<Rightarrow> (('x, 'e) agent_state_scheme, rat \<times> nat) io" where
  "updateBalances X handle =
     bnd (ensure X handle) (\<lambda>u.
     bnd (of_res (AGENT_MINT_PK X)) (\<lambda>mint.
     bnd (refreshBalances X (u_wallet u) mint) (\<lambda>(sol, agentLamports).
     let u' = u\<lparr>u_sol := Num sol, u_tierBal := Num (of_nat agentLamports)\<rparr> in
     andthen (put_user handle u')
    (andthen (persist X handle u')
     (ret (sol, agentLamports))))))"

section \<open>Preferences\<close>

definition riskName :: "string option \<Rightarrow> string" where
  "riskName r = (if r = Some ''low'' then ''conservative'' else if r = Some ''high'' then ''aggressive'' else ''balanced'')"

text \<open>Both setters throw on an unknown handle; the write to Redis is not awaited.\<close>

definition set_user :: "'x ext \<Rightarrow> string \<Rightarrow> (user \<Rightarrow> user) \<Rightarrow> (('x, 'e) agent_state_scheme, bool \<times> string) io" where
  "set_user X handle f =
     bnd (gets (find_user handle)) (\<lambda>mu.
     case mu of
       None \<Rightarrow> throw (TypeErr ''Cannot read properties of undefined'')
     | Some u \<Rightarrow>
         andthen (put_user handle (f u))
        (andthen (spawn (persist X handle (f u)))
         (ret (u_auto (f u), riskName (u_risk (f u))))))"

text \<open>The state is a boolean or something else, which toggles.\<close>

definition toggleAuto :: "'x ext \<Rightarrow> string \<Rightarrow> bool option \<Rightarrow> (('x, 'e) agent_state_scheme, bool \<times> string) io" where
  "toggleAuto X handle st =
     set_user X handle (\<lambda>u. u\<lparr>u_auto := (case st of Some b \<Rightarrow> b | None \<Rightarrow> \<not> u_auto u)\<rparr>)"

definition setRisk :: "'x ext \<Rightarrow> string \<Rightarrow> string option \<Rightarrow> (('x, 'e) agent_state_scheme, bool \<times> string) io" where
  "setRisk X handle level = set_user X handle (\<lambda>u. u\<lparr>u_risk := level\<rparr>)"

section \<open>Deposits\<close>

text \<open>The callback of \<open>initializeUsers\<close> to the watchers.\<close>

definition onUpdate :: "'x ext \<Rightarrow> string \<Rightarrow> user \<Rightarrow> (('x, 'e) agent_state_scheme, unit) io" where
  "onUpdate X handle u =
     andthen (put_user handle u)
    (andthen (persist X handle u)
     (if u_auto u \<and> num_gt (u_sol u) (5 / 100)
      then enqueueTrade X (trade_payload
             \<lparr>t_side = ''sell'', t_mint = Some SOL_MINT, t_sol = Num (2 / 100)\<rparr> (Some handle))
      else ret ()))"

text \<open>
  The account-change callbacks of \<open>watchDeposits\<close>; the watched object is the one in the map.
\<close>

definition account_changed ::
  "'x ext \<Rightarrow> (rat \<times> nat \<Rightarrow> user \<Rightarrow> user) \<Rightarrow> string \<Rightarrow> (('x, 'e) agent_state_scheme, unit) io" where
  "account_changed X upd handle =
     bnd (gets (find_user handle)) (\<lambda>mu.
     case mu of
       None \<Rightarrow> ret ()
     | Some u \<Rightarrow>
         bnd (of_res (AGENT_MINT_PK X)) (\<lambda>mint.
         bnd (refreshBalances X (u_wallet u) mint) (\<lambda>b.
         andthen (put_user handle (upd b u))
         (spawn (onUpdate X handle (upd b u))))))"

definition sol_changed :: "'x ext \<Rightarrow> string \<Rightarrow> (('x, 'e) agent_state_scheme, unit) io" where
  "sol_changed X = account_changed X (\<lambda>b u. u\<lparr>u_sol := Num (fst b)\<rparr>)"

definition token_changed :: "'x ext \<Rightarrow> string \<Rightarrow> (('x, 'e) agent_state_scheme, unit) io" where
  "token_changed X = account_changed X (\<lambda>b u. u\<lparr>u_tierBal := Num (of_nat (snd b))\<rparr>)"

section \<open>Wallets are kept\<close>

text \<open>Every known user is still known, with the same wallet.\<close>

definition wallets_kept :: "('x, 'e) agent_state_scheme \<Rightarrow> ('x, 'e) agent_state_scheme \<Rightarrow> bool" where
  "wallets_kept s s' \<longleftrightarrow>
     (\<forall>h u. find_user h s = Some u \<longrightarrow> (\<exists>u'. find_user h s' = Some u' \<and> u_wallet u' = u_wallet u))"

lemma find_user_frame [simp]:
  "find_user h (s\<lparr>sys := x\<rparr>) = find_user h s" "find_user h (s\<lparr>deferred := ds\<rparr>) = find_user h s"
  "find_user h (s\<lparr>hp := q\<rparr>) = find_user h s" "find_user h (s\<lparr>lastIncident := t\<rparr>) = find_user h s"
  "find_user h (s\<lparr>decimalsCache := c\<rparr>) = find_user h s" "find_user h (s\<lparr>subscribed := w\<rparr>) = find_user h s"
  by (simp_all add: find_user_def)

interpretation wallets: sol_order wallets_kept
  by unfold_locales (simp_all add: wallets_kept_def, metis)

lemma put_user_run: "put_user h u s = (Ok (), s\<lparr>users := obj_put (users s) h u\<rparr>)"
  by (simp add: put_user_def modify_def)

lemma find_put: "find_user h' (s\<lparr>users := obj_put (users s) h u\<rparr>) = (if h' = h then Some u else find_user h' s)"
  by (simp add: find_user_def map_of_obj_put)

lemma wallets_kept_put:
  assumes "\<And>v. find_user h s = Some v \<Longrightarrow> u_wallet v = u_wallet u"
  shows "wallets_kept s (s\<lparr>users := obj_put (users s) h u\<rparr>)"
  unfolding wallets_kept_def
proof (intro allI impI)
  fix k v
  assume v: "find_user k s = Some v"
  show "\<exists>u'. find_user k (s\<lparr>users := obj_put (users s) h u\<rparr>) = Some u' \<and> u_wallet u' = u_wallet v"
    using v assms[of v] by (cases "k = h") (simp_all add: find_put)
qed

text \<open>Storing a user whose wallet is the known one, then anything that keeps wallets.\<close>

lemma put_then:
  assumes "\<And>v. find_user h s = Some v \<Longrightarrow> u_wallet v = u_wallet u" and "stays wallets_kept m"
  shows "wallets_kept s (snd (andthen (put_user h u) m s))"
proof -
  let ?t = "s\<lparr>users := obj_put (users s) h u\<rparr>"
  have run: "andthen (put_user h u) m s = m ?t"
    by (simp add: andthen_def bnd_def put_user_run)
  have "wallets_kept s ?t" using assms(1) by (rule wallets_kept_put)
  moreover have "wallets_kept ?t (snd (m ?t))" using assms(2) by (simp add: stays_def)
  ultimately show ?thesis unfolding run by (rule wallets.trans)
qed

lemma stays_persist: "stays wallets_kept (persist X h u)"
  unfolding persist_def by (rule wallets.stays_upsertUser)

lemma persist_only_sys: "persist X h u s = (r, s') \<Longrightarrow> \<exists>x. s' = s\<lparr>sys := x\<rparr>"
  unfolding persist_def by (blast dest: staysD[OF outside.stays_upsertUser] only_sysD)

lemma stays_spawn_persist: "stays wallets_kept (spawn (persist X h u))"
  by (intro wallets.stays_spawn stays_persist)

lemma ensure_keeps: "stays wallets_kept (ensure X h)"
proof (rule staysI)
  fix s r s'
  assume run: "ensure X h s = (r, s')"
  show "wallets_kept s s'"
  proof (cases "find_user h s")
    case (Some u)
    with run show ?thesis by (simp add: ensure_def bnd_def gets_def ret_def wallets.refl)
  next
    case None
    obtain rk x where k: "kp_generate X (sys s) = (rk, x)" by force
    show ?thesis
    proof (cases rk)
      case (Ok kp)
      let ?s = "s\<lparr>sys := x\<rparr>"
      from run None k Ok
      have "andthen (put_user h (new_user kp)) (andthen (persist X h (new_user kp)) (ret (new_user kp))) ?s = (r, s')"
        by (simp add: ensure_def bnd_def gets_def ext_def)
      moreover have "wallets_kept ?s (snd (andthen (put_user h (new_user kp))
          (andthen (persist X h (new_user kp)) (ret (new_user kp))) ?s))"
        using None by (intro put_then wallets.stays_andthen stays_persist wallets.stays_pure) simp
      ultimately have "wallets_kept ?s s'" by simp
      with wallets.R_sys[of s x] show ?thesis by (rule wallets.trans)
    qed (use run None k wallets.R_sys[of s x] in \<open>auto simp: ensure_def bnd_def gets_def ext_def\<close>)
  qed
qed

lemma ensure_found: "ensure X h s = (Ok u, s') \<Longrightarrow> find_user h s' = Some u"
proof -
  assume run: "ensure X h s = (Ok u, s')"
  show ?thesis
  proof (cases "find_user h s")
    case (Some v)
    with run show ?thesis by (auto simp: ensure_def bnd_def gets_def ret_def)
  next
    case None
    with run obtain kp x s1 where k: "kp_generate X (sys s) = (Ok kp, x)" "u = new_user kp"
      and p: "persist X h (new_user kp) (s\<lparr>sys := x, users := obj_put (users s) h (new_user kp)\<rparr>) = (Ok (), s')"
      by (auto simp: ensure_def bnd_def gets_def ext_def andthen_def put_user_run ret_def split: prod.splits res.splits)
    from persist_only_sys[OF p]
    obtain y where "s' = s\<lparr>sys := x, users := obj_put (users s) h (new_user kp)\<rparr>\<lparr>sys := y\<rparr>"
      by blast
    with k show ?thesis by (simp add: find_user_def map_of_obj_put)
  qed
qed

lemma refresh_only_sys: "refreshBalances X w m s = (r, s') \<Longrightarrow> \<exists>x. s' = s\<lparr>sys := x\<rparr>"
proof -
  have "stays only_sys (refreshBalances X w m)"
    unfolding refreshBalances_def by (intro outside.sys_rules)
  then show "refreshBalances X w m s = (r, s') \<Longrightarrow> \<exists>x. s' = s\<lparr>sys := x\<rparr>" by (blast dest: staysD only_sysD)
qed

text \<open>Refreshing the balances of a known user and storing them.\<close>

lemma refresh_put_keeps:
  assumes "find_user h s = Some u" and "\<And>b. u_wallet (f b) = u_wallet u" and "\<And>b. stays wallets_kept (m b)"
  shows "wallets_kept s (snd (bnd (refreshBalances X w mint) (\<lambda>b. andthen (put_user h (f b)) (m b)) s))"
proof -
  obtain r s1 where run: "refreshBalances X w mint s = (r, s1)" by force
  then obtain x where s1: "s1 = s\<lparr>sys := x\<rparr>" using refresh_only_sys by blast
  have k: "wallets_kept s s1" unfolding s1 by (rule wallets.R_sys)
  show ?thesis
  proof (cases r)
    case (Ok b)
    have "wallets_kept s1 (snd (andthen (put_user h (f b)) (m b) s1))"
      by (rule put_then) (use assms s1 in simp_all)
    from wallets.trans[OF k this] show ?thesis using run Ok by (simp add: bnd_def)
  qed (use run k in \<open>simp_all add: bnd_def\<close>)
qed

lemma updateBalances_keeps: "stays wallets_kept (updateBalances X h)"
proof (rule staysI)
  fix s r s'
  assume run: "updateBalances X h s = (r, s')"
  obtain re s1 where e: "ensure X h s = (re, s1)" by force
  note k = staysD[OF ensure_keeps e]
  show "wallets_kept s s'"
  proof (cases re)
    case (Ok u)
    with e have f: "find_user h s1 = Some u" by (simp add: ensure_found)
    show ?thesis
    proof (cases "AGENT_MINT_PK X")
      case (Ok mint)
      let ?f = "\<lambda>b :: rat \<times> nat. u\<lparr>u_sol := Num (fst b), u_tierBal := Num (of_nat (snd b))\<rparr>"
      have "bnd (refreshBalances X (u_wallet u) mint) (\<lambda>b. andthen (put_user h (?f b))
          (andthen (persist X h (?f b)) (ret b))) s1 = (r, s')"
        using run e \<open>re = Ok u\<close> Ok
        by (auto simp: updateBalances_def bnd_def of_res_def Let_def split: prod.splits res.splits)
      moreover have "wallets_kept s1 (snd (bnd (refreshBalances X (u_wallet u) mint) (\<lambda>b. andthen (put_user h (?f b))
          (andthen (persist X h (?f b)) (ret b))) s1))"
        by (rule refresh_put_keeps[OF f]) (simp_all add: wallets.stays_andthen stays_persist wallets.stays_pure)
      ultimately have "wallets_kept s1 s'" by simp
      with k show ?thesis by (rule wallets.trans)
    qed (use run e Ok k in \<open>auto simp: updateBalances_def bnd_def of_res_def\<close>)
  qed (use run e k in \<open>auto simp: updateBalances_def bnd_def\<close>)
qed

lemma set_user_keeps:
  assumes "\<And>u. u_wallet (f u) = u_wallet u"
  shows "stays wallets_kept (set_user X h f)"
proof (rule staysI)
  fix s r s'
  assume run: "set_user X h f s = (r, s')"
  show "wallets_kept s s'"
  proof (cases "find_user h s")
    case (Some u)
    have "wallets_kept s (snd (andthen (put_user h (f u))
        (andthen (spawn (persist X h (f u))) (ret (u_auto (f u), riskName (u_risk (f u))))) s))"
      by (rule put_then) (use Some assms in \<open>simp_all add: wallets.stays_andthen stays_spawn_persist wallets.stays_pure\<close>)
    with run Some show ?thesis by (simp add: set_user_def bnd_def gets_def)
  qed (use run in \<open>simp add: set_user_def bnd_def gets_def throw_def wallets.refl\<close>)
qed

lemma toggleAuto_keeps: "stays wallets_kept (toggleAuto X h st)"
  unfolding toggleAuto_def by (rule set_user_keeps) simp

lemma setRisk_keeps: "stays wallets_kept (setRisk X h level)"
  unfolding setRisk_def by (rule set_user_keeps) simp

lemma onUpdate_keeps:
  assumes "find_user h s = Some v" and "u_wallet v = u_wallet u"
  shows "wallets_kept s (snd (spawn (onUpdate X h u) s))"
proof -
  have "wallets_kept s (snd (onUpdate X h u s))"
    unfolding onUpdate_def enqueueTrade_def
    by (rule put_then) (use assms in \<open>auto intro!: wallets.base_rules stays_persist\<close>)
  then show ?thesis
    using wallets.R_deferred wallets.trans by (fastforce simp: spawn_def split: prod.splits res.splits)
qed

lemma account_changed_keeps:
  assumes "\<And>b u. u_wallet (upd b u) = u_wallet u"
  shows "stays wallets_kept (account_changed X upd h)"
proof (rule staysI)
  fix s r s'
  assume run: "account_changed X upd h s = (r, s')"
  show "wallets_kept s s'"
  proof (cases "find_user h s")
    case None
    with run show ?thesis by (simp add: account_changed_def bnd_def gets_def ret_def wallets.refl)
  next
    case (Some u)
    show ?thesis
    proof (cases "AGENT_MINT_PK X")
      case (Ok mint)
      obtain rb s1 where b: "refreshBalances X (u_wallet u) mint s = (rb, s1)" by force
      then obtain x where s1: "s1 = s\<lparr>sys := x\<rparr>" using refresh_only_sys by blast
      have k1: "wallets_kept s s1" unfolding s1 by (rule wallets.R_sys)
      show ?thesis
      proof (cases rb)
        case (Ok bal)
        let ?u = "upd bal u" and ?s2 = "s1\<lparr>users := obj_put (users s1) h (upd bal u)\<rparr>"
        have k2: "wallets_kept s1 ?s2" by (rule wallets_kept_put) (use Some s1 assms in simp)
        have "wallets_kept ?s2 (snd (spawn (onUpdate X h ?u) ?s2))"
          by (rule onUpdate_keeps[of _ _ ?u]) (simp_all add: find_put)
        moreover have "spawn (onUpdate X h ?u) ?s2 = (r, s')"
          using run Some \<open>AGENT_MINT_PK X = Ok mint\<close> b Ok
          by (simp add: account_changed_def bnd_def gets_def of_res_def andthen_def put_user_run)
        ultimately have "wallets_kept ?s2 s'" by simp
        from wallets.trans[OF k1 wallets.trans[OF k2 this]] show ?thesis .
      qed (use run Some \<open>AGENT_MINT_PK X = Ok mint\<close> b k1 in
        \<open>auto simp: account_changed_def bnd_def gets_def of_res_def\<close>)
    qed (use run Some in \<open>auto simp: account_changed_def bnd_def gets_def of_res_def wallets.refl\<close>)
  qed
qed

lemma deposits_keep: "stays wallets_kept (sol_changed X h)" "stays wallets_kept (token_changed X h)"
  unfolding sol_changed_def token_changed_def by (rule account_changed_keeps, simp)+

section \<open>Properties\<close>

text \<open>A freshly started agent process, with and without services that answer.\<close>

definition agent0 :: "mem agent_state" where
  "agent0 = \<lparr>sys = mem0, deferred = [], hp = 20, lastIncident = 0, decimalsCache = [], subscribed = [], users = []\<rparr>"

definition bob :: user where
  "bob = \<lparr>u_wallet = trader, u_sol = Num 1, u_tierBal = Num 7, u_auto = True, u_risk = Some ''low''\<rparr>"

text \<open>
  A user is created once.  After a call of \<open>ensure\<close> that returns, further calls
  return the same user and change nothing, and \<open>walletOf\<close> keeps returning its address.
\<close>

theorem ensure_once:
  assumes "ensure X h s = (Ok u, s1)"
  shows "ensure X h s1 = (Ok u, s1) \<and> walletOf X h s1 = (Ok (kp_public (u_wallet u)), s1)"
  using ensure_found[OF assms] by (simp add: walletOf_def ensure_def bnd_def gets_def ret_def)

lemma mem_persist: "\<exists>s'. persist mem_ext h u (s :: (mem, 'e) base_scheme) = (Ok (), s')"
  by (simp add: persist_def upsertUser_def seal_wallet_def user_fields_def field_def truthy_def andthen_def bnd_def
      ext_def ret_def mem_ext_def mem_sadd_def mem_hset_def)

lemma mem_ensure: "\<exists>u s1. ensure mem_ext h (s :: (mem, 'e) agent_state_scheme) = (Ok u, s1)"
proof (cases "find_user h s")
  case None
  obtain kp x where g: "kp_generate mem_ext (sys s) = (Ok kp, x)" by (simp add: mem_ext_def)
  obtain s' where "persist mem_ext h (new_user kp) (s\<lparr>sys := x, users := obj_put (users s) h (new_user kp)\<rparr>) = (Ok (), s')"
    using mem_persist by blast
  with None g show ?thesis
    by (simp add: ensure_def bnd_def gets_def ext_def andthen_def put_user_run ret_def)
qed (simp add: ensure_def bnd_def gets_def ret_def)

theorem ensure_once_witness:
  "\<exists>u s1. ensure mem_ext ''bob'' agent0 = (Ok u, s1) \<and> ensure mem_ext ''bob'' s1 = (Ok u, s1)"
proof -
  obtain u s1 where run: "ensure mem_ext ''bob'' agent0 = (Ok u, s1)" using mem_ensure by blast
  with ensure_once[OF run] show ?thesis by blast
qed

lemma set_user_None:
  "find_user h s = None \<Longrightarrow> set_user X h f s = (Throw (TypeErr ''Cannot read properties of undefined''), s)"
  by (simp add: set_user_def bnd_def gets_def throw_def)

lemma set_user_Some:
  assumes "find_user h s = Some u"
  shows "fst (set_user X h f s) = Ok (u_auto (f u), riskName (u_risk (f u)))"
    and "find_user k (snd (set_user X h f s)) = (if k = h then Some (f u) else find_user k s)"
proof -
  let ?s = "s\<lparr>users := obj_put (users s) h (f u)\<rparr>"
  obtain r s1 where p: "persist X h (f u) ?s = (r, s1)" by force
  then obtain x where "s1 = ?s\<lparr>sys := x\<rparr>" using persist_only_sys by blast
  with p obtain s2 where "spawn (persist X h (f u)) ?s = (Ok (), s2)" "find_user k s2 = find_user k ?s"
    by (cases r) (auto simp: spawn_def)
  with assms show "fst (set_user X h f s) = Ok (u_auto (f u), riskName (u_risk (f u)))"
    "find_user k (snd (set_user X h f s)) = (if k = h then Some (f u) else find_user k s)"
    by (simp_all add: set_user_def bnd_def gets_def andthen_def put_user_run ret_def find_put)
qed

text \<open>
  Setting a preference.  For a known handle \<open>toggleAuto\<close> and \<open>setRisk\<close> always
  return, whatever Redis does: they change that field of that user only and report the new
  values; for an unknown handle they throw and change nothing.
\<close>

theorem preference_effect:
  "(find_user h s = None \<longrightarrow>
      toggleAuto X h st s = (Throw (TypeErr ''Cannot read properties of undefined''), s) \<and>
      setRisk X h level s = (Throw (TypeErr ''Cannot read properties of undefined''), s)) \<and>
   (\<forall>u b. find_user h s = Some u \<longrightarrow>
      fst (toggleAuto X h (Some b) s) = Ok (b, riskName (u_risk u)) \<and>
      find_user k (snd (toggleAuto X h (Some b) s)) =
        (if k = h then Some (u\<lparr>u_auto := b\<rparr>) else find_user k s) \<and>
      fst (setRisk X h level s) = Ok (u_auto u, riskName level) \<and>
      find_user k (snd (setRisk X h level s)) =
        (if k = h then Some (u\<lparr>u_risk := level\<rparr>) else find_user k s))"
  by (simp add: toggleAuto_def setRisk_def set_user_None set_user_Some)

theorem preference_effect_witness:
  "toggleAuto mem_ext ''eve'' (Some True) agent0 = (Throw (TypeErr ''Cannot read properties of undefined''), agent0) \<and>
   fst (setRisk mem_ext ''bob'' (Some ''high'') (agent0\<lparr>users := [(''bob'', bob)]\<rparr>)) = Ok (True, ''aggressive'')"
proof -
  have f: "find_user ''eve'' agent0 = None" "find_user ''bob'' (agent0\<lparr>users := [(''bob'', bob)]\<rparr>) = Some bob"
    by (simp_all add: find_user_def agent0_def)
  show ?thesis
    using preference_effect[of "''eve''" agent0 mem_ext "Some True" None "''eve''"] f
      preference_effect[of "''bob''" "agent0\<lparr>users := [(''bob'', bob)]\<rparr>" mem_ext None "Some ''high''" "''bob''"]
    by (simp add: bob_def riskName_def)
qed

section \<open>Restarts\<close>

context redis_hashes
begin

lemma persist_stored:
  assumes "u_risk u = Some r" and "persist X h u s = (Ok (), s')"
  shows "stored s' (user_key h) = hash_put (stored s (user_key h))
    [(''sol'', num_to_string (u_sol u)), (''tierBal'', num_to_string (u_tierBal u)),
     (''auto'', bool_string (u_auto u)), (''risk'', r)]"
proof -
  let ?fs = "[(''sol'', num_to_string (u_sol u)), (''tierBal'', num_to_string (u_tierBal u)),
     (''auto'', bool_string (u_auto u)), (''risk'', r)]"
  have "user_fields u = defined_fields ?fs" using assms(1) by (simp add: user_fields_def defined_fields_def)
  moreover have "public_fields ?fs" by (simp add: public_fields_def)
  ultimately show ?thesis
    using profile_put_Ok[of ?fs h s "()" s'] assms(2) by (auto simp: persist_def fun_eq_iff)
qed

lemma getWalletCompat_frame: "getWalletCompat X h s = (r, s') \<Longrightarrow> stored s' = stored s"
  by (auto simp: getWalletCompat_def bnd_def ext_def ret_def of_res_def hget_frame
      split: prod.splits res.splits option.splits if_splits)

lemma getWalletCompat_none:
  "getWalletCompat X h s = (Ok (sec, leg), s') \<Longrightarrow> stored s (user_key h) ''wallet'' = None \<Longrightarrow> sec = None"
  by (auto simp: getWalletCompat_def bnd_def ext_def ret_def of_res_def
      dest!: hget_Ok split: prod.splits res.splits option.splits if_splits)

lemma load_user_without_wallet:
  assumes "stored s (user_key h) ''wallet'' = None" and "load_user X h s = (r, s')"
  shows "users s' = users s \<and> stored s' = stored s"
proof -
  obtain rg s1 where g: "getUser X h s = (rg, s1)" by force
  have o1: "users s1 = users s" using staysD[OF outside.stays_getUser g] only_sysD by fastforce
  have f1: "stored s1 = stored s"
    using g by (auto simp: getUser_def bnd_def ext_def ret_def hgetall_frame split: prod.splits res.splits if_splits)
  show ?thesis
  proof (cases "\<exists>d. rg = Ok (Some d)")
    case True
    obtain rc s2 where c: "getWalletCompat X h s1 = (rc, s2)" by force
    have o2: "users s2 = users s1" using staysD[OF outside.stays_getWalletCompat c] only_sysD by fastforce
    note f2 = getWalletCompat_frame[OF c]
    show ?thesis
      using assms(2) g True c o1 o2 f1 f2 getWalletCompat_none[of h s1 _ _ s2] assms(1)
      by (cases rc) (auto simp: load_user_def bnd_def ret_def)
  next
    case False
    with assms(2) g o1 f1 show ?thesis
      by (cases rg) (auto simp: load_user_def bnd_def ret_def split: option.splits)
  qed
qed

lemma ensure_creates:
  assumes "find_user h s = None" and "ensure X h s = (Ok u, s1)"
  shows "\<exists>kp x. kp_generate X (sys s) = (Ok kp, x) \<and> u = new_user kp \<and>
    stored s1 (user_key h) ''wallet'' = stored s (user_key h) ''wallet''"
proof -
  from assms obtain kp x where k: "kp_generate X (sys s) = (Ok kp, x)" "u = new_user kp"
    and p: "persist X h (new_user kp) (s\<lparr>sys := x, users := obj_put (users s) h (new_user kp)\<rparr>) = (Ok (), s1)"
    by (auto simp: ensure_def bnd_def gets_def ext_def andthen_def put_user_run ret_def split: prod.splits res.splits)
  have "u_risk (new_user kp) = Some ''med''" by (simp add: new_user_def)
  from persist_stored[OF this p] have "stored s1 (user_key h) ''wallet'' = hashes x (user_key h) ''wallet''" by simp
  with k generate_frame[OF k(1)] show ?thesis by auto
qed

lemma getUser_profile:
  assumes "getUser X h s = (Ok r, s')" and "stored s (user_key h) f = Some v" and "f \<noteq> ''wallet''"
  shows "\<exists>d. r = Some d \<and> map_of d = (stored s (user_key h))(''wallet'' := None)"
proof (cases r)
  case None
  with assms profile_get_None[of h s s'] show ?thesis by simp
next
  case (Some d)
  with assms profile_get_Ok[of h s d s'] show ?thesis by simp
qed

lemma load_user_with_wallet:
  assumes "stored s (user_key h) = hash_put w [(''sol'', a), (''tierBal'', b), (''auto'', c), (''risk'', r)]"
    and "w ''wallet'' = Some enc" and "enc \<noteq> []" and "startsWith enc enc_prefix" and "open_wallet X enc = Ok sec"
    and "length sec = 64" and "kp_fromSecretKey X sec = Ok kp" and "load_user X h s = (Ok (), s')"
  shows "find_user h s' =
    Some \<lparr>u_wallet = kp, u_sol = parseFloat a, u_tierBal = parseFloat b, u_auto = (c = ''true''), u_risk = Some r\<rparr>"
proof -
  from assms(8) obtain rg s1 where g: "getUser X h s = (Ok rg, s1)"
    by (auto simp: load_user_def elim: bnd_OkD)
  have "stored s (user_key h) ''risk'' = Some r" by (simp add: assms(1))
  from getUser_profile[OF g this] obtain d where d: "rg = Some d"
    "map_of d = (stored s (user_key h))(''wallet'' := None)" by auto
  have f1: "stored s1 = stored s"
    using g by (auto simp: getUser_def bnd_def ext_def ret_def hgetall_frame split: prod.splits res.splits if_splits)
  obtain rw x where w: "redis_hget X (user_key h) ''wallet'' (sys s1) = (rw, x)" by force
  with assms(8) g d(1) obtain v where rw: "rw = Ok v"
    by (cases rw) (auto simp: load_user_def getWalletCompat_def bnd_def ext_def)
  with hget_Ok[of "user_key h" "''wallet''" "sys s1" v x] w f1 assms(1,2) have "v = Some enc" by simp
  with w rw assms(3-5) have "getWalletCompat X h s1 = (Ok (Some sec, None), s1\<lparr>sys := x\<rparr>)"
    by (simp add: getWalletCompat_def bnd_def ext_def of_res_def ret_def)
  with assms(6-8) g d(1) have "s' = s1\<lparr>sys := x, users := obj_put (users s1) h (hydrate kp d)\<rparr>"
    by (simp add: load_user_def bnd_def of_res_def andthen_def ret_def truthy_def put_user_run)
  then show ?thesis by (simp add: find_user_def map_of_obj_put hydrate_def read_field_def d(2) assms(1))
qed

end

text \<open>
  C28: The key of a new user does not survive a restart.  \<open>ensure\<close> creates a user whose
  wallet is in no store; after a restart on the same Redis contents \<open>initializeUsers\<close>
  skips the user and the next \<open>ensure\<close> generates another key, so the deposit address
  handed out before no longer belongs to the user.
\<close>

theorem new_wallet_lost_on_restart:
  assumes "redis_hashes X hashes" and "find_user h s = None" and "hashes (sys s) (user_key h) ''wallet'' = None"
    and "ensure X h s = (Ok u, s1)"
    and "users s2 = []" and "hashes (sys s2) = hashes (sys s1)" and "load_user X h s2 = (r, s3)"
    and "ensure X h s3 = (Ok u', s4)"
  shows "users s3 = [] \<and> (\<exists>kp x kp' x'. kp_generate X (sys s) = (Ok kp, x) \<and> u_wallet u = kp \<and>
    kp_generate X (sys s3) = (Ok kp', x') \<and> u_wallet u' = kp')"
proof -
  obtain kp x where k: "kp_generate X (sys s) = (Ok kp, x)" "u = new_user kp"
    and w: "hashes (sys s1) (user_key h) ''wallet'' = None"
    using redis_hashes.ensure_creates[OF assms(1,2,4)] assms(3) by auto
  have e: "users s3 = []"
    using redis_hashes.load_user_without_wallet[OF assms(1) _ assms(7)] w assms(5,6) by simp
  then have "find_user h s3 = None" by (simp add: find_user_def)
  then obtain kp' x' where "kp_generate X (sys s3) = (Ok kp', x')" "u' = new_user kp'"
    using redis_hashes.ensure_creates[OF assms(1) _ assms(8)] by auto
  with e k show ?thesis by (simp add: new_user_def)
qed

theorem new_wallet_lost_on_restart_witness:
  "\<exists>u s1 s3 u' s4. ensure mem_ext ''bob'' agent0 = (Ok u, s1) \<and>
     load_user mem_ext ''bob'' (agent0\<lparr>sys := sys s1\<rparr>) = (Ok (), s3) \<and> users s3 = [] \<and>
     ensure mem_ext ''bob'' s3 = (Ok u', s4) \<and>
     (\<exists>kp' x'. kp_generate mem_ext (sys s3) = (Ok kp', x') \<and> u_wallet u' = kp')"
proof -
  have n: "find_user ''bob'' agent0 = None" "mem_hashes (sys agent0) (user_key ''bob'') ''wallet'' = None"
    by (simp_all add: find_user_def agent0_def mem_hashes_def mem0_def al_get_def)
  obtain u s1 where e1: "ensure mem_ext ''bob'' agent0 = (Ok u, s1)" using mem_ensure by blast
  let ?s2 = "agent0\<lparr>sys := sys s1\<rparr>"
  have z: "users ?s2 = []" "mem_hashes (sys ?s2) = mem_hashes (sys s1)" by (simp_all add: agent0_def)
  have "mem_hashes (sys s1) (user_key ''bob'') ''wallet'' = None"
    using mem_redis.ensure_creates[OF n(1) e1] n(2) by auto
  then have "\<exists>s3. load_user mem_ext ''bob'' ?s2 = (Ok (), s3)"
    by (simp add: load_user_def getUser_def getWalletCompat_def bnd_def ext_def ret_def mem_ext_def mem_hashes_def)
  then obtain s3 where l: "load_user mem_ext ''bob'' ?s2 = (Ok (), s3)" by blast
  obtain u' s4 where e2: "ensure mem_ext ''bob'' s3 = (Ok u', s4)" using mem_ensure by blast
  show ?thesis
    using new_wallet_lost_on_restart[OF mem_redis.redis_hashes_axioms n e1 z l e2] e1 l e2 by blast
qed



section \<open>Deposits\<close>

text \<open>The trade that a deposit triggers.\<close>

definition deposit_sell :: "string \<Rightarrow> string \<times> string \<times> json" where
  "deposit_sell h = (''trades'', ''execute-trade'',
     trade_payload \<lparr>t_side = ''sell'', t_mint = Some SOL_MINT, t_sol = Num (2 / 100)\<rparr> (Some h))"

context job_queues
begin

abbreviation jobs_in :: "('x, 'e) base_scheme \<Rightarrow> (string \<times> string \<times> json) list" where
  "jobs_in s \<equiv> jobs (sys s)"

lemma persist_jobs: "persist X h u s = (r, s') \<Longrightarrow> jobs_in s' = jobs_in s"
  by (auto simp: persist_def upsertUser_def seal_wallet_def encrypt_def andthen_def bnd_def ext_def ret_def
      hset_jobs sadd_jobs random_jobs split: prod.splits res.splits option.splits if_splits)

lemma refresh_jobs: "refreshBalances X w m s = (r, s') \<Longrightarrow> jobs_in s' = jobs_in s"
  by (auto simp: refreshBalances_def bnd_def ext_def of_res_def ret_def balance_jobs account_jobs
      split: prod.splits res.splits option.splits)

lemma onUpdate_jobs:
  assumes "onUpdate X h u s = (Ok (), s')"
  shows "jobs_in s' = jobs_in s @ (if u_auto u \<and> num_gt (u_sol u) (5 / 100) then [deposit_sell h] else [])"
proof -
  let ?s = "s\<lparr>users := obj_put (users s) h u\<rparr>"
  from assms obtain s1 where p: "persist X h u ?s = (Ok (), s1)"
    and e: "(if u_auto u \<and> num_gt (u_sol u) (5 / 100)
      then enqueueTrade X (trade_payload \<lparr>t_side = ''sell'', t_mint = Some SOL_MINT, t_sol = Num (2 / 100)\<rparr> (Some h))
      else ret ()) s1 = (Ok (), s')"
    by (auto simp: onUpdate_def andthen_def bnd_def put_user_run split: prod.splits res.splits)
  with persist_jobs[OF p] show ?thesis
    by (auto simp: enqueueTrade_def ext_def ret_def deposit_sell_def dest: add_Ok split: prod.splits if_splits)
qed

lemma account_changed_jobs:
  assumes "find_user h s = Some u" and "account_changed X upd h s = (Ok (), s')" and "deferred s' = deferred s"
  shows "\<exists>b s1. find_user h s1 = Some u \<and> jobs_in s1 = jobs_in s \<and>
    onUpdate X h (upd b u) (s1\<lparr>users := obj_put (users s1) h (upd b u)\<rparr>) = (Ok (), s')"
proof -
  from assms(1,2) obtain mint b s1 where b: "refreshBalances X (u_wallet u) mint s = (Ok b, s1)"
    and sp: "spawn (onUpdate X h (upd b u)) (s1\<lparr>users := obj_put (users s1) h (upd b u)\<rparr>) = (Ok (), s')"
    by (auto simp: account_changed_def bnd_def gets_def of_res_def andthen_def put_user_run
        split: prod.splits res.splits)
  obtain x where s1: "s1 = s\<lparr>sys := x\<rparr>" using refresh_only_sys[OF b] by blast
  let ?s2 = "s1\<lparr>users := obj_put (users s1) h (upd b u)\<rparr>"
  obtain r s3 where o: "onUpdate X h (upd b u) ?s2 = (r, s3)" by force
  have "deferred s3 = deferred ?s2"
    using o by (auto simp: onUpdate_def andthen_def bnd_def put_user_run enqueueTrade_def ext_def ret_def
        dest!: persist_only_sys split: prod.splits res.splits if_splits)
  with sp o s1 assms(3) have "r = Ok ()" by (cases r) (auto simp: spawn_def)
  with sp o have "onUpdate X h (upd b u) ?s2 = (Ok (), s')" by (simp add: spawn_def)
  with refresh_jobs[OF b] s1 assms(1) show ?thesis by (intro exI[of _ b] exI[of _ s1]) simp
qed

end


interpretation market_jobs: job_queues market_ext m_jobs
  by unfold_locales (auto simp: market_ext_def mem_ext_def mem_hset_def mem_sadd_def)

lemma market_persist: "\<exists>x. persist market_ext h u (s :: (mem, 'e) base_scheme) = (Ok (), s\<lparr>sys := x\<rparr>)"
  by (auto simp: persist_def upsertUser_def seal_wallet_def user_fields_def field_def truthy_def andthen_def bnd_def
      ext_def ret_def market_ext_def mem_ext_def mem_sadd_def mem_hset_def)

lemma market_refresh: "\<exists>b. refreshBalances market_ext w m (s :: (mem, 'e) base_scheme) = (Ok b, s)"
proof -
  have "ata_address market_ext m (kp_public w) = Ok (m @ ''/'' @ kp_public w)"
    "conn_getBalance market_ext p x = (Ok 2500000000, x)"
    "conn_getAccountInfo market_ext p x = (Ok (Some (replicate 64 0 @ le_bytes 8 7 @ [1])), x)" for p x
    by (simp_all add: market_ext_def mem_ext_def)
  then show ?thesis
    by (simp add: refreshBalances_def bnd_def ext_def of_res_def ret_def readBigUInt64LE_def)
qed


end
