(* ===== verification/Portfolio.thy ===== *)
theory Portfolio
  imports Users
begin

text \<open>
  Prices and portfolios of \<open>commands.js\<close>: the SOL price from three sources in turn, token
  prices, and the snapshot of a user's holdings in dollars.  Replies of the price services and
  the token accounts are JSON values of any shape; wherever the source reads a member that may
  be missing, the model throws or yields \<open>undefined\<close> as the source does.

  Lemmas: the price cascade never throws, the amounts of a mint add up over its accounts, and
  the total of a portfolio is the sum of its lines in cents.
\<close>

section \<open>Prices\<close>

text \<open>A price is a number, or whatever JSON value CoinGecko sent.\<close>

datatype price = PNum jsnum | PVal json

fun price_num :: "price \<Rightarrow> jsnum" where
  "price_num (PNum n) = n"
| "price_num (PVal v) = js_number (Some v)"

fun price_string :: "price \<Rightarrow> string" where
  "price_string (PNum n) = num_to_string n"
| "price_string (PVal v) = js_string v"

text \<open>\<open>price.toFixed(2)\<close>: only numbers have the method.\<close>

fun price_toFixed :: "price \<Rightarrow> string res" where
  "price_toFixed (PNum n) = Ok (toFixed 2 n)"
| "price_toFixed (PVal (JNum q)) = Ok (toFixed 2 (Num q))"
| "price_toFixed (PVal _) = Throw (TypeErr ''price.toFixed is not a function'')"

definition BINANCE_URL :: string where
  "BINANCE_URL = ''https://api.binance.com/api/v3/ticker/price?symbol=SOLUSDT''"

definition COINGECKO_URL :: string where
  "COINGECKO_URL = ''https://api.coingecko.com/api/v3/simple/price?ids=solana&vs_currencies=usd''"

definition binance_price :: "'x ext \<Rightarrow> (('x, 'e) base_scheme, price option) io" where
  "binance_price X =
     bnd (fetch_json X (get_req BINANCE_URL)) (\<lambda>j.
     bnd (of_res (get_prop (Some j) ''price'')) (\<lambda>p.
     ret (if js_truthy p then Some (PNum (parseFloat (jsval_string p))) else None)))"

definition coingecko_price :: "'x ext \<Rightarrow> (('x, 'e) base_scheme, price option) io" where
  "coingecko_price X =
     bnd (fetch_json X (get_req COINGECKO_URL)) (\<lambda>j.
     bnd (of_res (get_prop (Some j) ''solana'')) (\<lambda>v.
     ret (if js_truthy (opt_prop v ''usd'') then map_option PVal (opt_prop v ''usd'') else None)))"

definition jupiter_price :: "'x ext \<Rightarrow> (('x, 'e) base_scheme, price option) io" where
  "jupiter_price X =
     bnd (quoteSOLto X (or_undefined (procenv X ''USDC_MINT'')) (Num LAMPORTS_PER_SOL)) (\<lambda>route.
     ret (let out = opt_prop (Some route) ''outAmount'' in
          if js_truthy out then Some (PNum (num_div (js_number out) (Num 1000000))) else None))"

text \<open>One step of the cascade: a source that throws or has no price is passed over.\<close>

definition or_else ::
  "(('x, 'e) base_scheme, price option) io \<Rightarrow> (('x, 'e) base_scheme, price option) io \<Rightarrow>
   (('x, 'e) base_scheme, price option) io" where
  "or_else m n =
     bnd (catch m (\<lambda>e. ret None)) (\<lambda>p. case p of Some v \<Rightarrow> ret (Some v) | None \<Rightarrow> n)"

definition fetchSolPrice :: "'x ext \<Rightarrow> (('x, 'e) base_scheme, price option) io" where
  "fetchSolPrice X =
     or_else (binance_price X) (or_else (coingecko_price X) (or_else (jupiter_price X) (ret None)))"

definition TOKEN_PRICE_URL :: "string list \<Rightarrow> string" where
  "TOKEN_PRICE_URL mints =
     ''https://api.coingecko.com/api/v3/simple/token_price/solana?contract_addresses='' @ join '','' mints @
     ''&vs_currencies=usd''"

definition fetchTokenPrices :: "'x ext \<Rightarrow> string list \<Rightarrow> (('x, 'e) base_scheme, json) io" where
  "fetchTokenPrices X mints =
     (if mints = [] then ret (JObj [])
      else catch (fetch_json X (get_req (TOKEN_PRICE_URL mints))) (\<lambda>e. ret (JObj [])))"

section \<open>Holdings\<close>

text \<open>\<open>for (const x of v)\<close>\<close>

fun iter_items :: "jsval \<Rightarrow> json list res" where
  "iter_items (Some (JArr vs)) = Ok vs"
| "iter_items (Some (JStr s)) = Ok (map (\<lambda>c. JStr [c]) s)"
| "iter_items _ = Throw (TypeErr ''value is not iterable'')"

definition account_info :: "json \<Rightarrow> jsval res" where
  "account_info item =
     bind_res (get_prop (Some item) ''account'') (\<lambda>account.
     bind_res (get_prop account ''data'') (\<lambda>d.
     bind_res (get_prop d ''parsed'') (\<lambda>p. get_prop p ''info'')))"

definition account_amount :: "jsval \<Rightarrow> jsnum res" where
  "account_amount info =
     bind_res (get_prop info ''tokenAmount'') (\<lambda>ta.
     bind_res (get_prop ta ''uiAmountString'') (\<lambda>ui. Ok (parseFloat (jsval_string ui))))"

definition add_balance :: "(string \<times> rat) list \<Rightarrow> string \<Rightarrow> rat \<Rightarrow> (string \<times> rat) list" where
  "add_balance bals mint amt =
     obj_put bals mint ((case map_of bals mint of None \<Rightarrow> 0 | Some b \<Rightarrow> b) + amt)"

fun sum_accounts :: "(string \<times> rat) list \<Rightarrow> json list \<Rightarrow> (string \<times> rat) list res" where
  "sum_accounts bals [] = Ok bals"
| "sum_accounts bals (item # items) =
     bind_res (account_info item) (\<lambda>info.
     bind_res (account_amount info) (\<lambda>amt.
     if num_gt amt 0 then
       bind_res (get_prop info ''mint'') (\<lambda>mint.
       sum_accounts (add_balance bals (jsval_string mint) (case amt of Num q \<Rightarrow> q | NaN \<Rightarrow> 0)) items)
     else sum_accounts bals items))"

section \<open>Portfolio\<close>

record token_line =
  tk_mint :: string
  tk_amount :: rat
  tk_price :: json
  tk_usd :: string

text \<open>\<open>priceObj?.usd ?? 0\<close>\<close>

definition usd_price :: "jsval \<Rightarrow> json" where
  "usd_price priceObj =
     (case opt_prop priceObj ''usd'' of
        None \<Rightarrow> JNum 0
      | Some v \<Rightarrow> if v = JNull then JNum 0 else v)"

fun price_lines :: "json \<Rightarrow> (string \<times> rat) list \<Rightarrow> jsnum \<Rightarrow> (token_line list \<times> jsnum) res" where
  "price_lines prices [] acc = Ok ([], acc)"
| "price_lines prices ((mint, amt) # bals) acc =
     bind_res (get_prop (Some prices) (toLowerCase mint)) (\<lambda>priceObj.
     let price = usd_price priceObj;
         usdValue = toFixed 2 (num_mul (Num amt) (js_number (Some price)))
     in bind_res (price_lines prices bals (num_add acc (parseFloat usdValue))) (\<lambda>(ls, t).
        Ok (\<lparr>tk_mint = mint, tk_amount = amt, tk_price = price, tk_usd = usdValue\<rparr> # ls, t)))"

definition line_json :: "token_line \<Rightarrow> json" where
  "line_json l =
     JObj [(''mint'', JStr (tk_mint l)), (''amount'', JNum (tk_amount l)), (''price'', tk_price l),
           (''usdValue'', JStr (tk_usd l))]"

record portfolio =
  p_sol :: rat
  p_solUsd :: string
  p_tokens :: "token_line list"
  p_totalUsd :: string

definition snapshot_json :: "int \<Rightarrow> rat \<Rightarrow> string \<Rightarrow> token_line list \<Rightarrow> json" where
  "snapshot_json ts sol solUsd tokens =
     JObj [(''ts'', JNum (of_int ts)), (''sol'', JNum sol), (''solUsd'', JStr solUsd),
           (''tokens'', JArr (map line_json tokens))]"

definition sol_value :: "price option \<Rightarrow> rat \<Rightarrow> jsnum option" where
  "sol_value solPrice sol = map_option (\<lambda>p. num_mul (Num sol) (price_num p)) solPrice"

definition getPortfolio :: "'x ext \<Rightarrow> string \<Rightarrow> (('x, 'e) agent_state_scheme, portfolio) io" where
  "getPortfolio X handle =
     bnd (ensure X handle) (\<lambda>u.
     bnd (fetchSolPrice X) (\<lambda>solPrice.
     bnd (updateBalances X handle) (\<lambda>(sol, tier).
     let solUsd = (case sol_value solPrice sol of None \<Rightarrow> ''N/A'' | Some v \<Rightarrow> toFixed 2 v) in
     bnd (ext (conn_getParsedTokenAccounts X (kp_public (u_wallet u)))) (\<lambda>raw.
     bnd (of_res (bind_res (get_prop raw ''value'') iter_items)) (\<lambda>items.
     bnd (of_res (sum_accounts [] items)) (\<lambda>balances.
     bnd (fetchTokenPrices X (map fst balances)) (\<lambda>prices.
     bnd (of_res (price_lines prices balances
            (case sol_value solPrice sol of None \<Rightarrow> Num 0 | Some v \<Rightarrow> v))) (\<lambda>(tokens, totalUsd).
     bnd (now_ms X) (\<lambda>ts.
     andthen (ext (redis_xadd X (''portfolio_history:'' @ handle)
                [''data'', JSON_stringify (snapshot_json ts sol solUsd tokens)]))
             (ret \<lparr>p_sol = sol, p_solUsd = solUsd, p_tokens = tokens, p_totalUsd = toFixed 2 totalUsd\<rparr>))))))))))"

section \<open>Cents\<close>

text \<open>The nearest whole number of cents, as \<open>toFixed(2)\<close> rounds.\<close>

definition cents :: "rat \<Rightarrow> rat" where
  "cents q = of_int \<lfloor>q * 100 + 1 / 2\<rfloor> / 100"

lemma digits_val_pad: "digits_val (replicate k (CHR ''0'') @ s) = digits_val s"
  by (induction k) (simp_all add: digits_val_def digit_val_def code_def)

lemma read_decimal:
  assumes "a \<noteq> []" and "\<forall>c\<in>set a. is_digit c" and "\<forall>c\<in>set b. is_digit c"
  shows "parseFloat (a @ CHR ''.'' # b) = Num (of_nat (digits_val (a @ b)) / 10 ^ length b)"
proof -
  obtain c cs where a: "a = c # cs" "is_digit c" using assms(1,2) by (cases a) auto
  have nd: "\<not> is_digit (CHR ''.'')" by (simp add: is_digit_def code_def)
  have t: "takeWhile is_digit (a @ CHR ''.'' # b) = a" "dropWhile is_digit (a @ CHR ''.'' # b) = CHR ''.'' # b"
    using assms(2) nd by (simp_all add: takeWhile_append2 dropWhile_append2)
  have b: "takeWhile is_digit b = b" "dropWhile is_digit b = []"
    using assms(3) by (simp_all add: takeWhile_eq_all_conv dropWhile_eq_Nil_conv)
  have "c \<noteq> CHR ''-''" "c \<noteq> CHR ''+''" "\<not> is_space c"
    using a(2) digit_not_space by (auto simp: is_digit_def code_def)
  then have "read_signed (trim_start (a @ CHR ''.'' # b)) = read_dec (a @ CHR ''.'' # b)"
    by (simp add: a(1) trim_start_def read_signed_def)
  also have "\<dots> = Some (of_nat (digits_val (a @ b)) / 10 ^ length b, [])"
    using assms(1) by (simp add: read_dec_def Let_def t b read_exp_def pow10_def)
  finally show ?thesis by (simp add: parseFloat_def)
qed

lemma parseFloat_toFixed2:
  assumes "0 \<le> q" and "q < 10 ^ 21"
  shows "parseFloat (toFixed 2 (Num q)) = Num (cents q)"
proof -
  define N where "N = nat \<lfloor>q * 100 + 1 / 2\<rfloor>"
  define m where "m = replicate (3 - length (nat_digits N)) (CHR ''0'') @ nat_digits N"
  have d: "\<forall>c\<in>set m. is_digit c" using nat_digits_digits by (auto simp: m_def is_digit_def code_def)
  have l: "3 \<le> length m" by (simp add: m_def)
  have "toFixed 2 (Num q) = take (length m - 2) m @ CHR ''.'' # drop (length m - 2) m"
    using assms by (simp add: fixed_pos_def Let_def m_def N_def eval_nat_numeral)
  also have "parseFloat \<dots> = Num (of_nat (digits_val (take (length m - 2) m @ drop (length m - 2) m)) /
      10 ^ length (drop (length m - 2) m))"
    using l d by (intro read_decimal) (auto dest: in_set_takeD in_set_dropD)
  also have "\<dots> = Num (of_nat (digits_val m) / 10 ^ 2)"
    using l by simp
  also have "digits_val m = N"
    by (simp add: m_def digits_val_pad digits_val_nat_digits)
  also have "of_nat N / 10 ^ 2 = cents q"
    using assms(1) by (simp add: cents_def N_def)
  finally show ?thesis .
qed

text \<open>The price of a mint, and the lines and the total of a list of holdings.\<close>

definition mint_price :: "(string \<times> json) list \<Rightarrow> string \<Rightarrow> rat" where
  "mint_price ps mint = (case usd_price (map_of ps (toLowerCase mint)) of JNum p \<Rightarrow> p | _ \<Rightarrow> 0)"

definition priced :: "(string \<times> json) list \<Rightarrow> string \<times> rat \<Rightarrow> bool" where
  "priced ps b \<longleftrightarrow>
     (\<exists>p. usd_price (map_of ps (toLowerCase (fst b))) = JNum p) \<and>
     0 \<le> snd b * mint_price ps (fst b) \<and> snd b * mint_price ps (fst b) < 10 ^ 21"

lemma price_lines_total:
  assumes "\<forall>b\<in>set bals. priced ps b"
  shows "\<exists>ls. price_lines (JObj ps) bals (Num t) =
      Ok (ls, Num (t + sum_list (map (\<lambda>b. cents (snd b * mint_price ps (fst b))) bals))) \<and>
    map (\<lambda>l. (tk_mint l, tk_amount l)) ls = bals \<and>
    (\<forall>l\<in>set ls. parseFloat (tk_usd l) = Num (cents (tk_amount l * mint_price ps (tk_mint l))))"
  using assms
proof (induction bals arbitrary: t)
  case (Cons b bals)
  obtain mint amt where b: "b = (mint, amt)" by (cases b)
  let ?p = "mint_price ps mint"
  let ?usd = "toFixed 2 (Num (amt * ?p))"
  obtain p where p: "usd_price (map_of ps (toLowerCase mint)) = JNum p" and bounds: "0 \<le> amt * ?p" "amt * ?p < 10 ^ 21"
    using Cons.prems by (auto simp: b priced_def)
  have pp: "?p = p" by (simp add: mint_price_def p)
  have usd: "parseFloat ?usd = Num (cents (amt * ?p))" using bounds by (rule parseFloat_toFixed2)
  obtain ls where ls: "price_lines (JObj ps) bals (Num (t + cents (amt * ?p))) =
      Ok (ls, Num (t + cents (amt * ?p) + sum_list (map (\<lambda>b. cents (snd b * mint_price ps (fst b))) bals)))"
      "map (\<lambda>l. (tk_mint l, tk_amount l)) ls = bals"
      "\<forall>l\<in>set ls. parseFloat (tk_usd l) = Num (cents (tk_amount l * mint_price ps (tk_mint l)))"
    using Cons.IH[of "t + cents (amt * ?p)"] Cons.prems by auto
  have "price_lines (JObj ps) (b # bals) (Num t) =
      Ok (\<lparr>tk_mint = mint, tk_amount = amt, tk_price = JNum p, tk_usd = ?usd\<rparr> # ls,
          Num (t + cents (amt * ?p) + sum_list (map (\<lambda>b. cents (snd b * mint_price ps (fst b))) bals)))"
    using ls(1) usd p pp by (simp add: b Let_def)
  with ls(2,3) usd show ?case by (simp add: b add.assoc)
qed simp

section \<open>Properties\<close>

text \<open>A source is passed over when it throws or has no price.\<close>

definition passed_over :: "(('x, 'e) base_scheme, price option) io \<Rightarrow> ('x, 'e) base_scheme \<Rightarrow> ('x, 'e) base_scheme \<Rightarrow> bool" where
  "passed_over m s s' \<longleftrightarrow> m s = (Ok None, s') \<or> (\<exists>e. m s = (Throw e, s'))"

lemma or_else_passed: "passed_over m s s' \<Longrightarrow> or_else m n s = n s'"
  by (auto simp: passed_over_def or_else_def bnd_def catch_def ret_def)

lemma or_else_first: "m s = (Ok (Some p), s') \<Longrightarrow> or_else m n s = (Ok (Some p), s')"
  by (simp add: or_else_def bnd_def catch_def ret_def)

lemma or_else_no_throw:
  assumes "\<And>s e. fst (n s) \<noteq> Throw e"
  shows "fst (or_else m n s) \<noteq> Throw e"
  using assms by (auto simp: or_else_def bnd_def catch_def ret_def split: prod.splits res.splits option.splits)

text \<open>What one token account contributes to the holding of a mint.\<close>

definition holding :: "string \<Rightarrow> json \<Rightarrow> rat" where
  "holding m item =
     (case account_info item of
        Ok info \<Rightarrow>
          (case (account_amount info, get_prop info ''mint'') of
             (Ok (Num q), Ok mint) \<Rightarrow> if 0 < q \<and> jsval_string mint = m then q else 0
           | _ \<Rightarrow> 0)
      | _ \<Rightarrow> 0)"

definition balance_in :: "(string \<times> rat) list \<Rightarrow> string \<Rightarrow> rat" where
  "balance_in bals m = (case map_of bals m of None \<Rightarrow> 0 | Some b \<Rightarrow> b)"

definition holdings_ok :: "(string \<times> rat) list \<Rightarrow> bool" where
  "holdings_ok bals \<longleftrightarrow> distinct (map fst bals) \<and> (\<forall>b\<in>set bals. 0 < snd b)"

lemma keys_obj_put: "fst ` set (obj_put m k v) = insert k (fst ` set m)"
  by (induction m k v rule: obj_put.induct) auto

lemma distinct_obj_put: "distinct (map fst m) \<Longrightarrow> distinct (map fst (obj_put m k v))"
  by (induction m k v rule: obj_put.induct) (auto simp: keys_obj_put simp flip: image_set)

lemma set_obj_put: "set (obj_put m k v) \<subseteq> insert (k, v) (set m)"
  by (induction m k v rule: obj_put.induct) auto

lemma add_balance_ok:
  assumes "holdings_ok bals" and "0 < q"
  shows "holdings_ok (add_balance bals m q)"
    and "balance_in (add_balance bals m q) k = balance_in bals k + (if k = m then q else 0)"
proof -
  have "0 \<le> balance_in bals m"
    using assms(1) by (auto simp: balance_in_def holdings_ok_def dest!: map_of_SomeD split: option.splits)
  with assms show "holdings_ok (add_balance bals m q)"
    using set_obj_put[of bals m "balance_in bals m + q"] distinct_obj_put[of bals m]
    by (force simp: holdings_ok_def add_balance_def simp flip: balance_in_def)
  show "balance_in (add_balance bals m q) k = balance_in bals k + (if k = m then q else 0)"
    by (simp add: balance_in_def add_balance_def map_of_obj_put)
qed

lemma sum_accounts_holdings:
  assumes "sum_accounts bals items = Ok out" and "holdings_ok bals"
  shows "holdings_ok out \<and> balance_in out m = balance_in bals m + sum_list (map (holding m) items)"
  using assms
proof (induction bals items rule: sum_accounts.induct)
  case (2 bals item items)
  obtain info where info: "account_info item = Ok info" using "2.prems"(1) by (cases "account_info item") auto
  obtain amt where amt: "account_amount info = Ok amt" using "2.prems"(1) info by (cases "account_amount info") auto
  show ?case
  proof (cases "num_gt amt 0")
    case False
    then have "holding m item = 0" by (cases amt) (auto simp: holding_def info amt split: res.splits)
    with "2.IH"(2)[OF False] "2.prems" info amt False show ?thesis by simp
  next
    case True
    then obtain q where q: "amt = Num q" "0 < q" by (cases amt) auto
    obtain mint where mint: "get_prop info ''mint'' = Ok mint"
      using "2.prems"(1) info amt True by (cases "get_prop info ''mint''") auto
    let ?b = "add_balance bals (jsval_string mint) q"
    have "sum_accounts ?b items = Ok out" using "2.prems"(1) info amt True mint q by simp
    with "2.IH"(1)[OF True, of mint] add_balance_ok[OF "2.prems"(2) q(2), of "jsval_string mint"] q
    have "holdings_ok out \<and> balance_in out m = balance_in ?b m + sum_list (map (holding m) items)" by simp
    moreover have "holding m item = (if m = jsval_string mint then q else 0)"
      using q by (auto simp: holding_def info amt mint)
    ultimately show ?thesis using add_balance_ok(2)[OF "2.prems"(2) q(2)] by simp
  qed
qed simp

lemma price_lines_sum:
  assumes "price_lines prices bals acc = Ok (ls, t)"
  shows "t = foldl num_add acc (map (\<lambda>l. parseFloat (tk_usd l)) ls)"
    and "map (\<lambda>l. (tk_mint l, tk_amount l)) ls = bals"
  using assms
  by (induction prices bals acc arbitrary: ls t rule: price_lines.induct)
    (auto simp: bind_res_Ok_iff Let_def split: prod.splits)

section \<open>Wallets are kept\<close>

lemma fetchSolPrice_keeps: "stays wallets_kept (fetchSolPrice X)"
  unfolding fetchSolPrice_def or_else_def binance_price_def coingecko_price_def jupiter_price_def fetch_json_def
  by (intro wallets.base_rules wallets.stays_quoteSOLto)

lemma getPortfolio_keeps: "stays wallets_kept (getPortfolio X h)"
  unfolding getPortfolio_def fetchTokenPrices_def fetch_json_def Let_def
  by (intro wallets.base_rules ensure_keeps updateBalances_keeps fetchSolPrice_keeps wallets.stays_now_ms)

section \<open>Properties\<close>

text \<open>
  The price cascade.  \<open>fetchSolPrice\<close> never throws; it returns the price of the first
  of Binance, CoinGecko and Jupiter that has one, without asking the later ones, and no price
  when all three are passed over.
\<close>

theorem price_cascade:
  "fst (fetchSolPrice X s) \<noteq> Throw e \<and>
   (binance_price X s = (Ok (Some p), s1) \<longrightarrow> fetchSolPrice X s = (Ok (Some p), s1)) \<and>
   (passed_over (binance_price X) s s1 \<longrightarrow> coingecko_price X s1 = (Ok (Some p), s2) \<longrightarrow>
      fetchSolPrice X s = (Ok (Some p), s2)) \<and>
   (passed_over (binance_price X) s s1 \<longrightarrow> passed_over (coingecko_price X) s1 s2 \<longrightarrow>
      jupiter_price X s2 = (Ok (Some p), s3) \<longrightarrow> fetchSolPrice X s = (Ok (Some p), s3)) \<and>
   (passed_over (binance_price X) s s1 \<longrightarrow> passed_over (coingecko_price X) s1 s2 \<longrightarrow>
      passed_over (jupiter_price X) s2 s3 \<longrightarrow> fetchSolPrice X s = (Ok None, s3))"
proof -
  have "fst (fetchSolPrice X s) \<noteq> Throw e"
    unfolding fetchSolPrice_def by (intro or_else_no_throw) (simp add: ret_def)
  then show ?thesis
    by (simp add: fetchSolPrice_def or_else_passed or_else_first ret_def)
qed

text \<open>In-memory services with a price at CoinGecko and two accounts of one token.\<close>

definition token_account :: "string \<Rightarrow> string \<Rightarrow> json" where
  "token_account mint amt =
     JObj [(''account'', JObj [(''data'', JObj [(''parsed'', JObj [(''info'',
       JObj [(''mint'', JStr mint), (''tokenAmount'', JObj [(''uiAmountString'', JStr amt)])])])])])]"

definition gecko_reply :: json where
  "gecko_reply = JObj [(''solana'', JObj [(''usd'', JNum 150)])]"

definition holder_ext :: "mem ext" where
  "holder_ext = mem_ext\<lparr>
     http_fetch := (\<lambda>r x. if req_url r = COINGECKO_URL
        then (Ok \<lparr>resp_ok = True, resp_statusText = ''OK'', resp_text = JSON_stringify gecko_reply\<rparr>, x)
        else (Throw (Err ''fetch failed''), x)),
     conn_getParsedTokenAccounts := (\<lambda>p x. (Ok (Some (JObj [(''value'',
        JArr [token_account ''M'' ''3'', token_account ''N'' ''0'', token_account ''M'' ''4''])])), x))\<rparr>"

lemma holder_fetch:
  "http_fetch holder_ext (get_req COINGECKO_URL) x =
     (Ok \<lparr>resp_ok = True, resp_statusText = ''OK'', resp_text = JSON_stringify gecko_reply\<rparr>, x)"
  "req_url r \<noteq> COINGECKO_URL \<Longrightarrow> http_fetch holder_ext r x = (Throw (Err ''fetch failed''), x)"
  by (simp_all add: holder_ext_def get_req_def)

lemma holder_sources:
  "passed_over (binance_price holder_ext) s s"
  "coingecko_price holder_ext s = (Ok (Some (PVal (JNum 150))), s)"
proof -
  have "req_url (get_req BINANCE_URL) \<noteq> COINGECKO_URL"
    by (simp add: get_req_def BINANCE_URL_def COINGECKO_URL_def)
  then have "binance_price holder_ext s = (Throw (Err ''fetch failed''), s)"
    by (simp add: binance_price_def fetch_json_def bnd_def ext_def holder_fetch)
  then show "passed_over (binance_price holder_ext) s s" by (simp add: passed_over_def)
  have p: "JSON_parse (JSON_stringify gecko_reply) = Ok gecko_reply"
    by (rule JSON_parse_stringify) (simp add: gecko_reply_def)
  have "get_prop (Some gecko_reply) ''solana'' = Ok (Some (JObj [(''usd'', JNum 150)]))"
    by (simp add: gecko_reply_def)
  then show "coingecko_price holder_ext s = (Ok (Some (PVal (JNum 150))), s)"
    by (simp add: coingecko_price_def fetch_json_def bnd_def ext_def holder_fetch resp_json_def p of_res_def ret_def
        del: JSON_stringify.simps)
qed

theorem price_cascade_witness:
  "passed_over (binance_price holder_ext) agent0 agent0 \<and>
   fetchSolPrice holder_ext agent0 = (Ok (Some (PVal (JNum 150))), agent0)"
  using price_cascade[of holder_ext agent0 undefined "PVal (JNum 150)" agent0 agent0 agent0] holder_sources
  by blast


lemma getPortfolio_OkD:
  assumes "getPortfolio X h s = (Ok p, s')"
  obtains u s1 solPrice s2 sol tier s3 raw x items bals prices ls t where
    "ensure X h s = (Ok u, s1)" "fetchSolPrice X s1 = (Ok solPrice, s2)"
    "updateBalances X h s2 = (Ok (sol, tier), s3)"
    "conn_getParsedTokenAccounts X (kp_public (u_wallet u)) (sys s3) = (Ok raw, x)"
    "bind_res (get_prop raw ''value'') iter_items = Ok items"
    "sum_accounts [] items = Ok bals"
    "price_lines prices bals (case sol_value solPrice sol of None \<Rightarrow> Num 0 | Some v \<Rightarrow> v) = Ok (ls, t)"
    "p = \<lparr>p_sol = sol, p_solUsd = (case sol_value solPrice sol of None \<Rightarrow> ''N/A'' | Some v \<Rightarrow> toFixed 2 v),
          p_tokens = ls, p_totalUsd = toFixed 2 t\<rparr>"
  using assms unfolding getPortfolio_def Let_def
  by (auto simp: ext_def of_res_def ret_def intro: that split: prod.splits elim!: bnd_OkD andthen_OkD)

text \<open>
  C31: A portfolio adds up.  After the price was fetched and the balances were refreshed, its
  token lines are the mints of which the chain reports a positive amount for the user's wallet,
  each once, with the sum over the accounts of the mint; the total is the value of the SOL
  balance (nothing when its price is unknown) plus the printed values of the lines.
\<close>

theorem portfolio_adds_up:
  assumes "getPortfolio X h s = (Ok p, s')"
  shows "\<exists>u s1 price s2 tier s3 raw x items.
    ensure X h s = (Ok u, s1) \<and> fetchSolPrice X s1 = (Ok price, s2) \<and>
    updateBalances X h s2 = (Ok (p_sol p, tier), s3) \<and>
    conn_getParsedTokenAccounts X (kp_public (u_wallet u)) (sys s3) = (Ok raw, x) \<and>
    bind_res (get_prop raw ''value'') iter_items = Ok items \<and>
    distinct (map tk_mint (p_tokens p)) \<and>
    (\<forall>m q. (m, q) \<in> (\<lambda>l. (tk_mint l, tk_amount l)) ` set (p_tokens p) \<longleftrightarrow>
       0 < q \<and> q = sum_list (map (holding m) items)) \<and>
    p_totalUsd p = toFixed 2 (foldl num_add (case sol_value price (p_sol p) of None \<Rightarrow> Num 0 | Some v \<Rightarrow> v)
      (map (\<lambda>l. parseFloat (tk_usd l)) (p_tokens p)))"
proof -
  from assms obtain u s1 solPrice s2 sol tier s3 raw x items bals prices ls t
    where e: "ensure X h s = (Ok u, s1)" and q: "fetchSolPrice X s1 = (Ok solPrice, s2)"
      and b: "updateBalances X h s2 = (Ok (sol, tier), s3)"
      and raw: "conn_getParsedTokenAccounts X (kp_public (u_wallet u)) (sys s3) = (Ok raw, x)"
        "bind_res (get_prop raw ''value'') iter_items = Ok items"
      and acc: "sum_accounts [] items = Ok bals"
      and lines: "price_lines prices bals (case sol_value solPrice sol of None \<Rightarrow> Num 0 | Some v \<Rightarrow> v) = Ok (ls, t)"
      and p: "p = \<lparr>p_sol = sol, p_solUsd = (case sol_value solPrice sol of None \<Rightarrow> ''N/A'' | Some v \<Rightarrow> toFixed 2 v),
          p_tokens = ls, p_totalUsd = toFixed 2 t\<rparr>"
    by (rule getPortfolio_OkD)
  have ok: "holdings_ok bals" "balance_in bals m = sum_list (map (holding m) items)" for m
    using sum_accounts_holdings[OF acc, of m] by (simp_all add: holdings_ok_def balance_in_def)
  note ls = price_lines_sum[OF lines]
  have "map fst bals = map tk_mint ls" unfolding ls(2)[symmetric] by simp
  with ok(1) have d: "distinct (map tk_mint ls)" by (simp add: holdings_ok_def)
  have "(m, q) \<in> set bals \<longleftrightarrow> 0 < q \<and> q = balance_in bals m" for m q
  proof -
    have pos: "map_of bals m = Some c \<Longrightarrow> 0 < c" for c
      using ok(1) map_of_SomeD by (fastforce simp: holdings_ok_def)
    have iff: "(m, c) \<in> set bals \<longleftrightarrow> map_of bals m = Some c" for c
      using ok(1) by (simp add: holdings_ok_def)
    show ?thesis by (cases "map_of bals m") (use pos in \<open>auto simp: iff balance_in_def\<close>)
  qed
  then have mem: "(m, q) \<in> (\<lambda>l. (tk_mint l, tk_amount l)) ` set ls \<longleftrightarrow> 0 < q \<and> q = sum_list (map (holding m) items)" for m q
    using ls(2) ok(2) by (metis image_set)
  show ?thesis
    using e q b raw d mem ls(1)
    by (intro exI[of _ u] exI[of _ s1] exI[of _ solPrice] exI[of _ s2] exI[of _ tier] exI[of _ s3] exI[of _ raw]
        exI[of _ x] exI[of _ items]) (simp add: p)
qed

definition holder0 :: "mem agent_state" where
  "holder0 = agent0\<lparr>users := [(''bob'', bob)]\<rparr>"

lemma holder_price: "fetchSolPrice holder_ext s = (Ok (Some (PVal (JNum 150))), s)"
  by (simp add: fetchSolPrice_def or_else_passed[OF holder_sources(1)] or_else_first[of "coingecko_price holder_ext", OF holder_sources(2)])

lemma holder_fields:
  "conn_getBalance holder_ext w x = (Ok 0, x)" "conn_getAccountInfo holder_ext w x = (Ok None, x)"
  "ata_address holder_ext m w = Ok (m @ ''/'' @ w)" "publicKey_of holder_ext w = Ok w"
  "Date_now holder_ext x = (m_clock x, x\<lparr>m_clock := m_clock x + 1\<rparr>)" "redis_xadd holder_ext = mem_xadd"
  "conn_getParsedTokenAccounts holder_ext w x = (Ok (Some (JObj [(''value'',
        JArr [token_account ''M'' ''3'', token_account ''N'' ''0'', token_account ''M'' ''4''])])), x)"
  "procenv holder_ext k = None"
  by (simp_all add: holder_ext_def mem_ext_def)

lemma holder_persist: "\<exists>x. persist holder_ext h u (s :: (mem, 'e) base_scheme) = (Ok (), s\<lparr>sys := x\<rparr>)"
  by (auto simp: persist_def upsertUser_def seal_wallet_def user_fields_def field_def truthy_def andthen_def bnd_def
      ext_def ret_def holder_ext_def mem_ext_def mem_sadd_def mem_hset_def)

lemma holder_updateBalances:
  "find_user h s = Some u \<Longrightarrow> \<exists>b s'. updateBalances holder_ext h (s :: (mem, 'e) agent_state_scheme) = (Ok b, s')"
proof -
  assume f: "find_user h s = Some u"
  let ?u = "u\<lparr>u_sol := Num 0, u_tierBal := Num 0\<rparr>"
  obtain x where "persist holder_ext h ?u (s\<lparr>users := obj_put (users s) h ?u\<rparr>) =
      (Ok (), s\<lparr>users := obj_put (users s) h ?u\<rparr>\<lparr>sys := x\<rparr>)" using holder_persist by blast
  with f show ?thesis
    by (simp add: updateBalances_def ensure_def AGENT_MINT_PK_def refreshBalances_def bnd_def ext_def of_res_def ret_def
        gets_def andthen_def put_user_run Let_def holder_fields)
qed

lemma holder_parse: "parseFloat ''3'' = Num 3" "parseFloat ''0'' = Num 0" "parseFloat ''4'' = Num 4"
  by code_simp+

lemma holder_accounts:
  "sum_accounts [] [token_account ''M'' ''3'', token_account ''N'' ''0'', token_account ''M'' ''4''] = Ok [(''M'', 7)]"
  by (simp add: token_account_def account_info_def account_amount_def holder_parse add_balance_def jsval_string_def)

theorem portfolio_adds_up_witness:
  "\<exists>p s'. getPortfolio holder_ext ''bob'' holder0 = (Ok p, s') \<and>
     (''M'', 7) \<in> (\<lambda>l. (tk_mint l, tk_amount l)) ` set (p_tokens p)"
proof -
  have f: "find_user ''bob'' holder0 = Some bob" by (simp add: holder0_def find_user_def)
  obtain sol tier s1 where b: "updateBalances holder_ext ''bob'' holder0 = (Ok (sol, tier), s1)"
    using holder_updateBalances[OF f] by auto
  have "req_url (get_req (TOKEN_PRICE_URL [''M''])) \<noteq> COINGECKO_URL"
    by (simp add: get_req_def TOKEN_PRICE_URL_def COINGECKO_URL_def)
  then have t: "fetchTokenPrices holder_ext [''M''] s = (Ok (JObj []), s)" for s :: "mem agent_state"
    by (simp add: fetchTokenPrices_def fetch_json_def catch_def bnd_def ext_def holder_fetch ret_def)
  have "\<exists>p s'. getPortfolio holder_ext ''bob'' holder0 = (Ok p, s')"
    using f b t by (simp add: getPortfolio_def ensure_def bnd_def gets_def ret_def holder_price ext_def of_res_def
        holder_fields holder_accounts now_ms_def mem_xadd_def andthen_def Let_def
        del: JSON_stringify.simps sum_accounts.simps)
  then obtain p s' where run: "getPortfolio holder_ext ''bob'' holder0 = (Ok p, s')" by blast
  from portfolio_adds_up[OF run] obtain u :: user and s3 :: "mem agent_state" and raw x items where
    i: "conn_getParsedTokenAccounts holder_ext (kp_public (u_wallet u)) (sys s3) = (Ok raw, x)"
      "bind_res (get_prop raw ''value'') iter_items = Ok items"
    and m: "\<forall>m q. (m, q) \<in> (\<lambda>l. (tk_mint l, tk_amount l)) ` set (p_tokens p) \<longleftrightarrow>
       0 < q \<and> q = sum_list (map (holding m) items)"
    by blast
  have "sum_list (map (holding ''M'') items) = 7"
    using i by (auto simp: holder_fields token_account_def holding_def account_info_def account_amount_def holder_parse
        jsval_string_def)
  then have "(''M'', 7) \<in> (\<lambda>l. (tk_mint l, tk_amount l)) ` set (p_tokens p)"
    using m[rule_format, of "''M''" 7] by simp
  with run show ?thesis by (intro exI conjI)
qed

end
