(* ===== verification/Commands.thy ===== *)
theory Commands
  imports Command_Parser Portfolio Memory
begin

text \<open>
  The dispatchers of \<open>commands.js\<close>: \<open>dispatchTrade\<close>, \<open>dispatchAI\<close> and the
  top-level \<open>handleMessage\<close>, over the parser, the users and the portfolios.  A message
  carries its reply function, which acts on the outside world only; \<open>return m.reply(...)\<close>
  is awaited by the caller, a plain \<open>reply(...)\<close> is not.  Replies are values of a datatype
  with one constructor per text template, since the texts contain symbols outside the
  character set of the model; in prompts the ellipsis stands as three points.

  Lemmas: a trade message queues exactly its trade, preferences set by text, the fallback never
  throws, and the deposit address of a user is the same at every later moment of the process.
\<close>

section \<open>Messages and replies\<close>

datatype reply =
    Auto_reply bool
  | Risk_reply string
  | Trade_queued string jsnum
  | Deposit_address string
  | Balance_reply string nat
  | Portfolio_reply portfolio
  | Price_reply string
  | No_price
  | Answer string
  | Brain_freeze

type_synonym 'x replier = "(reply \<Rightarrow> ('x, unit) io) option"

record 'x message =
  msg_handle :: "string option"
  msg_text :: "string option"
  msg_button :: "string option"
  msg_reply :: "'x replier"

text \<open>Calling a reply function that may be \<open>undefined\<close>.\<close>

definition say :: "'x replier \<Rightarrow> reply \<Rightarrow> (('x, 'e) base_scheme, unit) io" where
  "say r t =
     (case r of
        None \<Rightarrow> throw (TypeErr ''reply is not a function'')
      | Some f \<Rightarrow> ext (f t))"

section \<open>Trades\<close>

definition dispatchTrade ::
  "'x ext \<Rightarrow> trade_cmd \<Rightarrow> string option \<Rightarrow> 'x replier \<Rightarrow> (('x, 'e) base_scheme, unit) io" where
  "dispatchTrade X cmd handle reply =
     andthen (enqueueTrade X (trade_payload cmd handle))
             (if reply \<noteq> None then spawn (say reply (Trade_queued (t_side cmd) (t_sol cmd))) else ret ())"

section \<open>The language model\<close>

text \<open>
  \<open>s.replace(pat, rep)\<close>: the first occurrence, with the \<open>$\<close> patterns of the replacement.
\<close>

fun expand_replacement :: "string \<Rightarrow> string \<Rightarrow> string \<Rightarrow> string \<Rightarrow> string" where
  "expand_replacement before m rest (c # d # r) =
     (if c = CHR ''$'' \<and> d = CHR ''$'' then CHR ''$'' # expand_replacement before m rest r
      else if c = CHR ''$'' \<and> d = CHR ''&'' then m @ expand_replacement before m rest r
      else if c = CHR ''$'' \<and> code d = 96 then before @ expand_replacement before m rest r
      else if c = CHR ''$'' \<and> code d = 39 then rest @ expand_replacement before m rest r
      else c # expand_replacement before m rest (d # r))"
| "expand_replacement before m rest s = s"

fun replace_first :: "string \<Rightarrow> string \<Rightarrow> string \<Rightarrow> string \<Rightarrow> string" where
  "replace_first pat rep before [] = rev before"
| "replace_first pat rep before (c # cs) =
     (if startsWith (c # cs) pat
      then rev before @ expand_replacement (rev before) pat (drop (length pat) (c # cs)) rep @ drop (length pat) (c # cs)
      else replace_first pat rep (c # before) cs)"

definition js_replace :: "string \<Rightarrow> string \<Rightarrow> string \<Rightarrow> string" where
  "js_replace s pat rep = replace_first pat rep [] s"

definition TW_HANDLE :: "'x ext \<Rightarrow> string" where
  "TW_HANDLE X = (case procenv X ''AGENT_TW_HANDLE'' of None \<Rightarrow> [] | Some h \<Rightarrow> toLowerCase h)"

text \<open>Read when the module loads, which throws without \<open>AGENT_PERSONA\<close>.\<close>

definition PERSONA :: "'x ext \<Rightarrow> string res" where
  "PERSONA X =
     (case procenv X ''AGENT_PERSONA'' of
        None \<Rightarrow> Throw (TypeErr ''Cannot read properties of undefined'')
      | Some p \<Rightarrow> Ok (js_replace p ''%AGENT%'' (or_undefined (procenv X ''AGENT_NAME''))))"

definition GOALS :: "'x ext \<Rightarrow> string" where
  "GOALS X = or_undefined (procenv X ''AGENT_GOALS'')"

definition nl :: string where
  "nl = [CHR 0x0A]"

text \<open>\<open>User: ${msg.text}\<close> for every entry of the history.\<close>

definition history_lines :: "(string \<times> string option) list list \<Rightarrow> string" where
  "history_lines history =
     concat (map (\<lambda>msg. ''User: '' @ or_undefined (case map_of msg ''text'' of None \<Rightarrow> None | Some v \<Rightarrow> v) @ nl) history)"

definition port_line :: "token_line \<Rightarrow> string" where
  "port_line l =
     take 6 (tk_mint l) @ ''... : '' @ num_to_string (Num (tk_amount l)) @ '' @ $'' @ js_string (tk_price l) @
     '' = $'' @ tk_usd l"

definition portLines :: "portfolio \<Rightarrow> string" where
  "portLines p =
     join nl ((''SOL:  '' @ toFixed 3 (Num (p_sol p)) @ ''  (~$'' @ p_solUsd p @ '')'') # map port_line (p_tokens p))"

definition ai_context ::
  "(string \<times> string option) list list \<Rightarrow> string \<Rightarrow> price option \<Rightarrow> portfolio \<Rightarrow> string" where
  "ai_context history text priceNow port =
     history_lines history @ ''User: '' @ text @ nl @ nl @ ''### Real-time facts'' @ nl @
     ''SOL price: $'' @ (case priceNow of None \<Rightarrow> ''N/A'' | Some v \<Rightarrow> price_string v) @ nl @
     ''Portfolio:'' @ nl @ portLines port @ nl @ ''AI:''"

definition ollama_body :: "'x ext \<Rightarrow> string \<Rightarrow> string \<Rightarrow> json" where
  "ollama_body X persona context =
     JObj (opt_member ''model'' (procenv X ''OLLAMA_MODEL'') @
           [(''prompt'', JStr (persona @ nl @ ''Goals: '' @ GOALS X @ nl @ nl @ context)), (''stream'', JBool False)])"

text \<open>\<open>(await res.json()).response.trim()\<close>\<close>

definition read_answer :: "json \<Rightarrow> string res" where
  "read_answer j =
     bind_res (get_prop (Some j) ''response'') (\<lambda>v.
     case v of
       Some (JStr a) \<Rightarrow> Ok (js_trim a)
     | _ \<Rightarrow> Throw (TypeErr ''response.trim is not a function''))"

definition llm_exchange ::
  "'x ext \<Rightarrow> string \<Rightarrow> string \<Rightarrow> 'x replier \<Rightarrow> (('x, 'e) agent_state_scheme, unit) io" where
  "llm_exchange X text handle reply =
     bnd (now_ms X) (\<lambda>ts.
     andthen (remember X handle text ts)
    (bnd (recall X handle 10) (\<lambda>history.
     bnd (fetchSolPrice X) (\<lambda>priceNow.
     bnd (getPortfolio X handle) (\<lambda>port.
     bnd (of_res (PERSONA X)) (\<lambda>persona.
     bnd (fetch_json X (post_json (or_undefined (procenv X ''OLLAMA_URL''))
            (ollama_body X persona (ai_context history text priceNow port)))) (\<lambda>j.
     bnd (of_res (read_answer j)) (\<lambda>answer.
     andthen (if reply = None then say reply (Answer answer) else spawn (say reply (Answer answer)))
    (bnd (now_ms X) (\<lambda>ts'. remember X handle answer ts'))))))))))"

definition price_reply :: "'x ext \<Rightarrow> 'x replier \<Rightarrow> (('x, 'e) base_scheme, unit) io" where
  "price_reply X reply =
     bnd (fetchSolPrice X) (\<lambda>price.
     case price of
       Some p \<Rightarrow> bnd (of_res (price_toFixed p)) (\<lambda>v. say reply (Price_reply v))
     | None \<Rightarrow> say reply No_price)"

definition portfolio_reply :: "'x ext \<Rightarrow> string \<Rightarrow> 'x replier \<Rightarrow> (('x, 'e) agent_state_scheme, unit) io" where
  "portfolio_reply X handle reply = bnd (getPortfolio X handle) (\<lambda>p. say reply (Portfolio_reply p))"

definition dispatchAI ::
  "'x ext \<Rightarrow> string \<Rightarrow> string \<Rightarrow> 'x replier \<Rightarrow> (('x, 'e) agent_state_scheme, unit) io" where
  "dispatchAI X text handle reply =
     (let clean = stripMention (TW_HANDLE X) text in
      if rx_test PRICE_RX clean then price_reply X reply
      else if rx_test PORT_RX clean then portfolio_reply X handle reply
      else catch (llm_exchange X text handle reply)
             (\<lambda>e. if reply = None then say reply Brain_freeze else spawn (say reply Brain_freeze)))"

section \<open>The handler\<close>

text \<open>The buttons; \<open>None\<close> means that the button is not one of them.\<close>

definition handle_button ::
  "'x ext \<Rightarrow> 'x message \<Rightarrow> string \<Rightarrow> (('x, 'e) agent_state_scheme, unit) io option" where
  "handle_button X m b =
     (let parts = js_split b ''::''; act = elem_at parts 1; arg = elem_at parts 2;
          h = or_undefined (msg_handle m) in
      if act = Some ''AUTO'' then
        Some (bnd (toggleAuto X h (Some (arg = Some ''on''))) (\<lambda>r. say (msg_reply m) (Auto_reply (fst r))))
      else if act = Some ''RISK'' then
        Some (bnd (setRisk X h arg) (\<lambda>r. say (msg_reply m) (Risk_reply (snd r))))
      else if act = Some ''QBUY'' \<or> act = Some ''QSELL'' then
        Some (dispatchTrade X
          \<lparr>t_side = (if act = Some ''QBUY'' then ''buy'' else ''sell''), t_mint = arg, t_sol = Num (1 / 10)\<rparr>
          (msg_handle m) (msg_reply m))
      else None)"

definition run_command ::
  "'x ext \<Rightarrow> 'x message \<Rightarrow> command \<Rightarrow> (('x, 'e) agent_state_scheme, unit) io" where
  "run_command X m cmd =
     (let h = or_undefined (msg_handle m); reply = msg_reply m in
      case cmd of
        Deposit \<Rightarrow> bnd (walletOf X h) (\<lambda>a. say reply (Deposit_address a))
      | Balance \<Rightarrow> bnd (updateBalances X h) (\<lambda>b. say reply (Balance_reply (toFixed 3 (Num (fst b))) (snd b)))
      | Portfolio \<Rightarrow> portfolio_reply X h reply
      | Price \<Rightarrow> price_reply X reply
      | Auto val \<Rightarrow> bnd (toggleAuto X h (Some (val = ''on''))) (\<lambda>r. say reply (Auto_reply (fst r)))
      | Risk val \<Rightarrow> throw (RefErr ''handle is not defined'')
      | Trade side mint sol \<Rightarrow>
          dispatchTrade X \<lparr>t_side = side, t_mint = Some mint, t_sol = sol\<rparr> (msg_handle m) reply)"

definition handle_text :: "'x ext \<Rightarrow> 'x message \<Rightarrow> (('x, 'e) agent_state_scheme, unit) io" where
  "handle_text X m =
     (let t = (case msg_text m of None \<Rightarrow> [] | Some t \<Rightarrow> t) in
      case parse_command (stripMention (TW_HANDLE X) t) of
        Some cmd \<Rightarrow> run_command X m cmd
      | None \<Rightarrow> dispatchAI X t (or_undefined (msg_handle m)) (msg_reply m))"

definition handleMessage :: "'x ext \<Rightarrow> 'x message \<Rightarrow> (('x, 'e) agent_state_scheme, unit) io" where
  "handleMessage X m =
     (case (if truthy (msg_button m) then handle_button X m (the (msg_button m)) else None) of
        Some act \<Rightarrow> act
      | None \<Rightarrow> handle_text X m)"

section \<open>Splitting\<close>

lemma split_go_part:
  assumes "c \<notin> set a"
  shows "split_go (c # sep) acc (a @ (c # sep) @ rest) = (rev acc @ a) # split_go (c # sep) [] rest"
  using assms by (induction a arbitrary: acc) (auto simp: startsWith_def)

lemma split_go_last: "c \<notin> set a \<Longrightarrow> split_go (c # sep) acc a = [rev acc @ a]"
  by (induction a arbitrary: acc) (auto simp: startsWith_def)

lemma js_split_part: "c \<notin> set a \<Longrightarrow> js_split (a @ (c # sep) @ rest) (c # sep) = a # js_split rest (c # sep)"
  unfolding js_split_def by (subst split_go_part) simp_all

lemma js_split_last: "c \<notin> set a \<Longrightarrow> js_split a (c # sep) = [a]"
  unfolding js_split_def by (subst split_go_last) simp_all

section \<open>Wallets are kept\<close>

context sys_order
begin

lemma stays_say: "stays R (say r t)"
  unfolding say_def by (intro sys_rules)

lemma stays_remember: "stays R (remember X h t ts)"
  unfolding remember_def by (intro sys_rules)

lemma stays_recall: "stays R (recall X h n)"
  unfolding recall_def by (intro sys_rules)

end

context base_order
begin

lemma stays_dispatchTrade: "stays R (dispatchTrade X cmd h r)"
  unfolding dispatchTrade_def enqueueTrade_def by (intro base_rules stays_say)

end

lemmas keeps_facts = wallets.base_rules wallets.stays_say wallets.stays_remember wallets.stays_recall
  wallets.stays_now_ms wallets.stays_dispatchTrade fetchSolPrice_keeps getPortfolio_keeps ensure_keeps
  updateBalances_keeps toggleAuto_keeps setRisk_keeps

lemma price_reply_keeps: "stays wallets_kept (price_reply X r)"
  unfolding price_reply_def by (intro keeps_facts)

lemma portfolio_reply_keeps: "stays wallets_kept (portfolio_reply X h r)"
  unfolding portfolio_reply_def by (intro keeps_facts)

lemma dispatchAI_keeps: "stays wallets_kept (dispatchAI X t h r)"
  unfolding dispatchAI_def llm_exchange_def Let_def fetch_json_def
  by (intro keeps_facts price_reply_keeps portfolio_reply_keeps)

lemma run_command_keeps: "stays wallets_kept (run_command X m cmd)"
  unfolding run_command_def Let_def walletOf_def
  by (cases cmd) (auto intro!: keeps_facts price_reply_keeps portfolio_reply_keeps)

lemma handle_button_keeps: "handle_button X m b = Some act \<Longrightarrow> stays wallets_kept act"
  unfolding handle_button_def Let_def
  by (auto split: if_splits intro!: keeps_facts)

lemma handleMessage_keeps: "stays wallets_kept (handleMessage X m)"
proof -
  have "stays wallets_kept (handle_text X m)"
    unfolding handle_text_def Let_def by (intro keeps_facts run_command_keeps dispatchAI_keeps)
  then show ?thesis
    unfolding handleMessage_def by (auto split: option.splits if_splits intro: handle_button_keeps)
qed

section \<open>The agent process\<close>

text \<open>
  What happens in a running agent, one event at a time: a message is handled, a watched account
  changes, the firewall heals, and the outside world moves on its own in between.
\<close>

datatype 'x agent_event =
    Said "'x message"
  | SolMoved string
  | TokenMoved string
  | Healed
  | World 'x

fun agent_next :: "'x ext \<Rightarrow> 'x agent_event \<Rightarrow> 'x agent_state \<Rightarrow> 'x agent_state" where
  "agent_next X (Said m) s = snd (spawn (handleMessage X m) s)"
| "agent_next X (SolMoved h) s = snd (spawn (sol_changed X h) s)"
| "agent_next X (TokenMoved h) s = snd (spawn (token_changed X h) s)"
| "agent_next X Healed s = snd (spawn (heal_tick X) s)"
| "agent_next X (World x) s = s\<lparr>sys := x\<rparr>"

definition agent_step :: "'x ext \<Rightarrow> 'x agent_state \<Rightarrow> 'x agent_event \<Rightarrow> 'x agent_state \<Rightarrow> bool" where
  "agent_step X s e s' \<longleftrightarrow> s' = agent_next X e s"

definition agent_run :: "'x ext \<Rightarrow> 'x agent_event list \<Rightarrow> 'x agent_state \<Rightarrow> 'x agent_state" where
  "agent_run X es s = fold (agent_next X) es s"

definition has_address :: "string \<Rightarrow> string \<Rightarrow> 'x agent_state \<Rightarrow> bool" where
  "has_address h a s \<longleftrightarrow> (\<exists>u. find_user h s = Some u \<and> kp_public (u_wallet u) = a)"

lemma agent_next_keeps: "wallets_kept s (agent_next X e (s :: 'x agent_state))"
proof -
  have k: "wallets_kept s (snd (spawn m s))" if "stays wallets_kept m" for m :: "('x agent_state, unit) io"
    using wallets.stays_spawn[OF that] by (simp add: stays_def)
  have "stays wallets_kept (heal_tick X :: ('x agent_state, unit) io)"
    unfolding heal_tick_def by (intro wallets.base_rules wallets.stays_now_ms wallets.stays_modify wallets.R_hp)
  then show ?thesis
    by (cases e) (simp_all add: k handleMessage_keeps deposits_keep wallets.R_sys)
qed

interpretation agent: machine "has_address h a" "agent_step X" "has_address h a" for h a and X :: "'x ext"
proof unfold_locales
  fix s s' :: "'x agent_state" and e
  assume a: "has_address h a s" and st: "agent_step X s e s'"
  from a obtain u where u: "find_user h s = Some u" "kp_public (u_wallet u) = a" by (auto simp: has_address_def)
  with agent_next_keeps[of s X e] st obtain u' where "find_user h s' = Some u'" "u_wallet u' = u_wallet u"
    unfolding agent_step_def wallets_kept_def by blast
  with u show "has_address h a s'" by (simp add: has_address_def)
qed

lemma agent_run_iff: "agent.run X s es s' \<longleftrightarrow> s' = agent_run X es s"
  by (induction es arbitrary: s) (simp_all add: agent_run_def agent_step_def)

section \<open>Properties\<close>

text \<open>
  C5: The deposit address of a user does not change.  Once \<open>walletOf\<close> has answered an
  address, it answers the same one, without creating anything, after any further messages of
  anyone, account changes, healing and changes of the outside world.
\<close>

theorem deposit_address_stable:
  assumes "walletOf X h s = (Ok a, s1)"
  shows "walletOf X h (agent_run X es s1) = (Ok a, agent_run X es s1)"
proof -
  from assms obtain u where "ensure X h s = (Ok u, s1)" "a = kp_public (u_wallet u)"
    unfolding walletOf_def by (elim bnd_OkD) (auto simp: ret_def)
  then have "has_address h a s1" by (auto simp: has_address_def dest: ensure_found)
  then have "has_address h a (agent_run X es s1)" by (rule agent.run_inv) (simp add: agent_run_iff)
  then show ?thesis by (auto simp: has_address_def walletOf_def ensure_def bnd_def gets_def ret_def)
qed

text \<open>A message without a button from a handle, answered by a function that changes nothing.\<close>

definition silent :: "mem replier" where
  "silent = Some (\<lambda>t x. (Ok (), x))"

definition text_message :: "string \<Rightarrow> string \<Rightarrow> mem message" where
  "text_message h t = \<lparr>msg_handle = Some h, msg_text = Some t, msg_button = None, msg_reply = silent\<rparr>"

theorem deposit_address_stable_witness:
  "\<exists>a s1. walletOf mem_ext ''bob'' agent0 = (Ok a, s1) \<and>
     walletOf mem_ext ''bob'' (agent_run mem_ext [Said (text_message ''eve'' ''balance''), SolMoved ''bob''] s1) =
       (Ok a, agent_run mem_ext [Said (text_message ''eve'' ''balance''), SolMoved ''bob''] s1)"
proof -
  obtain u s1 where "ensure mem_ext ''bob'' agent0 = (Ok u, s1)" using mem_ensure by blast
  then have w: "walletOf mem_ext ''bob'' agent0 = (Ok (kp_public (u_wallet u)), s1)"
    by (simp add: walletOf_def bnd_def ret_def)
  show ?thesis using w deposit_address_stable[OF w] by blast
qed

lemma trade_text_plain:
  assumes "valid_mint m" and "valid_amount a" and "side = ''buy'' \<or> side = ''sell''"
    and "word = side \<or> word = CHR ''/'' # side"
  shows "stripMention h (trade_text word m a) = trade_text word m a"
proof (rule stripMention_plain)
  have "CHR ''@'' \<notin> set m" "CHR ''@'' \<notin> set a"
    using assms(1,2) by (auto simp: valid_mint_def valid_amount_def list_all_iff is_alnum_def is_alpha_def is_digit_def
        amount_char_def code_def)
  with assms(3,4) show "CHR ''@'' \<notin> set (trade_text word m a)" by (auto simp: trade_text_def)
  show "trade_text word m a \<noteq> []" by (simp add: trade_text_def)
  show "\<not> is_space (hd (trade_text word m a))"
    using assms(3,4) by (auto simp: trade_text_def is_space_def code_def)
  show "\<not> is_space (last (trade_text word m a))"
    using assms(2) amount_not_space by (auto simp: trade_text_def valid_amount_def list_all_iff)
qed

lemma trade_message_run:
  assumes "valid_mint mint" and "valid_amount amt" and "side = ''buy'' \<or> side = ''sell''"
    and "word = side \<or> word = CHR ''/'' # side"
    and "msg_text m = Some (trade_text word mint amt)" and "msg_button m = None"
  shows "handleMessage X m s = dispatchTrade X \<lparr>t_side = side, t_mint = Some mint, t_sol = to_number amt\<rparr>
      (msg_handle m) (msg_reply m) s"
  using parse_trade_text[OF assms(1-4)] trade_text_plain[OF assms(1-4)] assms(5,6)
  by (simp add: handleMessage_def truthy_def handle_text_def Let_def run_command_def)

context job_queues
begin

text \<open>A dispatched trade adds its job, provided replying adds none.\<close>

lemma dispatchTrade_queues:
  assumes "\<And>t x. jobs (snd (f t x)) = jobs x"
    and "dispatchTrade X c h (Some f) (s :: ('x, 'e) agent_state_scheme) = (Ok u, s')"
  shows "jobs (sys s') = jobs (sys s) @ [(''trades'', ''execute-trade'', trade_payload c h)] \<and> users s' = users s"
proof -
  from assms(2) obtain s1 where
    q: "enqueueTrade X (trade_payload c h) s = (Ok (), s1)"
    and sp: "spawn (say (Some f) (Trade_queued (t_side c) (t_sol c))) s1 = (Ok u, s')"
    unfolding dispatchTrade_def by (elim andthen_OkD) simp
  from q obtain x where x: "queue_add X ''trades'' ''execute-trade'' (trade_payload c h) (sys s) = (Ok (), x)"
    "s1 = s\<lparr>sys := x\<rparr>"
    by (auto simp: enqueueTrade_def ext_def split: prod.splits)
  have "sys s' = snd (f (Trade_queued (t_side c) (t_sol c)) x)" "users s' = users s"
    using sp x(2) by (auto simp: spawn_def say_def ext_def split: prod.splits res.splits)
  with assms(1) add_Ok[OF x(1)] show ?thesis by simp
qed

end

text \<open>
  A trade message queues exactly its trade.  When a handle sends the text of a trade and
  the handler returns, one job has been added, the trade of that side, mint and amount for that
  handle, and the users of the agent are as before; this holds whatever the agent's own handle
  is, provided replying adds no jobs.
\<close>

theorem trade_message_queues:
  assumes "job_queues X jobs"
    and "valid_mint mint" and "valid_amount amt" and "side = ''buy'' \<or> side = ''sell''"
    and "word = side \<or> word = CHR ''/'' # side"
    and "msg_text m = Some (trade_text word mint amt)" and "msg_button m = None"
    and "msg_reply m = Some f" and "\<And>t x. jobs (snd (f t x)) = jobs x"
    and "handleMessage X m s = (Ok u, s')"
  shows "jobs (sys s') = jobs (sys s) @
      [(''trades'', ''execute-trade'',
        trade_payload \<lparr>t_side = side, t_mint = Some mint, t_sol = to_number amt\<rparr> (msg_handle m))] \<and>
    users s' = users s"
proof -
  from trade_message_run[OF assms(2-7), of X s] assms(8,10) have "dispatchTrade X \<lparr>t_side = side, t_mint = Some mint, t_sol = to_number amt\<rparr>
      (msg_handle m) (Some f) s = (Ok u, s')" by simp
  with assms(1,9) show ?thesis by (rule job_queues.dispatchTrade_queues)
qed

theorem trade_message_queues_witness:
  "\<exists>s'. handleMessage mem_ext (text_message ''bob'' ''/sell So11111111111111111111111111111111111111112 0.5'') agent0 = (Ok (), s') \<and>
     m_jobs (sys s') = [(''trades'', ''execute-trade'',
        trade_payload \<lparr>t_side = ''sell'', t_mint = Some ''So11111111111111111111111111111111111111112'',
          t_sol = to_number ''0.5''\<rparr> (Some ''bob''))]"
proof -
  let ?mint = "''So11111111111111111111111111111111111111112''"
  let ?m = "text_message ''bob'' (trade_text ''/sell'' ?mint ''0.5'')"
  have v: "valid_mint ?mint" "valid_amount ''0.5''" by code_simp+
  have "\<exists>s'. handleMessage mem_ext ?m agent0 = (Ok (), s')"
    using parse_trade_text[OF v, of "''sell''" "''/sell''"] trade_text_plain[OF v, of "''sell''" "''/sell''"]
    by (simp add: text_message_def silent_def handleMessage_def truthy_def handle_text_def Let_def run_command_def
        dispatchTrade_def enqueueTrade_def andthen_def bnd_def ext_def spawn_def say_def mem_ext_def)
  then obtain s' where run: "handleMessage mem_ext ?m agent0 = (Ok (), s')" by blast
  from trade_message_queues[OF mem_job_queues.job_queues_axioms v, of "''sell''" "''/sell''" ?m "\<lambda>t x. (Ok (), x)" agent0 "()" s']
  have "m_jobs (sys s') = [(''trades'', ''execute-trade'',
        trade_payload \<lparr>t_side = ''sell'', t_mint = Some ?mint, t_sol = to_number ''0.5''\<rparr> (Some ''bob''))]"
    using run by (simp add: text_message_def silent_def agent0_def mem0_def)
  with run show ?thesis by (auto simp: trade_text_def)
qed

lemma say_find: "find_user h (snd (say r t s)) = find_user h s"
  by (auto simp: say_def throw_def ext_def split: option.splits prod.splits)

text \<open>
  C32: Preferences set by text.  A text read as a risk command always fails with a reference
  error and changes nothing, because the handler names an undefined variable.  A text read as
  an auto-trading command switches auto-trading on exactly when the matched word is in lower
  case: \<open>auto ON\<close>, which the pattern accepts, switches it off.
\<close>

theorem text_preferences:
  assumes "msg_button m = None" and "msg_text m = Some t" and "msg_handle m = Some h"
    and "find_user h s = Some u"
  shows "(parse_command (stripMention (TW_HANDLE X) t) = Some (Risk v) \<longrightarrow>
      handleMessage X m s = (Throw (RefErr ''handle is not defined''), s)) \<and>
    (parse_command (stripMention (TW_HANDLE X) t) = Some (Auto v) \<longrightarrow>
      find_user h (snd (handleMessage X m s)) = Some (u\<lparr>u_auto := (v = ''on'')\<rparr>))"
proof (intro conjI impI)
  assume "parse_command (stripMention (TW_HANDLE X) t) = Some (Risk v)"
  with assms(1,2) show "handleMessage X m s = (Throw (RefErr ''handle is not defined''), s)"
    by (simp add: handleMessage_def truthy_def handle_text_def run_command_def Let_def throw_def)
next
  assume "parse_command (stripMention (TW_HANDLE X) t) = Some (Auto v)"
  with assms(1-3) have eq: "handleMessage X m s =
      bnd (toggleAuto X h (Some (v = ''on''))) (\<lambda>r. say (msg_reply m) (Auto_reply (fst r))) s"
    by (simp add: handleMessage_def truthy_def handle_text_def run_command_def Let_def or_undefined_def)
  let ?f = "\<lambda>u. u\<lparr>u_auto := (v = ''on'')\<rparr>"
  obtain r s1 where run: "toggleAuto X h (Some (v = ''on'')) s = (r, s1)" by force
  with set_user_Some(1)[OF assms(4), where X=X and f="?f"] set_user_Some(2)[OF assms(4), where X=X and f="?f" and k=h]
  obtain b where "r = Ok b" "find_user h s1 = Some (?f u)"
    by (auto simp: toggleAuto_def)
  with run show "find_user h (snd (handleMessage X m s)) = Some (u\<lparr>u_auto := (v = ''on'')\<rparr>)"
    by (simp add: eq bnd_def say_find)
qed

theorem text_preferences_witness:
  "\<exists>s'. snd (handleMessage mem_ext (text_message ''bob'' ''auto ON'') holder0) = s' \<and>
     find_user ''bob'' s' = Some (bob\<lparr>u_auto := False\<rparr>) \<and> u_auto bob"
proof -
  have p: "parse_command (stripMention (TW_HANDLE mem_ext) ''auto ON'') = Some (Auto ''ON'')"
    by (simp add: TW_HANDLE_def mem_ext_def stripMention_def) code_simp
  have f: "find_user ''bob'' holder0 = Some bob" by (simp add: holder0_def find_user_def)
  show ?thesis
    using text_preferences[of "text_message ''bob'' ''auto ON''" "''auto ON''" "''bob''" holder0 bob mem_ext "''ON''"] p f
    by (simp add: text_message_def bob_def)
qed

text \<open>
  The fallback never fails.  A message that is no command is answered by the language
  model, or, whatever goes wrong on the way, by an apology: when the message has a reply
  function, the handler does not throw.
\<close>

theorem fallback_never_throws:
  assumes "msg_button m = None" and "msg_text m = Some t"
    and "parse_command (stripMention (TW_HANDLE X) t) = None" and "msg_reply m = Some f"
  shows "fst (handleMessage X m s) \<noteq> Throw e"
proof -
  have no: "\<not> rx_test PRICE_RX (stripMention (TW_HANDLE X) t)" "\<not> rx_test PORT_RX (stripMention (TW_HANDLE X) t)"
    using assms(3) by (auto simp: parse_command_def split: option.splits if_splits)
  have "handleMessage X m s = catch (llm_exchange X t (or_undefined (msg_handle m)) (Some f))
      (\<lambda>e. spawn (say (Some f) Brain_freeze)) s"
    using assms no by (simp add: handleMessage_def truthy_def handle_text_def dispatchAI_def Let_def)
  then show ?thesis
    by (simp add: catch_def spawn_always_Ok split: prod.splits res.splits)
qed

theorem fallback_never_throws_witness:
  "parse_command ''hello'' = None \<and>
   fst (handleMessage mem_ext (text_message ''bob'' ''hello'') agent0) \<noteq> Throw (Err ''fetch failed'')"
proof -
  have p: "parse_command ''hello'' = None" by code_simp
  then have "parse_command (stripMention (TW_HANDLE mem_ext) ''hello'') = None"
    by (simp add: TW_HANDLE_def mem_ext_def stripMention_def)
  with p show ?thesis
    using fallback_never_throws[of "text_message ''bob'' ''hello''" "''hello''" mem_ext "\<lambda>t x. (Ok (), x)" agent0]
    by (simp add: text_message_def silent_def)
qed

end
