(* ===== verification/Interleaving.thy ===== *)
theory Interleaving
  imports Agent
begin

text \<open>
  The operations of \<open>commands.js\<close> on users, cut at their \<open>await\<close>s.  The handlers of the
  other theories run from start to end; here a call runs up to its first \<open>await\<close>, leaves a
  task behind, and any other call may run before a task resumes.  A task holds what the
  continuation has captured: the fields handed to a write are those at the time of the call,
  the user object itself is shared and read when the task resumes.

  Lemmas: resuming at once gives the sequential definitions of \<open>Users\<close>; under every
  interleaving the addresses handed out for a handle agree and the preferences of a user are
  those of the last setter, whatever balance updates and deposits are under way.
\<close>

section \<open>Tasks\<close>

text \<open>What follows a write: the caller waits, nobody waits, or the deposit callback goes on.\<close>

datatype after_save = ToCaller | Unwatched | ThenSell

datatype after_new = GiveAddress | UpdateNext

datatype task =
    Save string fields after_save
  | Created string user after_new
  | Refresh string keypair
  | SolDeposit string keypair
  | TokenDeposit string keypair

record 'x loop_state = "'x agent_state" +
  tasks :: "task list"
  answers :: "(string \<times> string) list"   \<comment> \<open>the addresses \<open>walletOf\<close> has returned\<close>

definition fork :: "task \<Rightarrow> ('x loop_state, unit) io" where
  "fork t = modify (\<lambda>s. s\<lparr>tasks := tasks s @ [t]\<rparr>)"

definition answer :: "string \<Rightarrow> string \<Rightarrow> ('x loop_state, unit) io" where
  "answer h a = modify (\<lambda>s. s\<lparr>answers := answers s @ [(h, a)]\<rparr>)"

section \<open>Calls, up to the first await\<close>

definition create_user :: "'x ext \<Rightarrow> string \<Rightarrow> after_new \<Rightarrow> ('x loop_state, unit) io" where
  "create_user X h k =
     bnd (ext (kp_generate X)) (\<lambda>kp.
     andthen (put_user h (new_user kp)) (fork (Created h (new_user kp) k)))"

definition call_walletOf :: "'x ext \<Rightarrow> string \<Rightarrow> ('x loop_state, unit) io" where
  "call_walletOf X h =
     bnd (gets (find_user h)) (\<lambda>mu.
     case mu of Some u \<Rightarrow> answer h (kp_public (u_wallet u)) | None \<Rightarrow> create_user X h GiveAddress)"

definition call_updateBalances :: "'x ext \<Rightarrow> string \<Rightarrow> ('x loop_state, unit) io" where
  "call_updateBalances X h =
     bnd (gets (find_user h)) (\<lambda>mu.
     case mu of Some u \<Rightarrow> fork (Refresh h (u_wallet u)) | None \<Rightarrow> create_user X h UpdateNext)"

definition call_setter :: "string \<Rightarrow> (user \<Rightarrow> user) \<Rightarrow> ('x loop_state, unit) io" where
  "call_setter h f =
     bnd (gets (find_user h)) (\<lambda>mu.
     case mu of
       None \<Rightarrow> throw (TypeErr ''Cannot read properties of undefined'')
     | Some u \<Rightarrow> andthen (put_user h (f u)) (fork (Save h (user_fields (f u)) Unwatched)))"

definition call_deposit :: "(string \<Rightarrow> keypair \<Rightarrow> task) \<Rightarrow> string \<Rightarrow> ('x loop_state, unit) io" where
  "call_deposit t h =
     bnd (gets (find_user h)) (\<lambda>mu.
     case mu of None \<Rightarrow> ret () | Some u \<Rightarrow> fork (t h (u_wallet u)))"

section \<open>Resuming a task\<close>

text \<open>Assignments to the shared object, then the write with its current fields.\<close>

definition assign_user :: "string \<Rightarrow> (user \<Rightarrow> user) \<Rightarrow> after_save \<Rightarrow> ('x loop_state, unit) io" where
  "assign_user h f k =
     bnd (gets (find_user h)) (\<lambda>mu.
     case mu of
       None \<Rightarrow> ret ()
     | Some u \<Rightarrow> andthen (put_user h (f u)) (fork (Save h (user_fields (f u)) k)))"

definition refreshed ::
  "'x ext \<Rightarrow> keypair \<Rightarrow> (rat \<times> nat \<Rightarrow> ('x loop_state, unit) io) \<Rightarrow> ('x loop_state, unit) io" where
  "refreshed X w m = bnd (of_res (AGENT_MINT_PK X)) (\<lambda>mint. bnd (refreshBalances X w mint) m)"

text \<open>The end of the deposit callback: the flag and the balance are read after the write.\<close>

definition sell_if_auto :: "'x ext \<Rightarrow> string \<Rightarrow> ('x loop_state, unit) io" where
  "sell_if_auto X h =
     bnd (gets (find_user h)) (\<lambda>mu.
     case mu of
       None \<Rightarrow> ret ()
     | Some u \<Rightarrow>
         if u_auto u \<and> num_gt (u_sol u) (5 / 100)
         then enqueueTrade X (trade_payload \<lparr>t_side = ''sell'', t_mint = Some SOL_MINT, t_sol = Num (2 / 100)\<rparr> (Some h))
         else ret ())"

fun resume :: "'x ext \<Rightarrow> task \<Rightarrow> ('x loop_state, unit) io" where
  "resume X (Save h fs ToCaller) = upsertUser X h fs"
| "resume X (Save h fs Unwatched) = spawn (upsertUser X h fs)"
| "resume X (Save h fs ThenSell) = spawn (andthen (upsertUser X h fs) (sell_if_auto X h))"
| "resume X (Created h u k) =
     andthen (upsertUser X h (user_fields u))
       (case k of GiveAddress \<Rightarrow> answer h (kp_public (u_wallet u)) | UpdateNext \<Rightarrow> fork (Refresh h (u_wallet u)))"
| "resume X (Refresh h w) =
     refreshed X w (\<lambda>b. assign_user h (\<lambda>u. u\<lparr>u_sol := Num (fst b), u_tierBal := Num (of_nat (snd b))\<rparr>) ToCaller)"
| "resume X (SolDeposit h w) =
     spawn (refreshed X w (\<lambda>b. assign_user h (\<lambda>u. u\<lparr>u_sol := Num (fst b)\<rparr>) ThenSell))"
| "resume X (TokenDeposit h w) =
     spawn (refreshed X w (\<lambda>b. assign_user h (\<lambda>u. u\<lparr>u_tierBal := Num (of_nat (snd b))\<rparr>) ThenSell))"

section \<open>The event loop\<close>

datatype 'x loop_event =
    AskWallet string
  | AskBalances string
  | SetAuto string "bool option"
  | SetRisk string "string option"
  | SolChange string
  | TokenChange string
  | Resume nat
  | WorldMoves 'x

definition auto_setter :: "bool option \<Rightarrow> user \<Rightarrow> user" where
  "auto_setter st u = u\<lparr>u_auto := (case st of Some b \<Rightarrow> b | None \<Rightarrow> \<not> u_auto u)\<rparr>"

fun loop_next :: "'x ext \<Rightarrow> 'x loop_event \<Rightarrow> 'x loop_state \<Rightarrow> 'x loop_state" where
  "loop_next X (AskWallet h) s = snd (call_walletOf X h s)"
| "loop_next X (AskBalances h) s = snd (call_updateBalances X h s)"
| "loop_next X (SetAuto h st) s = snd (call_setter h (auto_setter st) s)"
| "loop_next X (SetRisk h level) s = snd (call_setter h (\<lambda>u. u\<lparr>u_risk := level\<rparr>) s)"
| "loop_next X (SolChange h) s = snd (call_deposit SolDeposit h s)"
| "loop_next X (TokenChange h) s = snd (call_deposit TokenDeposit h s)"
| "loop_next X (Resume i) s =
     (if i < length (tasks s)
      then snd (resume X (tasks s ! i) (s\<lparr>tasks := take i (tasks s) @ drop (Suc i) (tasks s)\<rparr>)) else s)"
| "loop_next X (WorldMoves x) s = s\<lparr>sys := x\<rparr>"

definition loop_run :: "'x ext \<Rightarrow> 'x loop_event list \<Rightarrow> 'x loop_state \<Rightarrow> 'x loop_state" where
  "loop_run X es s = fold (loop_next X) es s"

section \<open>Resuming at once is the sequential run\<close>

lemmas loop_simps = loop_run_def call_walletOf_def call_updateBalances_def call_setter_def call_deposit_def create_user_def
  fork_def answer_def assign_user_def refreshed_def

lemma tasks_same: "tasks s = ts \<Longrightarrow> s\<lparr>tasks := ts\<rparr> = s"
  by (cases s) simp

lemma walletOf_sequential:
  assumes "tasks s = []" and "walletOf X h s = (Ok a, s')"
  shows "loop_run X [AskWallet h, Resume 0] s = s'\<lparr>answers := answers s @ [(h, a)]\<rparr>"
proof (cases "find_user h s")
  case (Some u)
  with assms show ?thesis
    by (auto simp: loop_simps walletOf_def ensure_def bnd_def gets_def modify_def ret_def)
next
  case None
  with assms(2) obtain kp x where k: "kp_generate X (sys s) = (Ok kp, x)" and a: "a = kp_public kp"
    and p: "persist X h (new_user kp) (s\<lparr>sys := x, users := obj_put (users s) h (new_user kp)\<rparr>) = (Ok (), s')"
    by (auto simp: walletOf_def ensure_def bnd_def gets_def ext_def andthen_def put_user_run ret_def new_user_def
        split: prod.splits res.splits)
  from persist_only_sys[OF p] have "answers s' = answers s" by auto
  with None k a p assms(1) show ?thesis
    by (simp add: loop_simps bnd_def gets_def ext_def andthen_def put_user_run modify_def persist_def tasks_same new_user_def)
qed

lemma andthen_spawn: "andthen (spawn m) k s = k (snd (spawn m s))"
  using spawn_always_Ok[of m s] by (cases "spawn m s") (simp add: andthen_def bnd_def)

lemma setter_sequential:
  assumes "tasks s = []"
  shows "loop_run X [SetAuto h st, Resume 0] s = snd (toggleAuto X h st s)"
    and "loop_run X [SetRisk h level, Resume 0] s = snd (setRisk X h level s)"
proof -
  have "fold (loop_next X) [Resume 0] (snd (call_setter h f s)) = snd (set_user X h f s)" for f
  proof (cases "find_user h s")
    case (Some u)
    let ?s = "s\<lparr>users := obj_put (users s) h (f u)\<rparr>"
    have "set_user X h f s = (Ok (u_auto (f u), riskName (u_risk (f u))), snd (spawn (persist X h (f u)) ?s))"
      using Some by (simp add: set_user_def bnd_def gets_def andthen_spawn andthen_Ok[OF put_user_run] ret_def)
    with Some assms show ?thesis
      by (simp add: call_setter_def fork_def persist_def bnd_def gets_def andthen_def put_user_run modify_def tasks_same)
  qed (use assms in \<open>simp add: call_setter_def set_user_def bnd_def gets_def throw_def\<close>)
  then show "loop_run X [SetAuto h st, Resume 0] s = snd (toggleAuto X h st s)"
    "loop_run X [SetRisk h level, Resume 0] s = snd (setRisk X h level s)"
    by (simp_all add: loop_run_def toggleAuto_def setRisk_def auto_setter_def[abs_def])
qed

lemma refresh_sequential:
  assumes "tasks s = []" and "find_user h s = Some u" and "AGENT_MINT_PK X = Ok mint"
    and "refreshBalances X (u_wallet u) mint s = (Ok b, s1)"
    and "f = (\<lambda>b u. u\<lparr>u_sol := Num (fst b), u_tierBal := Num (of_nat (snd b))\<rparr>)"
    and "persist X h (f b u) (s1\<lparr>users := obj_put (users s1) h (f b u)\<rparr>) = (Ok (), s')"
  shows "loop_run X [Resume 0, Resume 0] (s\<lparr>tasks := [Refresh h (u_wallet u)]\<rparr>) = s'"
proof -
  obtain x where s1: "s1 = s\<lparr>sys := x\<rparr>" using refresh_only_sys[OF assms(4)] by blast
  with assms(2-6) show ?thesis
    by (simp add: loop_run_def refreshed_def assign_user_def fork_def bnd_def of_res_def gets_def andthen_def put_user_run
        modify_def persist_def assms(1) tasks_same)
qed

lemma updateBalances_sequential:
  assumes "tasks s = []" and "updateBalances X h s = (Ok b, s')"
  shows "\<exists>n\<le>3. loop_run X (AskBalances h # replicate n (Resume 0)) s = s'"
proof -
  let ?f = "\<lambda>b u. u\<lparr>u_sol := Num (fst b), u_tierBal := Num (of_nat (snd b))\<rparr>"
  from assms(2) obtain u s0 mint s1 where e: "ensure X h s = (Ok u, s0)" and m: "AGENT_MINT_PK X = Ok mint"
    and r: "refreshBalances X (u_wallet u) mint s0 = (Ok b, s1)"
    and p: "persist X h (?f b u) (s1\<lparr>users := obj_put (users s1) h (?f b u)\<rparr>) = (Ok (), s')"
    by (auto simp: updateBalances_def of_res_def ret_def andthen_def put_user_run Let_def elim!: bnd_OkD)
  show ?thesis
  proof (cases "find_user h s")
    case (Some v)
    with e have "s0 = s" "u = v" by (simp_all add: ensure_def bnd_def gets_def ret_def)
    with Some have "loop_run X (AskBalances h # replicate 2 (Resume 0)) s =
        loop_run X [Resume 0, Resume 0] (s\<lparr>tasks := [Refresh h (u_wallet u)]\<rparr>)"
      by (simp add: loop_run_def call_updateBalances_def fork_def bnd_def gets_def modify_def assms(1) numeral_2_eq_2)
    also have "\<dots> = s'"
      by (rule refresh_sequential[OF assms(1) _ m _ refl p]) (use Some r \<open>s0 = s\<close> \<open>u = v\<close> in simp_all)
    finally show ?thesis by (intro exI[of _ 2]) simp
  next
    case None
    with e obtain kp x where k: "kp_generate X (sys s) = (Ok kp, x)" and u: "u = new_user kp"
      and q: "persist X h (new_user kp) (s\<lparr>sys := x, users := obj_put (users s) h (new_user kp)\<rparr>) = (Ok (), s0)"
      by (auto simp: ensure_def bnd_def gets_def ext_def andthen_def put_user_run ret_def split: prod.splits res.splits)
    have t: "tasks s0 = []" using persist_only_sys[OF q] assms(1) by auto
    from None k q u have "loop_run X (AskBalances h # replicate 3 (Resume 0)) s =
        loop_run X [Resume 0, Resume 0] (s0\<lparr>tasks := [Refresh h (u_wallet u)]\<rparr>)"
      by (simp add: loop_run_def call_updateBalances_def create_user_def fork_def bnd_def gets_def ext_def andthen_def
          put_user_run modify_def assms(1) t numeral_3_eq_3 persist_def tasks_same)
    also have "\<dots> = s'"
      by (rule refresh_sequential[OF t ensure_found[OF e] m r refl p])
    finally show ?thesis by (intro exI[of _ 3]) simp
  qed
qed

lemma obj_put_twice: "obj_put (obj_put m k v) k v = obj_put m k v"
  by (induction m k v rule: obj_put.induct) auto

lemma sol_changed_sequential:
  assumes "tasks s = []" and "sol_changed X h s = (Ok (), s')"
  shows "\<exists>n\<le>2. loop_run X (SolChange h # replicate n (Resume 0)) s = s'"
proof (cases "find_user h s")
  case None
  with assms show ?thesis
    by (intro exI[of _ 0]) (simp add: loop_run_def call_deposit_def sol_changed_def account_changed_def bnd_def gets_def ret_def)
next
  case (Some u)
  with assms(2) obtain mint b s1 where m: "AGENT_MINT_PK X = Ok mint"
    and r: "refreshBalances X (u_wallet u) mint s = (Ok b, s1)"
    and o: "spawn (onUpdate X h (u\<lparr>u_sol := Num (fst b)\<rparr>))
      (s1\<lparr>users := obj_put (users s1) h (u\<lparr>u_sol := Num (fst b)\<rparr>)\<rparr>) = (Ok (), s')"
    by (auto simp: sol_changed_def account_changed_def gets_def of_res_def put_user_run elim!: bnd_OkD andthen_OkD)
  obtain x where s1: "s1 = s\<lparr>sys := x\<rparr>" using refresh_only_sys[OF r] by blast
  let ?u = "u\<lparr>u_sol := Num (fst b)\<rparr>" and ?s2 = "s1\<lparr>users := obj_put (users s1) h (u\<lparr>u_sol := Num (fst b)\<rparr>)\<rparr>"
  have "bnd (persist X h ?u) (\<lambda>_. sell_if_auto X h) ?s2 = onUpdate X h ?u ?s2"
  proof -
    obtain q s3 where p: "persist X h ?u ?s2 = (q, s3)" by force
    then obtain y where "s3 = ?s2\<lparr>sys := y\<rparr>" using persist_only_sys by blast
    then have "find_user h s3 = Some ?u" by (simp add: find_put)
    with p show ?thesis
      by (cases q) (simp_all add: onUpdate_def andthen_def bnd_def put_user_run obj_put_twice sell_if_auto_def gets_def)
  qed
  then have "spawn (bnd (upsertUser X h (user_fields ?u)) (\<lambda>_. sell_if_auto X h)) ?s2 = (Ok (), s')"
    using o by (simp add: persist_def spawn_def)
  moreover have "refreshed X (u_wallet u) (\<lambda>b. assign_user h (\<lambda>u. u\<lparr>u_sol := Num (fst b)\<rparr>) ThenSell) s =
      (Ok (), ?s2\<lparr>tasks := [Save h (user_fields ?u) ThenSell]\<rparr>)"
    using Some m r s1 assms(1)
    by (simp add: refreshed_def assign_user_def fork_def bnd_def of_res_def gets_def andthen_def put_user_run modify_def)
  ultimately have "loop_run X (SolChange h # replicate 2 (Resume 0)) s = s'"
    using Some assms(1) s1
    by (simp add: loop_run_def call_deposit_def fork_def bnd_Ok[OF gets_run] modify_def numeral_2_eq_2 spawn_Ok
        tasks_same andthen_def)
  then show ?thesis by (intro exI[of _ 2]) simp
qed

section \<open>What one event does\<close>

text \<open>Calls to the outside leave the users, the tasks and the answers alone.\<close>

definition still :: "'x loop_state \<Rightarrow> 'x loop_state \<Rightarrow> bool" where
  "still s s' \<longleftrightarrow> users s' = users s \<and> tasks s' = tasks s \<and> answers s' = answers s"

interpretation still: sol_order still
  by unfold_locales (simp_all add: still_def)

lemma still_find: "still s s' \<Longrightarrow> find_user h s' = find_user h s"
  by (simp add: still_def find_user_def)

lemma still_sell: "stays still (sell_if_auto X h)"
  unfolding sell_if_auto_def enqueueTrade_def by (intro still.base_rules)

text \<open>An assignment to a user that leaves the wallet and the preferences alone, with the write it starts.\<close>

definition balances_assigned :: "'x loop_state \<Rightarrow> 'x loop_state \<Rightarrow> bool" where
  "balances_assigned s s' \<longleftrightarrow>
     (\<exists>h u v k. find_user h s = Some u \<and> u_wallet v = u_wallet u \<and> u_auto v = u_auto u \<and> u_risk v = u_risk u \<and>
        s' = s\<lparr>users := obj_put (users s) h v, tasks := tasks s @ [Save h (user_fields v) k]\<rparr>)"

lemma assign_user_cases:
  assumes "\<And>u. u_wallet (f u) = u_wallet u \<and> u_auto (f u) = u_auto u \<and> u_risk (f u) = u_risk u"
  shows "\<exists>s'. assign_user h f k s = (Ok (), s') \<and> (s' = s \<or> balances_assigned s s')"
proof (cases "find_user h s")
  case (Some u)
  then have "assign_user h f k s = (Ok (), s\<lparr>users := obj_put (users s) h (f u), tasks := tasks s @ [Save h (user_fields (f u)) k]\<rparr>)"
    by (simp add: assign_user_def fork_def bnd_Ok[OF gets_run] andthen_Ok[OF put_user_run] modify_def)
  moreover have "balances_assigned s (s\<lparr>users := obj_put (users s) h (f u), tasks := tasks s @ [Save h (user_fields (f u)) k]\<rparr>)"
    unfolding balances_assigned_def using Some assms[of u] by blast
  ultimately show ?thesis by blast
qed (simp add: assign_user_def bnd_Ok[OF gets_run] ret_def)

lemma refreshed_cases:
  assumes "\<And>b u. u_wallet (f b u) = u_wallet u \<and> u_auto (f b u) = u_auto u \<and> u_risk (f b u) = u_risk u"
    and "refreshed X w (\<lambda>b. assign_user h (f b) k) s = (r, s')"
  shows "(r \<noteq> Ok () \<longrightarrow> still s s') \<and> (\<exists>s1. still s s1 \<and> (s' = s1 \<or> balances_assigned s1 s'))"
proof (cases "AGENT_MINT_PK X")
  case (Ok mint)
  obtain q s1 where q: "refreshBalances X w mint s = (q, s1)" by force
  have "still s s1" by (rule staysD[OF still.stays_refreshBalances q])
  show ?thesis
  proof (cases q)
    case (Ok b)
    from assign_user_cases[of "f b" h k s1] assms(1) obtain s2 where
      "assign_user h (f b) k s1 = (Ok (), s2)" "s2 = s1 \<or> balances_assigned s1 s2" by blast
    with assms(2) \<open>AGENT_MINT_PK X = Ok mint\<close> q Ok \<open>still s s1\<close> show ?thesis
      by (auto simp: refreshed_def bnd_def of_res_def)
  qed (use assms(2) Ok q \<open>still s s1\<close> in \<open>auto simp: refreshed_def bnd_def of_res_def\<close>)
qed (use assms(2) still.refl in \<open>auto simp: refreshed_def bnd_def of_res_def\<close>)

lemma spawn_refreshed_cases:
  assumes "\<And>b u. u_wallet (f b u) = u_wallet u \<and> u_auto (f b u) = u_auto u \<and> u_risk (f b u) = u_risk u"
  shows "\<exists>s1. still s s1 \<and> (snd (spawn (refreshed X w (\<lambda>b. assign_user h (f b) k)) s) = s1 \<or>
    balances_assigned s1 (snd (spawn (refreshed X w (\<lambda>b. assign_user h (f b) k)) s)))"
proof -
  obtain r s' where run: "refreshed X w (\<lambda>b. assign_user h (f b) k) s = (r, s')" by force
  show ?thesis
  proof (cases "r = Ok ()")
    case True
    with refreshed_cases[OF assms run] run show ?thesis by (auto simp: spawn_def)
  next
    case False
    with refreshed_cases[OF assms run] have "still s s'" by blast
    then have "still s (s'\<lparr>deferred := ds\<rparr>)" for ds using still.R_deferred still.trans by blast
    with run False show ?thesis by (cases r) (auto simp: spawn_def)
  qed
qed

text \<open>A resumed task: an assignment of balances, an answer, or the next step of a balance update.\<close>

lemma resume_cases:
  "\<exists>s1. still s s1 \<and>
     (snd (resume X t s) = s1 \<or> balances_assigned s1 (snd (resume X t s)) \<or>
      (\<exists>h u. t = Created h u GiveAddress \<and> snd (resume X t s) = s1\<lparr>answers := answers s1 @ [(h, kp_public (u_wallet u))]\<rparr>) \<or>
      (\<exists>h w. snd (resume X t s) = s1\<lparr>tasks := tasks s1 @ [Refresh h w]\<rparr>))"
proof (cases t)
  case (Save h fs k)
  have "stays still (resume X t)"
    unfolding Save by (cases k) (simp_all add: still.stays_upsertUser still.stays_spawn still.stays_andthen still_sell)
  then show ?thesis by (auto simp: stays_def)
next
  case (Created h u k)
  obtain r s1 where p: "upsertUser X h (user_fields u) s = (r, s1)" by force
  have "still s s1" by (rule staysD[OF still.stays_upsertUser p])
  with p Created show ?thesis
    by (cases r; cases k) (auto simp: andthen_def bnd_def answer_def fork_def modify_def)
next
  case (Refresh h w)
  obtain r s' where run: "resume X t s = (r, s')" by force
  have "\<exists>s1. still s s1 \<and> (s' = s1 \<or> balances_assigned s1 s')"
    using refreshed_cases[of "\<lambda>b u. u\<lparr>u_sol := Num (fst b), u_tierBal := Num (of_nat (snd b))\<rparr>" X w h ToCaller s r s']
      run Refresh by simp
  with run show ?thesis by auto
next
  case (SolDeposit h w)
  with spawn_refreshed_cases[of "\<lambda>b u. u\<lparr>u_sol := Num (fst b)\<rparr>" s X w h ThenSell] show ?thesis by auto
next
  case (TokenDeposit h w)
  with spawn_refreshed_cases[of "\<lambda>b u. u\<lparr>u_tierBal := Num (of_nat (snd b))\<rparr>" s X w h ThenSell] show ?thesis by auto
qed

lemma call_setter_run:
  "snd (call_setter h f s) =
     (case find_user h s of
        None \<Rightarrow> s
      | Some u \<Rightarrow> s\<lparr>users := obj_put (users s) h (f u), tasks := tasks s @ [Save h (user_fields (f u)) Unwatched]\<rparr>)"
  by (simp add: call_setter_def fork_def bnd_Ok[OF gets_run] andthen_Ok[OF put_user_run] modify_def throw_def split: option.splits)

lemma call_deposit_run:
  "snd (call_deposit t h s) =
     (case find_user h s of None \<Rightarrow> s | Some u \<Rightarrow> s\<lparr>tasks := tasks s @ [t h (u_wallet u)]\<rparr>)"
  by (simp add: call_deposit_def fork_def bnd_Ok[OF gets_run] modify_def ret_def split: option.splits)

lemma create_user_run:
  "snd (create_user X h k s) =
     (case kp_generate X (sys s) of
        (Ok kp, x) \<Rightarrow> s\<lparr>sys := x, users := obj_put (users s) h (new_user kp), tasks := tasks s @ [Created h (new_user kp) k]\<rparr>
      | (_, x) \<Rightarrow> s\<lparr>sys := x\<rparr>)"
  by (simp add: create_user_def fork_def bnd_def ext_def andthen_def put_user_run modify_def split: prod.splits res.splits)

lemma call_walletOf_run:
  "snd (call_walletOf X h s) =
     (case find_user h s of
        None \<Rightarrow> snd (create_user X h GiveAddress s)
      | Some u \<Rightarrow> s\<lparr>answers := answers s @ [(h, kp_public (u_wallet u))]\<rparr>)"
  by (simp add: call_walletOf_def answer_def bnd_Ok[OF gets_run] modify_def split: option.splits)

lemma call_updateBalances_run:
  "snd (call_updateBalances X h s) =
     (case find_user h s of
        None \<Rightarrow> snd (create_user X h UpdateNext s)
      | Some u \<Rightarrow> s\<lparr>tasks := tasks s @ [Refresh h (u_wallet u)]\<rparr>)"
  by (simp add: call_updateBalances_def fork_def bnd_Ok[OF gets_run] modify_def split: option.splits)

lemmas call_runs = call_setter_run call_deposit_run create_user_run call_walletOf_run call_updateBalances_run

lemma find_loop_frame [simp]:
  "find_user h (s\<lparr>tasks := ts\<rparr>) = find_user h s" "find_user h (s\<lparr>answers := as\<rparr>) = find_user h s"
  by (simp_all add: find_user_def)

section \<open>Preferences under interleaving\<close>

text \<open>The preferences of a user as a specification sees them: only its setters change them.\<close>

fun pref_step :: "string \<Rightarrow> 'x loop_event \<Rightarrow> bool \<times> string option \<Rightarrow> bool \<times> string option" where
  "pref_step h (SetAuto k st) p = (if k = h then (case st of Some b \<Rightarrow> b | None \<Rightarrow> \<not> fst p, snd p) else p)"
| "pref_step h (SetRisk k level) p = (if k = h then (fst p, level) else p)"
| "pref_step h _ p = p"

definition prefs_of :: "user \<Rightarrow> bool \<times> string option" where
  "prefs_of u = (u_auto u, u_risk u)"

lemma balances_assigned_find:
  assumes "balances_assigned s s'" and "find_user h s = Some u"
  shows "\<exists>v. find_user h s' = Some v \<and> u_wallet v = u_wallet u \<and> prefs_of v = prefs_of u"
  using assms unfolding balances_assigned_def
  by (auto simp: find_user_def map_of_obj_put prefs_of_def)

lemma find_put_sys:
  "find_user h' (s\<lparr>sys := x, users := obj_put (users s) h u\<rparr>) = (if h' = h then Some u else find_user h' s)"
  by (simp add: find_user_def map_of_obj_put)

lemma resume_find:
  assumes "find_user h s = Some u"
  shows "\<exists>v. find_user h (snd (resume X t s)) = Some v \<and> u_wallet v = u_wallet u \<and> prefs_of v = prefs_of u"
proof -
  obtain s1 where s1: "still s s1" and c: "snd (resume X t s) = s1 \<or> balances_assigned s1 (snd (resume X t s)) \<or>
      (\<exists>h u. t = Created h u GiveAddress \<and> snd (resume X t s) = s1\<lparr>answers := answers s1 @ [(h, kp_public (u_wallet u))]\<rparr>) \<or>
      (\<exists>h w. snd (resume X t s) = s1\<lparr>tasks := tasks s1 @ [Refresh h w]\<rparr>)"
    using resume_cases by blast
  from still_find[OF s1, of h] assms have f: "find_user h s1 = Some u" by simp
  from c f show ?thesis by (elim disjE) (auto dest: balances_assigned_find)
qed

lemma loop_next_find:
  assumes "find_user h s = Some u"
  shows "\<exists>v. find_user h (loop_next X e s) = Some v \<and> u_wallet v = u_wallet u \<and> prefs_of v = pref_step h e (prefs_of u)"
proof (cases "\<exists>i. e = Resume i")
  case True
  with assms resume_find[of h "s\<lparr>tasks := ts\<rparr>" u X for ts] show ?thesis by auto
next
  case False
  with assms show ?thesis
    by (cases e)
      (auto simp: call_runs find_put find_put_sys prefs_of_def auto_setter_def split: option.splits prod.splits res.splits)
qed

lemma loop_run_find:
  "find_user h s = Some u \<Longrightarrow>
   \<exists>v. find_user h (loop_run X es s) = Some v \<and> u_wallet v = u_wallet u \<and> prefs_of v = fold (pref_step h) es (prefs_of u)"
proof (induction es arbitrary: s u)
  case (Cons e es)
  from loop_next_find[OF Cons.prems, of X e] obtain v where v: "find_user h (loop_next X e s) = Some v"
    "u_wallet v = u_wallet u" "prefs_of v = pref_step h e (prefs_of u)" by blast
  with Cons.IH[OF v(1)] show ?case by (auto simp: loop_run_def)
qed (simp add: loop_run_def)

section \<open>Addresses under interleaving\<close>

definition loop_step :: "'x ext \<Rightarrow> 'x loop_state \<Rightarrow> 'x loop_event \<Rightarrow> 'x loop_state \<Rightarrow> bool" where
  "loop_step X s e s' \<longleftrightarrow> s' = loop_next X e s"

text \<open>Every address given, and every one a task is about to give, is that of the user in the map.\<close>

definition known_address :: "'x loop_state \<Rightarrow> string \<Rightarrow> string \<Rightarrow> bool" where
  "known_address s h a \<longleftrightarrow> (\<exists>u. find_user h s = Some u \<and> kp_public (u_wallet u) = a)"

definition addresses_ok :: "'x loop_state \<Rightarrow> bool" where
  "addresses_ok s \<longleftrightarrow>
     (\<forall>h a. (h, a) \<in> set (answers s) \<longrightarrow> known_address s h a) \<and>
     (\<forall>h u k. Created h u k \<in> set (tasks s) \<longrightarrow> known_address s h (kp_public (u_wallet u)))"

lemma known_address_next: "known_address s h a \<Longrightarrow> known_address (loop_next X e s) h a"
  unfolding known_address_def using loop_next_find by metis

text \<open>An event adds at most one answer and one pending creation, both of the user in the map.\<close>

lemma resume_adds:
  "set (answers (snd (resume X t s))) \<subseteq>
     set (answers s) \<union> {(h, kp_public (u_wallet u)) | h u. t = Created h u GiveAddress} \<and>
   {(h, u, k). Created h u k \<in> set (tasks (snd (resume X t s)))} \<subseteq> {(h, u, k). Created h u k \<in> set (tasks s)}"
proof -
  obtain s1 where s1: "still s s1" and c: "snd (resume X t s) = s1 \<or> balances_assigned s1 (snd (resume X t s)) \<or>
      (\<exists>h u. t = Created h u GiveAddress \<and> snd (resume X t s) = s1\<lparr>answers := answers s1 @ [(h, kp_public (u_wallet u))]\<rparr>) \<or>
      (\<exists>h w. snd (resume X t s) = s1\<lparr>tasks := tasks s1 @ [Refresh h w]\<rparr>)"
    using resume_cases by blast
  from s1 have "answers s1 = answers s" "tasks s1 = tasks s" by (simp_all add: still_def)
  with c show ?thesis
    by (elim disjE) (auto simp: balances_assigned_def)
qed

lemma resumed_ok:
  assumes ok: "addresses_ok s" and i: "i < length (tasks s)"
    and s0: "s0 = s\<lparr>tasks := take i (tasks s) @ drop (Suc i) (tasks s)\<rparr>"
  shows "addresses_ok (snd (resume X (tasks s ! i) s0))"
proof -
  let ?s' = "snd (resume X (tasks s ! i) s0)"
  have keep: "known_address s h a \<Longrightarrow> known_address ?s' h a" for h a
    using resume_find[of h s0 _ X "tasks s ! i"] unfolding known_address_def s0 by fastforce
  have t: "set (tasks s0) \<subseteq> set (tasks s)" "tasks s ! i \<in> set (tasks s)" "answers s0 = answers s"
    using i by (auto simp: s0 dest: in_set_takeD in_set_dropD)
  show ?thesis
    unfolding addresses_ok_def
  proof (intro conjI allI impI)
    fix h a assume "(h, a) \<in> set (answers ?s')"
    with resume_adds[of X "tasks s ! i" s0] t(3) consider "(h, a) \<in> set (answers s)"
      | u where "tasks s ! i = Created h u GiveAddress" "a = kp_public (u_wallet u)" by auto
    then have "known_address s h a"
      using ok t(2) unfolding addresses_ok_def by cases metis+
    then show "known_address ?s' h a" by (rule keep)
  next
    fix h u k assume "Created h u k \<in> set (tasks ?s')"
    with resume_adds[of X "tasks s ! i" s0] t(1) have "Created h u k \<in> set (tasks s)" by blast
    then show "known_address ?s' h (kp_public (u_wallet u))"
      using ok keep unfolding addresses_ok_def by blast
  qed
qed

lemma loop_next_ok:
  assumes "addresses_ok s"
  shows "addresses_ok (loop_next X e s)"
proof (cases "\<exists>i. e = Resume i")
  case True
  with assms show ?thesis by (auto simp: resumed_ok)
next
  case False
  let ?s' = "loop_next X e s"
  have new: "((h, a) \<in> set (answers ?s') \<longrightarrow> (h, a) \<in> set (answers s) \<or> known_address s h a) \<and>
      (Created h u k \<in> set (tasks ?s') \<longrightarrow> Created h u k \<in> set (tasks s) \<or> find_user h ?s' = Some u)" for h a u k
    using False
    by (cases e) (auto simp: call_runs known_address_def find_put_sys find_put split: option.splits prod.splits res.splits)
  then show ?thesis
    using assms known_address_next[of s _ _ X e] unfolding addresses_ok_def known_address_def by blast
qed

interpretation loop: machine "\<lambda>s. tasks s = [] \<and> answers s = []" "loop_step X" addresses_ok for X :: "'x ext"
  by unfold_locales (simp_all add: addresses_ok_def loop_step_def loop_next_ok[unfolded addresses_ok_def])

lemma loop_run_iff: "loop.run X s es s' \<longleftrightarrow> s' = loop_run X es s"
  by (induction es arbitrary: s) (simp_all add: loop_run_def loop_step_def)

section \<open>Properties\<close>

text \<open>
  C6: Addresses agree under interleaving.  However calls, resumed tasks and the outside world
  interleave, and also when a new handle is asked for several times before its creation has been
  stored, all addresses handed out for a handle are the same, and they are the address of the
  user the process knows at the end.
\<close>

theorem addresses_agree:
  assumes "tasks s = []" and "answers s = []"
    and "(h, a) \<in> set (answers (loop_run X es s))" and "(h, b) \<in> set (answers (loop_run X es s))"
  shows "a = b \<and> (\<exists>u. find_user h (loop_run X es s) = Some u \<and> kp_public (u_wallet u) = a)"
proof -
  have "addresses_ok s" using assms(1,2) by (intro loop.inv_init) simp
  then have "addresses_ok (loop_run X es s)" by (rule loop.run_inv) (simp add: loop_run_iff)
  then have "known_address (loop_run X es s) h a" "known_address (loop_run X es s) h b"
    using assms(3,4) by (auto simp: addresses_ok_def)
  then show ?thesis by (auto simp: known_address_def)
qed

definition loop0 :: "mem loop_state" where
  "loop0 = \<lparr>sys = mem0, deferred = [], hp = 20, lastIncident = 0, decimalsCache = [], subscribed = [], users = [],
     tasks = [], answers = []\<rparr>"

text \<open>Two requests for a new handle, the second one before the first has stored the user.\<close>

definition racing :: "mem loop_event list" where
  "racing = [AskWallet ''ann'', AskWallet ''ann'', Resume 0]"

lemma racing_answers:
  "answers (loop_run mem_ext racing loop0) = [(''ann'', ''K'' @ nat_digits 0), (''ann'', ''K'' @ nat_digits 0)]"
proof -
  let ?u = "new_user \<lparr>kp_public = ''K'' @ nat_digits 0, kp_secret = replicate 64 0\<rparr>"
  define t where "t = loop_next mem_ext (AskWallet ''ann'') (loop_next mem_ext (AskWallet ''ann'') loop0)"
  have k: "kp_generate mem_ext mem0 = (Ok \<lparr>kp_public = ''K'' @ nat_digits 0, kp_secret = replicate 64 0\<rparr>, mem0\<lparr>m_serial := 1\<rparr>)"
    by (simp add: mem_ext_def mem0_def)
  have t: "tasks t = [Created ''ann'' ?u GiveAddress]" "answers t = [(''ann'', ''K'' @ nat_digits 0)]"
    by (simp_all add: t_def call_runs loop0_def k find_user_def new_user_def)
  obtain s' where p: "persist mem_ext ''ann'' ?u (t\<lparr>tasks := []\<rparr>) = (Ok (), s')" using mem_persist by blast
  have "loop_run mem_ext racing loop0 = loop_next mem_ext (Resume 0) t"
    by (simp add: racing_def loop_run_def t_def del: loop_next.simps)
  with p persist_only_sys[OF p] t show ?thesis
    by (auto simp: persist_def andthen_def bnd_def answer_def modify_def new_user_def)
qed

theorem addresses_agree_witness:
  "\<exists>u. find_user ''ann'' (loop_run mem_ext racing loop0) = Some u \<and> kp_public (u_wallet u) = ''K'' @ nat_digits 0"
  using addresses_agree[of loop0 "''ann''" "''K'' @ nat_digits 0" mem_ext racing "''K'' @ nat_digits 0"] racing_answers
  by (simp add: loop0_def)

text \<open>
  C16: Preferences under interleaving.  However balance updates, deposits, writes and other
  calls interleave, the automatic-trading flag and the risk level of a known user are at the end
  what its setters alone, in their order, make of them, and its wallet is the same: no update
  that was under way when a preference was set brings the old value back.
\<close>

theorem preferences_interleave:
  assumes "find_user h s = Some u"
  shows "\<exists>v. find_user h (loop_run X es s) = Some v \<and> u_wallet v = u_wallet u \<and>
    (u_auto v, u_risk v) = fold (pref_step h) es (u_auto u, u_risk u)"
  using loop_run_find[OF assms, of X es] by (simp add: prefs_of_def)

text \<open>The flag is switched off while a balance update and a deposit are under way.\<close>

theorem preferences_interleave_witness:
  "\<exists>v. find_user ''bob'' (loop_run market_ext
       [AskBalances ''bob'', SolChange ''bob'', SetAuto ''bob'' (Some False), Resume 0, Resume 0, Resume 0]
       (loop0\<lparr>users := [(''bob'', bob)]\<rparr>)) = Some v \<and> \<not> u_auto v \<and> u_risk v = Some ''low''"
proof -
  have "find_user ''bob'' (loop0\<lparr>users := [(''bob'', bob)]\<rparr>) = Some bob" by (simp add: find_user_def)
  from preferences_interleave[OF this, of market_ext
      "[AskBalances ''bob'', SolChange ''bob'', SetAuto ''bob'' (Some False), Resume 0, Resume 0, Resume 0]"]
  show ?thesis by (auto simp: bob_def)
qed

end
