(* ===== verification/Workers.thy ===== *)
theory Workers
  imports Commands
begin

text \<open>
  The job processes.  \<open>worker.js\<close> and \<open>metrics.js\<close> each start a worker for the
  queues \<open>trades\<close> and \<open>llm\<close>; the second counts and times its jobs for Prometheus,
  serves the figures over HTTP and follows the firewall's events.  The metrics registry and the
  Telegram client are packages: their operations are the record \<open>'x prom\<close>, an argument of
  the definitions, with the laws of \<open>prom_registry\<close>.  The check mark in the notices stands
  as \<open>[ok]\<close>.

  Lemmas: a trade job never reaches its trade, since the key it reads was removed from the
  user object; the settlement of a trade is the same in both workers and ignores the mint
  of a sale; every job is counted once and timed once with its outcome passed on; the gauge
  shows the points the firewall published.
\<close>

section \<open>Trade jobs\<close>

definition env_number :: "'x ext \<Rightarrow> string \<Rightarrow> jsnum" where
  "env_number X k = (case procenv X k of None \<Rightarrow> NaN | Some v \<Rightarrow> to_number v)"

definition TELEGRAM_API :: "'x ext \<Rightarrow> string" where
  "TELEGRAM_API X = ''https://api.telegram.org/bot'' @ or_undefined (procenv X ''TELEGRAM_BOT_TOKEN'')"

text \<open>A JSON member whose value may be \<open>undefined\<close>, and then is left out.\<close>

definition val_member :: "string \<Rightarrow> jsval \<Rightarrow> (string \<times> json) list" where
  "val_member k v = (case v of None \<Rightarrow> [] | Some j \<Rightarrow> [(k, j)])"

definition notifyTelegram :: "'x ext \<Rightarrow> jsval \<Rightarrow> string \<Rightarrow> (('x, 'e) base_scheme, unit) io" where
  "notifyTelegram X chatId text =
     catch (andthen (ext (http_fetch X (post_json (TELEGRAM_API X @ ''/sendMessage'')
              (JObj (val_member ''chat_id'' chatId @
                     [(''text'', JStr text), (''parse_mode'', JStr ''Markdown'')]))))) (ret ()))
           (\<lambda>e. ret ())"

text \<open>\<open>Keypair.fromSecretKey(Uint8Array.from(JSON.parse(data.wallet)))\<close>\<close>

definition wallet_of_data :: "'x ext \<Rightarrow> (string \<times> string) list \<Rightarrow> keypair res" where
  "wallet_of_data X d =
     bind_res (JSON_parse (or_undefined (map_of d ''wallet''))) (\<lambda>j.
     bind_res (uint8_from j) (kp_fromSecretKey X))"

definition load_wallet :: "'x ext \<Rightarrow> jsval \<Rightarrow> (('x, 'e) base_scheme, keypair) io" where
  "load_wallet X handle =
     bnd (getUser X (jsval_string handle)) (\<lambda>data.
     case data of
       None \<Rightarrow> throw (Err (''User '' @ jsval_string handle @ '' not found''))
     | Some d \<Rightarrow> of_res (wallet_of_data X d))"

definition burn_fuel :: "'x ext \<Rightarrow> keypair \<Rightarrow> (('x, 'e) sol_state_scheme, unit) io" where
  "burn_fuel X wallet =
     bnd (of_res (NXR_MINT X)) (\<lambda>mint.
     bnd (quoteSOLto X mint (num_mul (env_number X ''MIN_NXR_SOL'') (Num LAMPORTS_PER_SOL))) (\<lambda>fuelRoute.
     andthen (executeSwap X fuelRoute wallet)
    (bnd (of_res (get_prop (Some fuelRoute) ''outAmount'')) (\<lambda>out.
     burnAndDev X wallet (js_number out) (env_number X ''NXR_BURN_PCT'')))))"

definition store_balances :: "'x ext \<Rightarrow> keypair \<Rightarrow> jsval \<Rightarrow> (('x, 'e) base_scheme, unit) io" where
  "store_balances X wallet handle =
     bnd (of_res (publicKey_of X (or_undefined (procenv X ''AGENT_MINT'')))) (\<lambda>mint.
     bnd (refreshBalances X wallet mint) (\<lambda>(sol, agentLamports).
     upsertUser X (jsval_string handle)
       [(''sol'', Some (num_to_string (Num sol))), (''tierBal'', Some (num_to_string (Num (of_nat agentLamports))))]))"

text \<open>\<open>cmd.t === 'buy' ? cmd.mint : SOL\<close> and \<open>cmd.sol * LAMPORTS_PER_SOL\<close>\<close>

definition trade_mint :: "jsval \<Rightarrow> string res" where
  "trade_mint cmd =
     bind_res (get_prop cmd ''t'') (\<lambda>t.
     if t = Some (JStr ''buy'') then map_Ok jsval_string (get_prop cmd ''mint'') else Ok SOL_MINT)"

definition trade_lamports :: "jsval \<Rightarrow> jsnum res" where
  "trade_lamports cmd =
     bind_res (get_prop cmd ''sol'') (\<lambda>v. Ok (num_mul (js_number v) (Num LAMPORTS_PER_SOL)))"

text \<open>Steps 2 to 4 of the trade job of \<open>worker.js\<close>.\<close>

definition settle_trade :: "'x ext \<Rightarrow> keypair \<Rightarrow> jsval \<Rightarrow> jsval \<Rightarrow> (('x, 'e) sol_state_scheme, unit) io" where
  "settle_trade X wallet cmd handle =
     andthen (burn_fuel X wallet)
    (bnd (of_res (trade_lamports cmd)) (\<lambda>lamports.
     bnd (of_res (trade_mint cmd)) (\<lambda>mintAddr.
     bnd (quoteSOLto X mintAddr lamports) (\<lambda>route.
     andthen (executeSwap X route wallet)
             (store_balances X wallet handle)))))"

text \<open>\<open>${cmd.t} ${cmd.sol} SOL\<close>\<close>

definition trade_label :: "jsval \<Rightarrow> string res" where
  "trade_label cmd =
     bind_res (get_prop cmd ''t'') (\<lambda>t.
     bind_res (get_prop cmd ''sol'') (\<lambda>sol. Ok (jsval_string t @ '' '' @ jsval_string sol @ '' SOL'')))"

definition backtick :: string where
  "backtick = [char_of (96 :: nat)]"

definition trade_job :: "'x ext \<Rightarrow> jsval \<Rightarrow> (('x, 'e) sol_state_scheme, unit) io" where
  "trade_job X data =
     bnd (of_res (get_prop data ''cmd'')) (\<lambda>cmd.
     bnd (of_res (get_prop data ''handle'')) (\<lambda>handle.
     bnd (load_wallet X handle) (\<lambda>wallet.
     andthen (settle_trade X wallet cmd handle)
    (bnd (of_res (trade_label cmd)) (\<lambda>l.
     notifyTelegram X handle (''[ok] *Trade executed:* '' @ backtick @ l @ backtick))))))"

section \<open>Language-model jobs\<close>

definition llm_prompt :: "'x ext \<Rightarrow> string \<Rightarrow> string \<Rightarrow> string" where
  "llm_prompt X persona text =
     persona @ nl @ ''Goals: '' @ GOALS X @ nl @ nl @ ''User: '' @ text @ nl @ ''AI:''"

definition ask_llm :: "'x ext \<Rightarrow> jsval \<Rightarrow> (('x, 'e) base_scheme, string) io" where
  "ask_llm X text =
     bnd (of_res (PERSONA X)) (\<lambda>persona.
     bnd (fetch_json X (post_json (or_undefined (procenv X ''OLLAMA_URL''))
            (JObj (opt_member ''model'' (procenv X ''OLLAMA_MODEL'') @
                   [(''prompt'', JStr (llm_prompt X persona (jsval_string text))), (''stream'', JBool False)])))) (\<lambda>j.
     of_res (read_answer j)))"

definition llm_job :: "'x ext \<Rightarrow> jsval \<Rightarrow> (('x, 'e) base_scheme, unit) io" where
  "llm_job X data =
     bnd (of_res (get_prop data ''text'')) (\<lambda>text.
     bnd (of_res (get_prop data ''handle'')) (\<lambda>handle.
     bnd (ask_llm X text) (\<lambda>reply.
     notifyTelegram X handle reply)))"

section \<open>Metrics\<close>

record 'x prom =
  counter_inc :: "string \<Rightarrow> string \<Rightarrow> ('x, unit) io"
  timer_start :: "string \<Rightarrow> ('x, nat) io"
  timer_end :: "string \<Rightarrow> nat \<Rightarrow> ('x, unit) io"
  gauge_set :: "string \<Rightarrow> jsval \<Rightarrow> ('x, unit) io"
  registry_text :: "('x, string) io"
  tg_sendMessage :: "string \<Rightarrow> string \<Rightarrow> ('x, unit) io"

text \<open>The metrics the process registers.\<close>

datatype metric_kind = Counter "string list" | Histogram "rat list" | Gauge

record metric =
  mt_kind :: metric_kind
  mt_name :: string
  mt_help :: string

definition tradeJobsTotal :: metric where
  "tradeJobsTotal = \<lparr>mt_kind = Counter [''status''], mt_name = ''trade_jobs_total'',
     mt_help = ''Total number of trade jobs processed''\<rparr>"

definition tradeJobDuration :: metric where
  "tradeJobDuration = \<lparr>mt_kind = Histogram [1 / 10, 5 / 10, 1, 2, 5], mt_name = ''trade_job_duration_seconds'',
     mt_help = ''Duration of trade job execution in seconds''\<rparr>"

definition llmJobsTotal :: metric where
  "llmJobsTotal = \<lparr>mt_kind = Counter [''status''], mt_name = ''llm_jobs_total'',
     mt_help = ''Total number of LLM jobs processed''\<rparr>"

definition llmJobDuration :: metric where
  "llmJobDuration = \<lparr>mt_kind = Histogram [1 / 100, 5 / 100, 1 / 10, 5 / 10, 1], mt_name = ''llm_job_duration_seconds'',
     mt_help = ''Duration of LLM job execution in seconds''\<rparr>"

definition firewallHp :: metric where
  "firewallHp = \<lparr>mt_kind = Gauge, mt_name = ''firewall_hp'', mt_help = ''Current firewall HP''\<rparr>"

definition registered :: "metric list" where
  "registered = [tradeJobsTotal, tradeJobDuration, llmJobsTotal, llmJobDuration, firewallHp]"

fun buckets :: "metric_kind \<Rightarrow> rat list" where
  "buckets (Histogram bs) = bs"
| "buckets _ = []"

text \<open>No name is registered twice and the buckets increase, as the registry demands.\<close>

lemma registered_ok:
  "distinct (map mt_name registered) \<and> (\<forall>m\<in>set registered. sorted_wrt (<) (buckets (mt_kind m)))"
  by (simp add: registered_def tradeJobsTotal_def tradeJobDuration_def llmJobsTotal_def llmJobDuration_def firewallHp_def)

lemma metric_names [simp]:
  "mt_name tradeJobsTotal = ''trade_jobs_total''" "mt_name tradeJobDuration = ''trade_job_duration_seconds''"
  "mt_name llmJobsTotal = ''llm_jobs_total''" "mt_name llmJobDuration = ''llm_job_duration_seconds''"
  "mt_name firewallHp = ''firewall_hp''"
  by (simp_all add: tradeJobsTotal_def tradeJobDuration_def llmJobsTotal_def llmJobDuration_def firewallHp_def)

definition METRICS_PORT :: "'x ext \<Rightarrow> string" where
  "METRICS_PORT X = (if truthy (procenv X ''METRICS_PORT'') then the (procenv X ''METRICS_PORT'') else ''9201'')"

text \<open>\<open>try { job; inc success } catch { inc failure; rethrow } finally { end() }\<close>\<close>

definition withMetrics ::
  "'x prom \<Rightarrow> string \<Rightarrow> string \<Rightarrow> (('x, 'e) base_scheme, unit) io \<Rightarrow> (('x, 'e) base_scheme, unit) io" where
  "withMetrics P counter histogram jobFn =
     bnd (ext (timer_start P histogram)) (\<lambda>t.
     bnd (catch (andthen (catch (andthen jobFn (ext (counter_inc P counter ''success'')))
                            (\<lambda>err. andthen (ext (counter_inc P counter ''failure'')) (throw err)))
                         (ret None))
                (\<lambda>e. ret (Some e))) (\<lambda>outcome.
     andthen (ext (timer_end P histogram t))
             (case outcome of None \<Rightarrow> ret () | Some e \<Rightarrow> throw e)))"

text \<open>\<open>tg\<close> is \<open>null\<close> when \<open>USE_TELEGRAM\<close> is \<open>false\<close>.\<close>

definition notify_metrics :: "'x ext \<Rightarrow> 'x prom \<Rightarrow> jsval \<Rightarrow> string \<Rightarrow> (('x, 'e) base_scheme, unit) io" where
  "notify_metrics X P handle text =
     (if procenv X ''USE_TELEGRAM'' \<noteq> Some ''false''
      then ext (tg_sendMessage P (CHR ''@'' # jsval_string handle) text) else ret ())"

text \<open>The body of the trade job of \<open>metrics.js\<close> after the wallet is loaded.\<close>

definition settle_trade_m :: "'x ext \<Rightarrow> keypair \<Rightarrow> jsval \<Rightarrow> jsval \<Rightarrow> (('x, 'e) sol_state_scheme, unit) io" where
  "settle_trade_m X wallet cmd handle =
     bnd (of_res (trade_lamports cmd)) (\<lambda>lamports.
     bnd (of_res (trade_mint cmd)) (\<lambda>mint.
     andthen (burn_fuel X wallet)
    (bnd (quoteSOLto X mint lamports) (\<lambda>route.
     andthen (executeSwap X route wallet)
             (store_balances X wallet handle)))))"

definition trade_job_m :: "'x ext \<Rightarrow> 'x prom \<Rightarrow> jsval \<Rightarrow> (('x, 'e) sol_state_scheme, unit) io" where
  "trade_job_m X P data =
     withMetrics P (mt_name tradeJobsTotal) (mt_name tradeJobDuration)
       (bnd (of_res (get_prop data ''cmd'')) (\<lambda>cmd.
        bnd (of_res (get_prop data ''handle'')) (\<lambda>handle.
        bnd (load_wallet X handle) (\<lambda>wallet.
        andthen (settle_trade_m X wallet cmd handle)
       (if procenv X ''USE_TELEGRAM'' \<noteq> Some ''false''
        then bnd (of_res (trade_label cmd)) (\<lambda>l. notify_metrics X P handle (''[ok] [Trade] '' @ l))
        else ret ())))))"

definition llm_job_m :: "'x ext \<Rightarrow> 'x prom \<Rightarrow> jsval \<Rightarrow> (('x, 'e) base_scheme, unit) io" where
  "llm_job_m X P data =
     withMetrics P (mt_name llmJobsTotal) (mt_name llmJobDuration)
       (bnd (of_res (get_prop data ''text'')) (\<lambda>text.
        bnd (of_res (get_prop data ''handle'')) (\<lambda>handle.
        bnd (ask_llm X text) (\<lambda>reply. notify_metrics X P handle reply))))"

text \<open>The subscriber of \<open>nexus.events\<close>: every error is swallowed.\<close>

definition firewall_event :: "'x prom \<Rightarrow> string \<Rightarrow> (('x, 'e) base_scheme, unit) io" where
  "firewall_event P msg =
     catch (bnd (of_res (JSON_parse msg)) (\<lambda>e.
            bnd (of_res (get_prop (Some e) ''event'')) (\<lambda>ev.
            if ev = Some (JStr ''firewall'') then
              bnd (of_res (get_prop (Some e) ''hp'')) (\<lambda>h. ext (gauge_set P (mt_name firewallHp) h))
            else ret ())))
           (\<lambda>e. ret ())"

text \<open>The HTTP server: status and body.\<close>

definition metrics_request :: "'x prom \<Rightarrow> string \<Rightarrow> (('x, 'e) base_scheme, nat \<times> string) io" where
  "metrics_request P url =
     (if url = ''/metrics'' then bnd (ext (registry_text P)) (\<lambda>t. ret (200, t)) else ret (404, []))"

section \<open>Laws of the registry\<close>

text \<open>
  \<open>counts x\<close> are the values of the labelled counters and \<open>observed x\<close> the number of
  observations of each histogram.  Incrementing and timing do not fail.
\<close>

locale prom_registry =
  fixes P :: "'x prom" and counts :: "'x \<Rightarrow> string \<times> string \<Rightarrow> nat" and observed :: "'x \<Rightarrow> string \<Rightarrow> nat"
  assumes inc: "\<exists>x'. counter_inc P n l x = (Ok (), x') \<and>
      counts x' = (counts x)((n, l) := Suc (counts x (n, l))) \<and> observed x' = observed x"
    and start: "\<exists>t x'. timer_start P n x = (Ok t, x') \<and> counts x' = counts x \<and> observed x' = observed x"
    and stop: "\<exists>x'. timer_end P n t x = (Ok (), x') \<and>
      counts x' = counts x \<and> observed x' = (observed x)(n := Suc (observed x n))"
begin

definition unmetered :: "(('x, 'e) base_scheme, unit) io \<Rightarrow> bool" where
  "unmetered job \<longleftrightarrow> (\<forall>s. counts (sys (snd (job s))) = counts (sys s) \<and> observed (sys (snd (job s))) = observed (sys s))"

lemma withMetrics_counts:
  assumes u: "unmetered job" and run: "withMetrics P c h job s = (r, s')" and r: "\<And>k. r \<noteq> Exit k"
  obtains s2 where "job (s\<lparr>sys := snd (timer_start P h (sys s))\<rparr>) = (r, s2)"
    and "counts (sys s') = (counts (sys s))
      ((c, if is_Ok r then ''success'' else ''failure'') := Suc (counts (sys s) (c, if is_Ok r then ''success'' else ''failure'')))"
    and "observed (sys s') = (observed (sys s))(h := Suc (observed (sys s) h))"
proof -
  obtain t x1 where t: "timer_start P h (sys s) = (Ok t, x1)" "counts x1 = counts (sys s)" "observed x1 = observed (sys s)"
    using start by blast
  let ?s1 = "s\<lparr>sys := x1\<rparr>"
  obtain rj s2 where j: "job ?s1 = (rj, s2)" by force
  have k: "counts (sys s2) = counts (sys s)" "observed (sys s2) = observed (sys s)"
    using u t(2,3) j by (auto simp: unmetered_def dest!: spec[of _ ?s1])
  let ?l = "if is_Ok rj then ''success'' else ''failure''"
  obtain x3 where i: "counter_inc P c ?l (sys s2) = (Ok (), x3)"
      "counts x3 = (counts (sys s2))((c, ?l) := Suc (counts (sys s2) (c, ?l)))" "observed x3 = observed (sys s2)"
    using inc by blast
  obtain x4 where e: "timer_end P h t x3 = (Ok (), x4)" "counts x4 = counts x3"
      "observed x4 = (observed x3)(h := Suc (observed x3 h))"
    using stop by blast
  have "r = rj \<and> s' = s2\<lparr>sys := x4\<rparr>"
    using run r t(1) j i(1) e(1)
    by (cases rj) (auto simp: withMetrics_def bnd_def andthen_def catch_def ext_def ret_def throw_def)
  with that[of s2] j t k i e show thesis by simp
qed

end

text \<open>A registry kept in the list of published messages of the in-memory services.\<close>

definition mem_prom :: "mem prom" where
  "mem_prom = \<lparr>
     counter_inc = (\<lambda>n l x. (Ok (), x\<lparr>m_pub := m_pub x @ [(CHR ''c'' # n, l)]\<rparr>)),
     timer_start = (\<lambda>n x. (Ok 0, x)),
     timer_end = (\<lambda>n t x. (Ok (), x\<lparr>m_pub := m_pub x @ [(CHR ''h'' # n, [])]\<rparr>)),
     gauge_set = (\<lambda>n v x. case v of
        Some (JNum q) \<Rightarrow> (Ok (), x\<lparr>m_pub := m_pub x @ [(CHR ''g'' # n, rat_to_string q)]\<rparr>)
      | _ \<Rightarrow> (Throw (TypeErr ''Value is not a valid number''), x)),
     registry_text = (\<lambda>x. (Ok [], x)),
     tg_sendMessage = (\<lambda>c t x. (Ok (), x))\<rparr>"

definition mem_counts :: "mem \<Rightarrow> string \<times> string \<Rightarrow> nat" where
  "mem_counts x nl' = count_list (m_pub x) (CHR ''c'' # fst nl', snd nl')"

definition mem_observed :: "mem \<Rightarrow> string \<Rightarrow> nat" where
  "mem_observed x n = length (filter (\<lambda>p. fst p = CHR ''h'' # n) (m_pub x))"

interpretation mem_registry: prom_registry mem_prom mem_counts mem_observed
  by unfold_locales (auto simp: mem_prom_def mem_counts_def mem_observed_def fun_eq_iff)

section \<open>Properties\<close>

lemma JSON_parse_undefined: "JSON_parse ''undefined'' = Throw (SyntaxErr ''Unexpected token'')"
  by code_simp

lemma no_wallet: "map_of (delete_field k d) k = None"
  by (induction d) (auto simp: delete_field_def)

text \<open>What the trade job does, by the answer of Redis.\<close>

lemma trade_job_run:
  assumes "redis_hgetall X (user_key (jsval_string (map_of fs ''handle''))) (sys s) = (rg, x)"
  shows "trade_job X (Some (JObj fs)) s = (case rg of
      Ok d \<Rightarrow> (Throw (if d = [] then Err (''User '' @ jsval_string (map_of fs ''handle'') @ '' not found'')
                   else SyntaxErr ''Unexpected token''), s\<lparr>sys := x\<rparr>)
    | Throw e \<Rightarrow> (Throw e, s\<lparr>sys := x\<rparr>) | Exit c \<Rightarrow> (Exit c, s\<lparr>sys := x\<rparr>))"
proof -
  let ?h = "map_of fs ''handle''"
  have w: "wallet_of_data X (delete_field ''wallet'' d) = Throw (SyntaxErr ''Unexpected token'')" for d
    by (simp add: wallet_of_data_def no_wallet or_undefined_def JSON_parse_undefined)
  have "load_wallet X ?h s = (case rg of
      Ok d \<Rightarrow> (Throw (if d = [] then Err (''User '' @ jsval_string ?h @ '' not found'') else SyntaxErr ''Unexpected token''), s\<lparr>sys := x\<rparr>)
    | Throw e \<Rightarrow> (Throw e, s\<lparr>sys := x\<rparr>) | Exit c \<Rightarrow> (Exit c, s\<lparr>sys := x\<rparr>))"
    using assms by (cases rg) (simp_all add: load_wallet_def getUser_def bnd_def ext_def ret_def throw_def of_res_def w)
  then show ?thesis by (cases rg) (simp_all add: trade_job_def bnd_def of_res_def)
qed

text \<open>
  C33: A trade job never trades.  Whatever the payload and the state, the job of
  \<open>worker.js\<close> does not return, and all it does is read the user from Redis: the user
  object it gets has no wallet, so that parsing the wallet throws.
\<close>

theorem trade_job_never_trades:
  "(\<forall>u. fst (trade_job X (Some (JObj fs)) s) \<noteq> Ok u) \<and>
   (\<exists>rg x. redis_hgetall X (user_key (jsval_string (map_of fs ''handle''))) (sys s) = (rg, x) \<and>
      snd (trade_job X (Some (JObj fs)) s) = s\<lparr>sys := x\<rparr> \<and>
      (\<forall>d. rg = Ok d \<longrightarrow> d \<noteq> [] \<longrightarrow> (\<exists>msg. fst (trade_job X (Some (JObj fs)) s) = Throw (SyntaxErr msg))))"
proof -
  obtain rg x where g: "redis_hgetall X (user_key (jsval_string (map_of fs ''handle''))) (sys s) = (rg, x)" by force
  from g trade_job_run[OF g] show ?thesis by (cases rg) auto
qed

definition stored_bob :: "mem sol_state" where
  "stored_bob = sol0\<lparr>sys := mem0\<lparr>m_hash := [(''user:bob'', [(''sol'', ''1''), (''wallet'', ''enc:AA=='')])]\<rparr>\<rparr>"

theorem trade_job_never_trades_witness:
  "\<exists>msg. fst (trade_job mem_ext (Some (trade_payload \<lparr>t_side = ''buy'', t_mint = Some ''M'', t_sol = Num 1\<rparr> (Some ''bob''))) stored_bob) =
     Throw (SyntaxErr msg)"
proof -
  let ?fs = "[(''cmd'', cmd_json \<lparr>t_side = ''buy'', t_mint = Some ''M'', t_sol = Num 1\<rparr>), (''handle'', JStr ''bob'')]"
  have pl: "trade_payload \<lparr>t_side = ''buy'', t_mint = Some ''M'', t_sol = Num 1\<rparr> (Some ''bob'') = JObj ?fs"
    by (simp add: trade_payload_def opt_member_def)
  have "redis_hgetall mem_ext (user_key (jsval_string (map_of ?fs ''handle''))) (sys stored_bob) =
      (Ok [(''sol'', ''1''), (''wallet'', ''enc:AA=='')], sys stored_bob)"
    by (simp add: mem_ext_def user_key_def jsval_string_def stored_bob_def al_get_def)
  then show ?thesis using trade_job_never_trades[of mem_ext ?fs stored_bob] unfolding pl by auto
qed


text \<open>
  A sale does not sell the token.  For every command whose side is not \<open>buy\<close> the
  quote is asked for the SOL mint, so the mint of the command has no influence on what the job
  does: SOL is quoted for SOL.
\<close>

theorem sell_ignores_mint:
  assumes "map_of fs ''t'' \<noteq> Some (JStr ''buy'')"
  shows "trade_mint (Some (JObj fs)) = Ok SOL_MINT \<and>
    settle_trade X wallet (Some (JObj (obj_put fs ''mint'' v))) handle s = settle_trade X wallet (Some (JObj fs)) handle s"
proof -
  have "trade_mint (Some (JObj fs)) = Ok SOL_MINT" "trade_mint (Some (JObj (obj_put fs ''mint'' v))) = Ok SOL_MINT"
    "trade_lamports (Some (JObj (obj_put fs ''mint'' v))) = trade_lamports (Some (JObj fs))"
    using assms by (simp_all add: trade_mint_def trade_lamports_def map_of_obj_put)
  then show ?thesis by (simp add: settle_trade_def)
qed

theorem sell_ignores_mint_witness:
  "trade_mint (Some (cmd_json \<lparr>t_side = ''sell'', t_mint = Some ''BONK'', t_sol = Num 1\<rparr>)) = Ok SOL_MINT \<and>
   settle_trade mem_ext trader (Some (JObj [(''t'', JStr ''sell''), (''mint'', JStr ''WIF''), (''sol'', JNum 1)])) None sol0 =
   settle_trade mem_ext trader (Some (JObj [(''t'', JStr ''sell''), (''mint'', JStr ''BONK''), (''sol'', JNum 1)])) None sol0"
proof -
  let ?fs = "[(''t'', JStr ''sell''), (''mint'', JStr ''BONK''), (''sol'', JNum 1)]"
  have t: "map_of ?fs ''t'' \<noteq> Some (JStr ''buy'')" by simp
  show ?thesis
    using sell_ignores_mint[OF t, of mem_ext trader "JStr ''WIF''" None sol0] by (simp add: cmd_json_def opt_member_def)
qed

text \<open>
  C35: Every job is counted and timed once.  A job run under \<open>withMetrics\<close> that does not
  end the process runs right after the timer was started and has its outcome passed on
  unchanged, adds one to the counter labelled with that outcome and to no other, and adds one
  observation to its histogram.
\<close>

theorem metrics_count_once:
  assumes "prom_registry P counts observed"
    and "\<And>s. counts (sys (snd (job s))) = counts (sys s) \<and> observed (sys (snd (job s))) = observed (sys s)"
    and "withMetrics P c h job s = (r, s')" and "\<And>k. r \<noteq> Exit k"
  shows "\<exists>s2. job (s\<lparr>sys := snd (timer_start P h (sys s))\<rparr>) = (r, s2) \<and>
    counts (sys s') = (counts (sys s))
      ((c, if is_Ok r then ''success'' else ''failure'') := Suc (counts (sys s) (c, if is_Ok r then ''success'' else ''failure''))) \<and>
    observed (sys s') = (observed (sys s))(h := Suc (observed (sys s) h))"
proof -
  have "prom_registry.unmetered counts observed job"
    using assms(2) by (simp add: prom_registry.unmetered_def[OF assms(1)])
  from prom_registry.withMetrics_counts[OF assms(1) this assms(3,4)] show ?thesis by blast
qed

theorem metrics_count_once_witness:
  "\<exists>s'. trade_job_m mem_ext mem_prom (Some (JObj [])) sol0 = (Throw (Err ''User undefined not found''), s') \<and>
     mem_counts (sys s') (''trade_jobs_total'', ''failure'') = 1 \<and>
     mem_counts (sys s') (''trade_jobs_total'', ''success'') = 0"
proof -
  let ?c = "''trade_jobs_total''" and ?h = "''trade_job_duration_seconds''"
  let ?job = "throw (Err ''User undefined not found'') :: (mem sol_state, unit) io"
  have "trade_job_m mem_ext mem_prom (Some (JObj [])) sol0 = withMetrics mem_prom ?c ?h ?job sol0"
    by (simp add: trade_job_m_def withMetrics_def mem_prom_def bnd_def of_res_def load_wallet_def getUser_def ext_def
        mem_ext_def jsval_string_def sol0_def mem0_def al_get_def ret_def throw_def andthen_def catch_def)
  moreover obtain s' where run: "withMetrics mem_prom ?c ?h ?job sol0 = (Throw (Err ''User undefined not found''), s')"
    by (simp add: withMetrics_def mem_prom_def bnd_def ext_def andthen_def catch_def throw_def ret_def)
  moreover have "mem_counts (sys s') = (mem_counts (sys sol0))((?c, ''failure'') := Suc (mem_counts (sys sol0) (?c, ''failure'')))"
    using metrics_count_once[OF mem_registry.prom_registry_axioms _ run] by (auto simp: throw_def)
  moreover have "mem_counts (sys sol0) l = 0" for l by (simp add: mem_counts_def sol0_def mem0_def)
  ultimately show ?thesis by simp
qed

text \<open>
  The gauge shows the firewall's points.  The message the firewall publishes, with a whole
  number of points, is parsed by the metrics process to exactly one update of the gauge with
  that number; failures of the update are swallowed.
\<close>

theorem gauge_follows_firewall:
  assumes "wf_json (JNum h)"
  shows "firewall_event P (fw_event_msg type h) s =
    catch (ext (gauge_set P ''firewall_hp'' (Some (JNum h)))) (\<lambda>e. ret ()) s"
proof -
  have "JSON_parse (fw_event_msg type h) =
      Ok (JObj [(''event'', JStr ''firewall''), (''type'', JStr type), (''hp'', JNum h)])"
    unfolding fw_event_msg_def by (rule JSON_parse_stringify) (use assms in simp)
  then show ?thesis by (simp add: firewall_event_def bnd_def of_res_def catch_def)
qed

theorem gauge_follows_firewall_witness:
  "m_pub (sys (snd (firewall_event mem_prom (fw_event_msg ''spam'' 19) base0))) =
     [(''gfirewall_hp'', rat_to_string 19)]"
proof -
  have "wf_json (JNum 19)" by (simp add: exI[of _ 19])
  from gauge_follows_firewall[OF this, of mem_prom "''spam''" base0]
  show ?thesis by (simp add: catch_def ext_def mem_prom_def base0_def mem0_def)
qed

end
