(* ===== verification/Api.thy ===== *)
theory Api
  imports Commands
begin

text \<open>
  \<open>api-server.js\<close>: the HTTP interface over the users of \<open>commands.js\<close>.  A request is a
  record; handling one yields a status, a JSON body and the CSRF cookie it sets.  Tokens are
  signed with a key derived for a day; the check derives the key from the expiry instead.

  The packages (\<open>csurf\<close>, \<open>xss\<close>, the URL check of \<open>zod\<close>, the process clock) are
  the record \<open>'x web\<close>, an argument of the definitions.  The middleware in front
  of the routes is in \<open>Middleware\<close>.  Express also serves \<open>HEAD\<close> by the \<open>GET\<close>
  routes and matches paths up to case and a trailing slash; requests are taken in the form in
  which the routes are written.

  Lemmas: a token is accepted until it expires exactly when it expires on the day it was
  issued; no protected route answers without a valid token and a matching CSRF token; a trade
  request queues a fixed amount.
\<close>

section \<open>Environment\<close>

record api_req =
  rq_method :: string
  rq_path :: string
  rq_headers :: "(string \<times> string) list"   \<comment> \<open>names in lower case\<close>
  rq_cookies :: "(string \<times> string) list"
  rq_body :: jsval

record api_resp =
  rs_status :: nat
  rs_body :: json

record 'x web =
  csurf :: "api_req \<Rightarrow> bool"
  xss_filter :: "string \<Rightarrow> string"
  is_url :: "string \<Rightarrow> bool"
  uptime :: "('x, rat) io"

record api_env =
  REDIS_URL :: string
  API_PORT :: rat
  CORS_ORIGIN :: "string option"
  RATE_LIMIT_POINTS :: rat
  RATE_LIMIT_WINDOW :: rat
  JWT_BASE_SECRET :: string
  CSRF_COOKIE :: string
  LOG_LEVEL :: string

text \<open>\<open>z.coerce.number().default(d)\<close>\<close>

definition env_coerce :: "'x ext \<Rightarrow> string \<Rightarrow> rat \<Rightarrow> rat option" where
  "env_coerce X k d =
     (case procenv X k of
        None \<Rightarrow> Some d
      | Some v \<Rightarrow> (case to_number v of Num q \<Rightarrow> Some q | NaN \<Rightarrow> None))"

definition env_default :: "'x ext \<Rightarrow> string \<Rightarrow> string \<Rightarrow> string" where
  "env_default X k d = (case procenv X k of None \<Rightarrow> d | Some v \<Rightarrow> v)"

text \<open>\<open>envSchema.parse(process.env)\<close>, and the exit when it fails.\<close>

definition base_secret :: "'x ext \<Rightarrow> (('x, 'e) base_scheme, string) io" where
  "base_secret X =
     (case procenv X ''JWT_BASE_SECRET'' of
        Some v \<Rightarrow> if 32 \<le> length v then ret v else bnd (ext (randomBytes X 32)) (\<lambda>b. ret (hex_encode b))
      | None \<Rightarrow> bnd (ext (randomBytes X 32)) (\<lambda>b. ret (hex_encode b)))"

definition load_env :: "'x ext \<Rightarrow> 'x web \<Rightarrow> (('x, 'e) base_scheme, api_env) io" where
  "load_env X W =
     catch
      (bnd (base_secret X) (\<lambda>secret.
       case (env_coerce X ''API_PORT'' 4000, env_coerce X ''RATE_LIMIT_POINTS'' 200, env_coerce X ''RATE_LIMIT_WINDOW'' 900) of
         (Some port, Some points, Some window) \<Rightarrow>
           if (case procenv X ''REDIS_URL'' of None \<Rightarrow> True | Some u \<Rightarrow> is_url W u) \<and>
              (case procenv X ''CORS_ORIGIN'' of None \<Rightarrow> True | Some u \<Rightarrow> is_url W u) \<and>
              env_default X ''LOG_LEVEL'' ''info'' \<in> {''error'', ''warn'', ''info'', ''debug''}
           then ret \<lparr>REDIS_URL = env_default X ''REDIS_URL'' ''redis://localhost:6379'', API_PORT = port,
                     CORS_ORIGIN = procenv X ''CORS_ORIGIN'', RATE_LIMIT_POINTS = points, RATE_LIMIT_WINDOW = window,
                     JWT_BASE_SECRET = secret, CSRF_COOKIE = env_default X ''CSRF_COOKIE'' ''csrf_tok'',
                     LOG_LEVEL = env_default X ''LOG_LEVEL'' ''info''\<rparr>
           else throw (Err ''invalid environment'')
       | _ \<Rightarrow> throw (Err ''invalid environment'')))
      (\<lambda>e. exit_process 1)"

section \<open>Middleware\<close>

definition trust_proxy :: "string \<Rightarrow> bool" where
  "trust_proxy ip \<longleftrightarrow>
     ip = ''127.0.0.1'' \<or> ip = ''::1'' \<or> startsWith ip ''10.'' \<or> startsWith ip ''172.16.'' \<or> startsWith ip ''192.168.''"

fun scrub_val :: "(string \<Rightarrow> string) \<Rightarrow> json \<Rightarrow> json" where
  "scrub_val f (JStr s) = JStr (f s)"
| "scrub_val f (JArr vs) = JArr (map (scrub_val f) vs)"
| "scrub_val f (JObj kvs) = JObj (map (\<lambda>(k, v). (k, scrub_val f v)) kvs)"
| "scrub_val f v = v"

definition scrub :: "(string \<Rightarrow> string) \<Rightarrow> jsval \<Rightarrow> jsval" where
  "scrub f obj =
     (case obj of
        Some (JArr vs) \<Rightarrow> Some (scrub_val f (JArr vs))
      | Some (JObj kvs) \<Rightarrow> Some (scrub_val f (JObj kvs))
      | v \<Rightarrow> v)"

text \<open>The cookie set when the request has none (or an empty one).\<close>

definition csrf_cookie :: "'x ext \<Rightarrow> api_env \<Rightarrow> api_req \<Rightarrow> (('x, 'e) base_scheme, string option) io" where
  "csrf_cookie X E req =
     (if truthy (map_of (rq_cookies req) (CSRF_COOKIE E)) then ret None
      else bnd (ext (randomBytes X 32)) (\<lambda>b. ret (Some (hex_encode b))))"

section \<open>Tokens\<close>

definition jwtHeader :: string where
  "jwtHeader = base64url_encode (utf8_encode (JSON_stringify (JObj [(''alg'', JStr ''HS256''), (''typ'', JStr ''JWT'')])))"

definition dayKey :: "'x ext \<Rightarrow> api_env \<Rightarrow> jsnum \<Rightarrow> byte list" where
  "dayKey X E day = hkdf_sha256 X (utf8_encode (JWT_BASE_SECRET E)) (utf8_encode (num_to_string day))"

definition token_payload :: "string \<Rightarrow> int \<Rightarrow> int \<Rightarrow> json" where
  "token_payload handle expiry iat =
     JObj [(''sub'', JStr handle), (''exp'', JNum (of_int expiry)), (''iat'', JNum (of_int iat))]"

definition token_sig :: "'x ext \<Rightarrow> api_env \<Rightarrow> jsnum \<Rightarrow> string \<Rightarrow> string" where
  "token_sig X E day payload =
     base64url_encode (hmac_sha256 X (dayKey X E day) (utf8_encode (jwtHeader @ ''.'' @ payload)))"

text \<open>The clock is read for the expiry, for the time of issue and for the day of the key.\<close>

definition signToken :: "'x ext \<Rightarrow> api_env \<Rightarrow> string \<Rightarrow> (('x, 'e) base_scheme, string) io" where
  "signToken X E handle =
     catch
      (bnd (now_ms X) (\<lambda>t1.
       bnd (now_ms X) (\<lambda>t2.
       let payload = base64url_encode (utf8_encode (JSON_stringify
             (token_payload handle (t1 div 1000 + 7200) (t2 div 1000)))) in
       bnd (now_ms X) (\<lambda>t3.
       ret (jwtHeader @ ''.'' @ payload @ ''.'' @ token_sig X E (Num (of_int (t3 div 86400000))) payload)))))
      (\<lambda>e. throw (Err ''token_error''))"

text \<open>\<open>Date.now() / 1000 > exp\<close>\<close>

definition expired :: "int \<Rightarrow> jsnum \<Rightarrow> bool" where
  "expired t expiry = (case expiry of NaN \<Rightarrow> False | Num q \<Rightarrow> of_int t / 1000 > q)"

definition check_payload ::
  "'x ext \<Rightarrow> api_env \<Rightarrow> string \<Rightarrow> string \<Rightarrow> jsval \<Rightarrow> jsval \<Rightarrow> (('x, 'e) base_scheme, json) io" where
  "check_payload X E pl sig expiry sub =
     (if \<not> js_truthy expiry \<or> \<not> js_truthy sub then throw (Err ''invalid_token_payload'')
      else bnd (now_ms X) (\<lambda>t.
        if expired t (js_number expiry) then throw (Err ''token_expired'')
        else if utf8_encode sig = utf8_encode (token_sig X E (num_floor (num_div (js_number expiry) (Num 86400))) pl)
        then ret (the sub)
        else throw (Err ''invalid_signature'')))"

definition verifyToken :: "'x ext \<Rightarrow> api_env \<Rightarrow> string \<Rightarrow> (('x, 'e) base_scheme, json) io" where
  "verifyToken X E tok =
     catch
      (let parts = js_split tok ''.''; pl = elem_at parts 1; sig = elem_at parts 2 in
       if \<not> truthy pl \<or> \<not> truthy sig then throw (Err ''invalid_token_format'')
       else bnd (of_res (JSON_parse (utf8_decode (base64_decode (the pl))))) (\<lambda>j.
            bnd (of_res (get_prop (Some j) ''exp'')) (\<lambda>expiry.
            bnd (of_res (get_prop (Some j) ''sub'')) (\<lambda>sub.
            check_payload X E (the pl) (the sig) expiry sub))))
      (\<lambda>e. throw (Err ''token_error''))"

section \<open>Authorization\<close>

definition json_resp :: "nat \<Rightarrow> (string \<times> json) list \<Rightarrow> api_resp" where
  "json_resp st kvs = \<lparr>rs_status = st, rs_body = JObj kvs\<rparr>"

definition unauthorized :: "string \<Rightarrow> api_resp" where
  "unauthorized details = json_resp 401 [(''error'', JStr ''unauthorized''), (''details'', JStr details)]"

definition server_error :: api_resp where
  "server_error = json_resp 500 [(''error'', JStr ''server_error'')]"

text \<open>\<open>(req.headers.authorization || '').replace(/^Bearer /, '')\<close>\<close>

definition bearer :: "api_req \<Rightarrow> string" where
  "bearer req =
     (let h = (case map_of (rq_headers req) ''authorization'' of None \<Rightarrow> [] | Some v \<Rightarrow> v) in
      if startsWith h ''Bearer '' then drop 7 h else h)"

definition auth :: "'x ext \<Rightarrow> api_env \<Rightarrow> api_req \<Rightarrow> (('x, 'e) base_scheme, api_resp + json) io" where
  "auth X E req =
     (if bearer req = [] then ret (Inl (unauthorized ''No token provided''))
      else catch (bnd (verifyToken X E (bearer req)) (\<lambda>u. ret (Inr u)))
             (\<lambda>e. ret (Inl (unauthorized
                (if exn_message e = ''token_expired'' then ''Token expired'' else ''Invalid token'')))))"

definition csrf_match :: "api_env \<Rightarrow> api_req \<Rightarrow> bool" where
  "csrf_match E req \<longleftrightarrow>
     (let token = map_of (rq_headers req) ''x-csrf-token'';
          storedToken = (case map_of (rq_cookies req) (CSRF_COOKIE E) of None \<Rightarrow> [] | Some v \<Rightarrow> v) in
      truthy token \<and> storedToken \<noteq> [] \<and> token = Some storedToken)"

section \<open>Schemas\<close>

fun obj_member :: "jsval \<Rightarrow> string \<Rightarrow> jsval" where
  "obj_member (Some (JObj kvs)) k = map_of kvs k"
| "obj_member _ k = None"

definition valid_handle :: "string \<Rightarrow> bool" where
  "valid_handle h \<longleftrightarrow>
     2 \<le> length h \<and> length h \<le> 32 \<and> hd h = CHR ''@'' \<and> tl h \<noteq> [] \<and>
     list_all (\<lambda>c. is_alnum c \<or> c = CHR ''_'') (tl h)"

definition schemaAuth :: "jsval \<Rightarrow> (string \<times> string) option" where
  "schemaAuth body =
     (case (obj_member body ''handle'', obj_member body ''method'') of
        (Some (JStr h), Some (JStr m)) \<Rightarrow>
          if valid_handle h \<and> m \<in> {''telegram'', ''twitter''} then Some (h, m) else None
      | _ \<Rightarrow> None)"

definition schemaAuto :: "jsval \<Rightarrow> bool option" where
  "schemaAuto body = (case obj_member body ''on'' of Some (JBool b) \<Rightarrow> Some b | _ \<Rightarrow> None)"

definition schemaRisk :: "jsval \<Rightarrow> string option" where
  "schemaRisk body =
     (case obj_member body ''level'' of
        Some (JStr l) \<Rightarrow> if l \<in> {''low'', ''med'', ''high''} then Some l else None
      | _ \<Rightarrow> None)"

definition schemaTrade :: "jsval \<Rightarrow> (string \<times> string \<times> rat) option" where
  "schemaTrade body =
     (case (obj_member body ''side'', obj_member body ''mint'', obj_member body ''sol'') of
        (Some (JStr side), Some (JStr mint), Some (JNum sol)) \<Rightarrow>
          if side \<in> {''buy'', ''sell''} \<and> length mint = 44 \<and> list_all is_alnum mint \<and> 0 < sol \<and> sol \<le> 10
          then Some (side, mint, sol) else None
      | _ \<Rightarrow> None)"

section \<open>Routes\<close>

definition invalid :: api_resp where
  "invalid = json_resp 400 [(''error'', JStr ''invalid'')]"

text \<open>\<open>POST /auth\<close>; the list of schema errors in the reply is left out.\<close>

definition auth_route :: "'x ext \<Rightarrow> api_env \<Rightarrow> api_req \<Rightarrow> (('x, 'e) base_scheme, api_resp) io" where
  "auth_route X E req =
     (case schemaAuth (rq_body req) of
        None \<Rightarrow> ret invalid
      | Some (handle, meth) \<Rightarrow>
          catch (bnd (signToken X E (toLowerCase handle)) (\<lambda>token.
                 ret (json_resp 200 [(''token'', JStr token), (''expiresIn'', JNum 7200), (''method'', JStr meth)])))
            (\<lambda>e. ret (json_resp 500 [(''error'', JStr ''token_error''),
                    (''details'', JStr ''Failed to generate authentication token'')])))"

definition price_json :: "price option \<Rightarrow> json" where
  "price_json p = (case p of None \<Rightarrow> JNull | Some (PNum n) \<Rightarrow> json_num n | Some (PVal v) \<Rightarrow> v)"

definition portfolio_json :: "portfolio \<Rightarrow> (string \<times> json) list" where
  "portfolio_json p =
     [(''sol'', JNum (p_sol p)), (''solUsd'', JStr (p_solUsd p)), (''tokens'', JArr (map line_json (p_tokens p))),
      (''totalUsd'', JStr (p_totalUsd p))]"

definition prefs_json :: "bool \<times> string \<Rightarrow> (string \<times> json) list" where
  "prefs_json r = [(''autoTrade'', JBool (fst r)), (''risk'', JStr (snd r))]"

definition trade_message :: "string \<Rightarrow> string \<Rightarrow> string \<Rightarrow> 'x message" where
  "trade_message user side mint =
     \<lparr>msg_handle = Some user, msg_text = None,
      msg_button = Some ((if side = ''buy'' then ''BTN::QBUY::'' else ''BTN::QSELL::'') @ mint @ ''::'' @ user),
      msg_reply = Some (\<lambda>t x. (Ok (), x))\<rparr>"

definition trade_route :: "'x ext \<Rightarrow> string \<Rightarrow> jsval \<Rightarrow> (('x, 'e) agent_state_scheme, api_resp) io" where
  "trade_route X user body =
     (case schemaTrade body of
        None \<Rightarrow> ret invalid
      | Some (side, mint, sol) \<Rightarrow>
          andthen (handleMessage X (trade_message user side mint)) (ret (json_resp 200 [(''queued'', JBool True)])))"

text \<open>The protected routes; \<open>None\<close> when no route matches.\<close>

definition protected_route ::
  "'x ext \<Rightarrow> 'x web \<Rightarrow> string \<Rightarrow> api_req \<Rightarrow> (('x, 'e) agent_state_scheme, api_resp) io option" where
  "protected_route X W user req =
     (let m = rq_method req; p = rq_path req; body = rq_body req in
      if m = ''GET'' \<and> p = ''/wallet'' then
        Some (bnd (walletOf X user) (\<lambda>a. ret (json_resp 200 [(''addr'', JStr a)])))
      else if m = ''GET'' \<and> p = ''/balance'' then
        Some (bnd (balanceOf X user) (\<lambda>b. ret (json_resp 200 [(''sol'', JStr (fst b)), (''tier'', json_num (snd b))])))
      else if m = ''GET'' \<and> p = ''/portfolio'' then
        Some (bnd (getPortfolio X user) (\<lambda>pf. ret (json_resp 200 (portfolio_json pf))))
      else if m = ''GET'' \<and> p = ''/sol-price'' then
        Some (bnd (fetchSolPrice X) (\<lambda>v. ret (json_resp 200 [(''price'', price_json v)])))
      else if m = ''POST'' \<and> p = ''/auto'' then
        Some (case schemaAuto body of
                None \<Rightarrow> ret invalid
              | Some on \<Rightarrow> bnd (toggleAuto X user (Some on)) (\<lambda>r. ret (json_resp 200 (prefs_json r))))
      else if m = ''POST'' \<and> p = ''/risk'' then
        Some (case schemaRisk body of
                None \<Rightarrow> ret invalid
              | Some level \<Rightarrow> bnd (setRisk X user (Some level)) (\<lambda>r. ret (json_resp 200 (prefs_json r))))
      else if m = ''POST'' \<and> p = ''/trade'' then Some (trade_route X user body)
      else if m = ''GET'' \<and> p = ''/health'' then
        Some (bnd (ext (uptime W)) (\<lambda>u. bnd (now_ms X) (\<lambda>t.
              ret (json_resp 200 [(''status'', JStr ''healthy''), (''uptime'', JNum u), (''timestamp'', JNum (of_int t))]))))
      else None)"

definition error_handler :: api_resp where
  "error_handler = json_resp 500 [(''error'', JStr ''server_error''), (''details'', JStr ''An unexpected error occurred'')]"

text \<open>The answer of Express when no route matches.\<close>

definition not_found :: api_resp where
  "not_found = \<lparr>rs_status = 404, rs_body = JNull\<rparr>"

definition handle_request ::
  "'x ext \<Rightarrow> 'x web \<Rightarrow> api_env \<Rightarrow> api_req \<Rightarrow> (('x, 'e) agent_state_scheme, api_resp \<times> string option) io" where
  "handle_request X W E req =
     bnd (csrf_cookie X E req) (\<lambda>cookie.
     bnd (if rq_method req = ''POST'' \<and> rq_path req = ''/auth'' then
            (if csurf W req then auth_route X E req else ret error_handler)
          else
            bnd (auth X E req) (\<lambda>a.
            case a of
              Inl resp \<Rightarrow> ret resp
            | Inr user \<Rightarrow>
                if \<not> csurf W req then ret error_handler
                else if \<not> csrf_match E req then ret (json_resp 403 [(''error'', JStr ''csrf'')])
                else (case protected_route X W (js_string user) req of
                        None \<Rightarrow> ret not_found
                      | Some route \<Rightarrow> catch route (\<lambda>e. ret server_error)))) (\<lambda>resp.
     ret (resp, cookie)))"

section \<open>Facts about tokens\<close>

lemma utf8_encode_inj: "utf8_encode a = utf8_encode b \<longleftrightarrow> a = b"
  by (metis utf8_decode_encode)

lemma utf8_encode_Nil: "utf8_encode a = [] \<longleftrightarrow> a = []"
  using utf8_encode_inj[of a "[]"] by (simp add: utf8_encode_def)

lemma base64url_inj: "base64url_encode a = base64url_encode b \<longleftrightarrow> a = b"
  by (metis base64url_decode_encode)

lemma jwtHeader_no_dot: "CHR ''.'' \<notin> set jwtHeader"
  unfolding jwtHeader_def by (rule base64url_no_dot)

lemma token_parts:
  assumes "CHR ''.'' \<notin> set pl" and "CHR ''.'' \<notin> set sig"
  shows "js_split (jwtHeader @ ''.'' @ pl @ ''.'' @ sig) ''.'' = [jwtHeader, pl, sig]"
  using js_split_part[OF jwtHeader_no_dot, of "[]" "pl @ ''.'' @ sig"] js_split_part[OF assms(1), of "[]" sig]
    js_split_last[OF assms(2), of "[]"] by simp

lemma day_of_expiry: "num_floor (num_div (Num (of_int e)) (Num 86400)) = Num (of_int (e div 86400))"
  using floor_divide_of_int_eq[of e 86400, where ?'a = rat] by simp

lemma signToken_run:
  assumes "Date_now X (sys s) = (t1, x1)" and "Date_now X x1 = (t2, x2)" and "Date_now X x2 = (t3, x3)"
    and "pl = base64url_encode (utf8_encode (JSON_stringify (token_payload h (t1 div 1000 + 7200) (t2 div 1000))))"
  shows "signToken X E h s =
    (Ok (jwtHeader @ ''.'' @ pl @ ''.'' @ token_sig X E (Num (of_int (t3 div 86400000))) pl), s\<lparr>sys := x3\<rparr>)"
  using assms by (simp add: signToken_def catch_def bnd_def now_ms_def ret_def Let_def del: JSON_stringify.simps)

lemma verifyToken_run:
  assumes "CHR ''.'' \<notin> set pl" and "CHR ''.'' \<notin> set sig" and "pl \<noteq> []" and "sig \<noteq> []"
    and "JSON_parse (utf8_decode (base64_decode pl)) = Ok (JObj kvs)"
  shows "verifyToken X E (jwtHeader @ ''.'' @ pl @ ''.'' @ sig) s =
    catch (check_payload X E pl sig (map_of kvs ''exp'') (map_of kvs ''sub'')) (\<lambda>e. throw (Err ''token_error'')) s"
  using assms(3-5)
  by (simp add: verifyToken_def token_parts[OF assms(1,2), simplified] elem_at_def truthy_def Let_def bnd_def of_res_def catch_def)

lemma check_payload_run:
  assumes "e \<noteq> 0" and "h \<noteq> []" and "Date_now X (sys u) = (t, x)"
  shows "check_payload X E pl sig (Some (JNum (of_int e))) (Some (JStr h)) u =
    (if of_int t / 1000 > (of_int e :: rat) then Throw (Err ''token_expired'')
     else if sig = token_sig X E (Num (of_int (e div 86400))) pl then Ok (JStr h)
     else Throw (Err ''invalid_signature''), u\<lparr>sys := x\<rparr>)"
  using assms day_of_expiry[of e]
  by (simp add: check_payload_def bnd_def now_ms_def throw_def ret_def expired_def utf8_encode_inj)

lemma token_sig_eq:
  "token_sig X E d pl = token_sig X E d' pl \<longleftrightarrow>
   hmac_sha256 X (dayKey X E d) (utf8_encode (jwtHeader @ ''.'' @ pl)) =
   hmac_sha256 X (dayKey X E d') (utf8_encode (jwtHeader @ ''.'' @ pl))"
  by (simp add: token_sig_def base64url_inj)

lemma wf_token_payload:
  assumes "\<bar>e\<bar> < 10 ^ 21" and "\<bar>i\<bar> < 10 ^ 21"
  shows "wf_json (token_payload h e i)"
  using assms by (auto simp: token_payload_def)

section \<open>Properties\<close>

text \<open>
  C10: When a token is accepted.  A token for a handle, signed while the clock reads
  \<open>t1\<close>, \<open>t2\<close> and \<open>t3\<close> milliseconds, is checked at \<open>t\<close>.  It is accepted, as that
  handle, exactly when it has not expired and the day of signing is the day of the expiry two
  hours later: a token issued after 22:00 UTC is rejected from the start.  The keys of the two
  days are assumed to give different signatures when the days differ.
\<close>

theorem token_accepted_iff:
  assumes "Date_now X (sys s) = (t1, x1)" and "Date_now X x1 = (t2, x2)" and "Date_now X x2 = (t3, x3)"
    and "Date_now X (sys u) = (t, x)"
    and "0 \<le> t1" and "t1 < 10 ^ 20" and "0 \<le> t2" and "t2 < 10 ^ 20" and "h \<noteq> []"
    and "\<And>m. t3 div 86400000 \<noteq> (t1 div 1000 + 7200) div 86400 \<Longrightarrow>
      hmac_sha256 X (dayKey X E (Num (of_int (t3 div 86400000)))) m \<noteq>
      hmac_sha256 X (dayKey X E (Num (of_int ((t1 div 1000 + 7200) div 86400)))) m"
    and "\<And>k m. hmac_sha256 X k m \<noteq> []"
  shows "\<exists>tok. signToken X E h s = (Ok tok, s\<lparr>sys := x3\<rparr>) \<and>
    verifyToken X E tok u =
      (if of_int t / 1000 \<le> (of_int (t1 div 1000 + 7200) :: rat) \<and>
          t3 div 86400000 = (t1 div 1000 + 7200) div 86400
       then Ok (JStr h) else Throw (Err ''token_error''), u\<lparr>sys := x\<rparr>)"
proof -
  define e where "e = t1 div 1000 + 7200"
  let ?i = "t2 div 1000"
  let ?j = "token_payload h e ?i"
  define pl where "pl = base64url_encode (utf8_encode (JSON_stringify ?j))"
  define sig where "sig = token_sig X E (Num (of_int (t3 div 86400000))) pl"
  have "\<bar>e\<bar> < 10 ^ 21" "\<bar>?i\<bar> < 10 ^ 21" using assms(5-8) by (auto simp: e_def)
  have e0: "e \<noteq> 0" using assms(5) by (simp add: e_def)
  from \<open>\<bar>e\<bar> < 10 ^ 21\<close> \<open>\<bar>?i\<bar> < 10 ^ 21\<close> have wf: "wf_json ?j" by (rule wf_token_payload)
  have ne: "utf8_encode (JSON_stringify ?j) \<noteq> []"
    using opens_stringify[OF wf] by (simp add: opens_def utf8_encode_Nil)
  have parse: "JSON_parse (utf8_decode (base64_decode pl)) = Ok ?j"
    unfolding pl_def by (simp add: JSON_parse_stringify[OF wf] del: JSON_stringify.simps)
  have pl: "CHR ''.'' \<notin> set pl" "pl \<noteq> []" using ne by (simp_all add: pl_def base64url_no_dot)
  have sg: "CHR ''.'' \<notin> set sig" "sig \<noteq> []" using assms(11) by (simp_all add: sig_def token_sig_def base64url_no_dot)
  have v: "verifyToken X E (jwtHeader @ ''.'' @ pl @ ''.'' @ sig) u =
      catch (check_payload X E pl sig (Some (JNum (of_int e))) (Some (JStr h))) (\<lambda>e. throw (Err ''token_error'')) u"
    using verifyToken_run[OF pl(1) sg(1) pl(2) sg(2), of _ X E u] parse by (simp add: token_payload_def)
  have "sig = token_sig X E (Num (of_int (e div 86400))) pl \<longleftrightarrow> t3 div 86400000 = e div 86400"
    using assms(10) unfolding sig_def token_sig_eq e_def by auto
  then have "verifyToken X E (jwtHeader @ ''.'' @ pl @ ''.'' @ sig) u =
      (if of_int t / 1000 \<le> (of_int e :: rat) \<and> t3 div 86400000 = e div 86400
       then Ok (JStr h) else Throw (Err ''token_error''), u\<lparr>sys := x\<rparr>)"
    unfolding v catch_def check_payload_run[OF e0 assms(9,4)] by (simp add: throw_def not_le)
  moreover have "signToken X E h s = (Ok (jwtHeader @ ''.'' @ pl @ ''.'' @ sig), s\<lparr>sys := x3\<rparr>)"
    unfolding sig_def by (rule signToken_run[OF assms(1-3)]) (simp add: pl_def e_def)
  ultimately show ?thesis unfolding e_def by blast
qed

definition sign_ext :: "mem ext" where
  "sign_ext = mem_ext\<lparr>hmac_sha256 := (\<lambda>k m. 0 # k @ m)\<rparr>"

definition api0 :: api_env where
  "api0 = \<lparr>REDIS_URL = ''redis://localhost:6379'', API_PORT = 4000, CORS_ORIGIN = None, RATE_LIMIT_POINTS = 200,
     RATE_LIMIT_WINDOW = 900, JWT_BASE_SECRET = replicate 32 (CHR ''k''), CSRF_COOKIE = ''csrf_tok'', LOG_LEVEL = ''info''\<rparr>"

definition late_evening :: "mem base" where
  "late_evening = base0\<lparr>sys := mem0\<lparr>m_clock := 82800000\<rparr>\<rparr>"

theorem token_accepted_iff_witness:
  "\<exists>tok. signToken sign_ext api0 ''@bob'' late_evening =
       (Ok tok, late_evening\<lparr>sys := mem0\<lparr>m_clock := 82800003\<rparr>\<rparr>) \<and>
     fst (verifyToken sign_ext api0 tok (late_evening\<lparr>sys := mem0\<lparr>m_clock := 82800003\<rparr>\<rparr>)) = Throw (Err ''token_error'')"
proof -
  have c: "Date_now sign_ext y = (m_clock y, y\<lparr>m_clock := m_clock y + 1\<rparr>)" for y
    by (simp add: sign_ext_def mem_ext_def)
  let ?c = "\<lambda>n. mem0\<lparr>m_clock := n\<rparr>"
  have d: "Date_now sign_ext (sys late_evening) = (82800000, ?c 82800001)"
    "Date_now sign_ext (?c 82800001) = (82800001, ?c 82800002)"
    "Date_now sign_ext (?c 82800002) = (82800002, ?c 82800003)"
    "Date_now sign_ext (sys (late_evening\<lparr>sys := ?c 82800003\<rparr>)) = (82800003, ?c 82800004)"
    by (simp_all add: c late_evening_def)
  have "nat_digits 0 \<noteq> nat_digits (Suc 0)"
    using digits_val_nat_digits[of 0] digits_val_nat_digits[of "Suc 0"] by auto
  then have "dayKey sign_ext api0 (Num 0) \<noteq> dayKey sign_ext api0 (Num 1)"
    using rat_to_string_nat[of 0] rat_to_string_nat[of 1]
    by (simp add: dayKey_def sign_ext_def mem_ext_def utf8_encode_inj)
  then have h: "hmac_sha256 sign_ext (dayKey sign_ext api0 (Num (of_int (82800002 div 86400000)))) m \<noteq>
      hmac_sha256 sign_ext (dayKey sign_ext api0 (Num (of_int ((82800000 div 1000 + 7200) div 86400)))) m" for m
    by (simp add: sign_ext_def)
  have n: "hmac_sha256 sign_ext k m \<noteq> []" for k m by (simp add: sign_ext_def)
  from token_accepted_iff[OF d, where h = "''@bob''" and E = api0] h n
  show ?thesis by auto
qed

text \<open>What an accepted token is: a payload that has not expired, with its signature.\<close>

definition accepted_token :: "'x ext \<Rightarrow> api_env \<Rightarrow> string \<Rightarrow> int \<Rightarrow> json \<Rightarrow> bool" where
  "accepted_token X E tok t sub \<longleftrightarrow>
     (\<exists>pl sig j expiry. elem_at (js_split tok ''.'') 1 = Some pl \<and> elem_at (js_split tok ''.'') 2 = Some sig \<and>
        JSON_parse (utf8_decode (base64_decode pl)) = Ok j \<and>
        get_prop (Some j) ''exp'' = Ok expiry \<and> get_prop (Some j) ''sub'' = Ok (Some sub) \<and> js_truthy (Some sub) \<and>
        \<not> expired t (js_number expiry) \<and>
        sig = token_sig X E (num_floor (num_div (js_number expiry) (Num 86400))) pl)"

lemma check_payload_sound:
  assumes "check_payload X E pl sig expiry sub s = (Ok u, s')"
  shows "sub = Some u \<and> js_truthy (Some u) \<and>
    (\<exists>t. Date_now X (sys s) = (t, sys s') \<and> \<not> expired t (js_number expiry)) \<and>
    sig = token_sig X E (num_floor (num_div (js_number expiry) (Num 86400))) pl"
  using assms
  by (cases sub) (auto simp: check_payload_def throw_def ret_def bnd_def now_ms_def utf8_encode_inj split: if_splits prod.splits)

lemma verifyToken_sound:
  assumes "verifyToken X E tok s = (Ok sub, s')"
  shows "\<exists>t. Date_now X (sys s) = (t, sys s') \<and> accepted_token X E tok t sub"
proof -
  let ?p = "elem_at (js_split tok ''.'') 1" and ?g = "elem_at (js_split tok ''.'') 2"
  from assms obtain pl sig where p: "?p = Some pl" "?g = Some sig"
    and rest: "bnd (of_res (JSON_parse (utf8_decode (base64_decode pl)))) (\<lambda>j.
            bnd (of_res (get_prop (Some j) ''exp'')) (\<lambda>expiry.
            bnd (of_res (get_prop (Some j) ''sub'')) (\<lambda>sub.
            check_payload X E pl sig expiry sub))) s = (Ok sub, s')"
    by (auto simp: verifyToken_def Let_def catch_def throw_def truthy_def split: if_splits prod.splits res.splits)
  from rest obtain j expiry sv where j: "JSON_parse (utf8_decode (base64_decode pl)) = Ok j"
    "get_prop (Some j) ''exp'' = Ok expiry" "get_prop (Some j) ''sub'' = Ok sv"
    and c: "check_payload X E pl sig expiry sv s = (Ok sub, s')"
    by (auto simp: of_res_def elim!: bnd_OkD)
  from check_payload_sound[OF c] p j show ?thesis unfolding accepted_token_def by blast
qed

lemma csrf_cookie_only_sys: "stays only_sys (csrf_cookie X E req)"
  unfolding csrf_cookie_def by (intro outside.sys_rules)

lemma auth_only_sys: "stays only_sys (auth X E req)"
  unfolding auth_def verifyToken_def check_payload_def Let_def by (intro outside.sys_rules outside.stays_now_ms)

lemma auth_accepts:
  assumes "auth X E req s = (Ok (Inr sub), s')"
  shows "\<exists>t. Date_now X (sys s) = (t, sys s') \<and> accepted_token X E (bearer req) t sub"
proof -
  have "verifyToken X E (bearer req) s = (Ok sub, s')"
    using assms by (auto simp: auth_def ret_def catch_def bnd_def split: if_splits prod.splits res.splits)
  then show ?thesis by (rule verifyToken_sound)
qed

lemma auth_rejects: "auth X E req s = (Ok (Inl resp), s') \<Longrightarrow> rs_status resp = 401"
  by (auto simp: auth_def ret_def catch_def bnd_def unauthorized_def json_resp_def split: if_splits prod.splits res.splits)

text \<open>
  C7: Protected routes are guarded.  Every request other than \<open>POST /auth\<close> is either
  refused with 401, 403 or 500, leaving the users of the agent untouched, or it passed both CSRF
  checks and carries a token whose payload has not expired when the clock is read, after the CSRF
  cookie was handled, and which has the signature of that payload under the server's secret.
\<close>

theorem protected_routes_guarded:
  assumes "handle_request X W E req s = (Ok (resp, c), s')"
    and "\<not> (rq_method req = ''POST'' \<and> rq_path req = ''/auth'')"
  shows "(rs_status resp \<in> {401, 403, 500} \<and> users s' = users s) \<or>
    (csurf W req \<and> csrf_match E req \<and>
     (\<exists>s1 t x sub. csrf_cookie X E req s = (Ok c, s1) \<and> Date_now X (sys s1) = (t, x) \<and>
        accepted_token X E (bearer req) t sub))"
proof -
  from assms(1) obtain s1 a s2 where c: "csrf_cookie X E req s = (Ok c, s1)" and a: "auth X E req s1 = (Ok a, s2)"
    and m: "(case a of
              Inl resp \<Rightarrow> ret resp
            | Inr user \<Rightarrow>
                if \<not> csurf W req then ret error_handler
                else if \<not> csrf_match E req then ret (json_resp 403 [(''error'', JStr ''csrf'')])
                else (case protected_route X W (js_string user) req of
                        None \<Rightarrow> ret not_found
                      | Some route \<Rightarrow> catch route (\<lambda>e. ret server_error))) s2 = (Ok resp, s')"
    unfolding handle_request_def if_not_P[OF assms(2)] by (elim bnd_OkD) (auto simp: ret_def)
  have "users s2 = users s"
    using only_sysD[OF staysD[OF csrf_cookie_only_sys c]] only_sysD[OF staysD[OF auth_only_sys a]] by auto
  with m a c auth_rejects[of X E req s1] auth_accepts[of X E req s1] show ?thesis
    by (cases a) (auto simp: bnd_def ret_def error_handler_def json_resp_def split: if_splits)
qed

definition open_web :: "mem web" where
  "open_web = \<lparr>csurf = (\<lambda>_. True), xss_filter = id, is_url = (\<lambda>_. True), uptime = (\<lambda>x. (Ok 1, x))\<rparr>"

definition anonymous :: api_req where
  "anonymous = \<lparr>rq_method = ''GET'', rq_path = ''/wallet'', rq_headers = [], rq_cookies = [], rq_body = None\<rparr>"

theorem protected_routes_guarded_witness:
  "\<exists>resp c s'. handle_request mem_ext open_web api0 anonymous agent0 = (Ok (resp, c), s') \<and>
     rs_status resp \<in> {401, 403, 500} \<and> users s' = users agent0"
proof -
  obtain resp c s' where run: "handle_request mem_ext open_web api0 anonymous agent0 = (Ok (resp, c), s')"
    by (simp add: handle_request_def anonymous_def csrf_cookie_def truthy_def auth_def bearer_def startsWith_def
        bnd_def ret_def ext_def mem_ext_def)
  have "\<not> (rq_method anonymous = ''POST'' \<and> rq_path anonymous = ''/auth'')" by (simp add: anonymous_def)
  from protected_routes_guarded[OF run this] run show ?thesis
    by (auto simp: csrf_match_def anonymous_def truthy_def)
qed

text \<open>
  C36: A trade request queues a fixed amount.  When \<open>POST /trade\<close> with a body that
  satisfies the schema is answered, exactly one job was queued, for the authenticated user, with
  the side and mint of the body, and with 0.1 SOL whatever amount was asked for.
\<close>

theorem trade_request_amount:
  assumes "job_queues X jobs" and "schemaTrade body = Some (side, mint, sol)"
    and "trade_route X user body s = (Ok resp, s')"
  shows "rs_status resp = 200 \<and> users s' = users s \<and>
    jobs (sys s') = jobs (sys s) @ [(''trades'', ''execute-trade'',
      trade_payload \<lparr>t_side = side, t_mint = Some mint, t_sol = Num (1 / 10)\<rparr> (Some user))]"
proof -
  let ?act = "if side = ''buy'' then ''QBUY'' else ''QSELL''"
  have side: "side = ''buy'' \<or> side = ''sell''" and "list_all is_alnum mint"
    using assms(2) by (auto simp: schemaTrade_def split: option.splits json.splits if_splits)
  then have "CHR '':'' \<notin> set mint"
    by (auto simp: list_all_iff is_alnum_def is_alpha_def is_digit_def code_def)
  then have "js_split (mint @ ''::'' @ user) ''::'' = mint # js_split user ''::''"
    by (intro js_split_part)
  moreover have "js_split (?act @ ''::'' @ r) ''::'' = ?act # js_split r ''::''"
    "js_split (''BTN'' @ ''::'' @ r) ''::'' = ''BTN'' # js_split r ''::''" for r
    by (rule js_split_part; simp)+
  ultimately have "js_split (''BTN'' @ ''::'' @ ?act @ ''::'' @ mint @ ''::'' @ user) ''::'' =
      ''BTN'' # ?act # mint # js_split user ''::''" by simp
  then have "handleMessage X (trade_message user side mint) s =
      dispatchTrade X \<lparr>t_side = side, t_mint = Some mint, t_sol = Num (1 / 10)\<rparr> (Some user) (Some (\<lambda>t x. (Ok (), x))) s"
    by (cases "side = ''buy''")
      (use side in \<open>simp_all add: handleMessage_def trade_message_def truthy_def handle_button_def elem_at_def Let_def\<close>)
  moreover from assms(2,3) have "andthen (handleMessage X (trade_message user side mint))
      (ret (json_resp 200 [(''queued'', JBool True)])) s = (Ok resp, s')"
    by (simp add: trade_route_def)
  ultimately have d: "dispatchTrade X \<lparr>t_side = side, t_mint = Some mint, t_sol = Num (1 / 10)\<rparr> (Some user)
      (Some (\<lambda>t x. (Ok (), x))) s = (Ok (), s')" and "rs_status resp = 200"
    by (elim andthen_OkD; auto simp: ret_def json_resp_def)+
  with job_queues.dispatchTrade_queues[OF assms(1) _ d] show ?thesis by simp
qed

definition trade_body :: jsval where
  "trade_body = Some (JObj [(''side'', JStr ''buy''), (''mint'', JStr (replicate 44 (CHR ''M''))), (''sol'', JNum 5)])"

theorem trade_request_amount_witness:
  "\<exists>resp s'. trade_route mem_ext ''@bob'' trade_body agent0 = (Ok resp, s') \<and>
     m_jobs (sys s') = [(''trades'', ''execute-trade'',
       trade_payload \<lparr>t_side = ''buy'', t_mint = Some (replicate 44 (CHR ''M'')), t_sol = Num (1 / 10)\<rparr> (Some ''@bob''))]"
proof -
  let ?mint = "replicate 44 (CHR ''M'')"
  have b: "schemaTrade trade_body = Some (''buy'', ?mint, 5)" by code_simp
  have "js_split (''BTN::QBUY::'' @ ?mint @ ''::@bob'') ''::'' = [''BTN'', ''QBUY'', ?mint, ''@bob'']" by code_simp
  then have "handle_button mem_ext (trade_message ''@bob'' ''buy'' ?mint) (''BTN::QBUY::'' @ ?mint @ ''::@bob'') =
      (Some (dispatchTrade mem_ext \<lparr>t_side = ''buy'', t_mint = Some ?mint, t_sol = Num (1 / 10)\<rparr> (Some ''@bob'')
        (Some (\<lambda>t x. (Ok (), x)))) :: (mem agent_state, unit) io option)"
    by (simp add: handle_button_def trade_message_def elem_at_def Let_def)
  then have "\<exists>resp s'. trade_route mem_ext ''@bob'' trade_body agent0 = (Ok resp, s')"
    by (simp add: trade_route_def b handleMessage_def truthy_def trade_message_def dispatchTrade_def enqueueTrade_def
        andthen_def bnd_def ext_def mem_ext_def spawn_def say_def ret_def)
  then obtain resp s' where run: "trade_route mem_ext ''@bob'' trade_body agent0 = (Ok resp, s')" by blast
  with trade_request_amount[OF mem_job_queues.job_queues_axioms b run] show ?thesis
    by (auto simp: agent0_def mem0_def)
qed

lemma hex_encode_length: "length (hex_encode bs) = 2 * length bs"
  by (induction bs) (simp_all add: hex_encode_def)

text \<open>
  The signing secret has at least 32 characters.  Whenever the environment is accepted, the
  secret is the configured one if that is long enough, and otherwise 64 random hexadecimal
  digits; the process never runs with a short secret.
\<close>

theorem secret_length:
  assumes "aead X" and "load_env X W s = (Ok E, s')"
  shows "32 \<le> length (JWT_BASE_SECRET E)"
proof -
  from assms(2) obtain secret s1 where b: "base_secret X s = (Ok secret, s1)" and e: "JWT_BASE_SECRET E = secret"
    by (auto simp: load_env_def catch_def exit_process_def bnd_def ret_def throw_def
        split: prod.splits res.splits option.splits if_splits)
  have "length secret = 64" if "bnd (ext (randomBytes X 32)) (\<lambda>b. ret (hex_encode b)) s = (Ok secret, s1)"
  proof -
    from that obtain r x where "randomBytes X 32 (sys s) = (Ok r, x)" "secret = hex_encode r"
      by (auto simp: ext_def ret_def split: prod.splits elim!: bnd_OkD)
    with aead.random_length[OF assms(1)] show ?thesis by (simp add: hex_encode_length)
  qed
  then have "32 \<le> length secret"
    using b by (fastforce simp: base_secret_def ret_def split: option.splits if_splits)
  with e show ?thesis by simp
qed

theorem secret_length_witness:
  "\<exists>E s'. load_env mem_ext open_web base0 = (Ok E, s') \<and> 32 \<le> length (JWT_BASE_SECRET E)"
proof -
  obtain E s' where run: "load_env mem_ext open_web base0 = (Ok E, s')"
    by (simp add: load_env_def base_secret_def env_coerce_def env_default_def mem_ext_def catch_def bnd_def ext_def ret_def)
  with secret_length[OF mem_aead.aead_axioms run] show ?thesis by blast
qed

end
