(* ===== verification/Middleware.thy ===== *)
theory Middleware
  imports Api
begin

text \<open>
  The middleware stack of \<open>api-server.js\<close> in front of the routes of \<open>Api\<close>, in the
  order in which the file installs it: request id, sanitizers, body parser, cookies, CORS and the
  rate limiter.  A middleware answers the request or passes it on changed; an error goes to
  the error handler.  The packages are the record \<open>'x stack\<close>; logging, security headers
  and \<open>hpp\<close> (which here sees the query only) have no effect on the modelled request and are
  left out.

  Lemmas: what the sanitizers would do is irrelevant, since they run before the body is parsed;
  within a window no more requests of a peer than configured reach the routes, whatever
  forwarding headers the peer sends.
\<close>

section \<open>Requests and packages\<close>

record raw_req =
  hq_method :: string
  hq_path :: string
  hq_headers :: "(string \<times> string) list"
  hq_remote :: string   \<comment> \<open>the address of the peer\<close>
  hq_text :: string

record mw_req =
  m_raw :: raw_req
  m_id :: string
  m_body :: jsval
  m_params :: jsval
  m_cookies :: "(string \<times> string) list"

record 'x stack =
  ulid :: "('x, string) io"
  mongo_sanitize :: "jsval \<Rightarrow> jsval"
  express_json :: "raw_req \<Rightarrow> jsval res"
  cookie_parser :: "raw_req \<Rightarrow> (string \<times> string) list"
  client_ip :: "(string \<Rightarrow> bool) \<Rightarrow> raw_req \<Rightarrow> string"   \<comment> \<open>\<open>req.ip\<close> under a trust function\<close>
  increment :: "rat \<Rightarrow> string \<Rightarrow> ('x, nat) io"   \<comment> \<open>the store of the rate limiter: window, key, hits\<close>

type_synonym 's middleware = "mw_req \<Rightarrow> ('s, api_resp + mw_req) io"

definition fresh_req :: "raw_req \<Rightarrow> mw_req" where
  "fresh_req raw = \<lparr>m_raw = raw, m_id = [], m_body = None, m_params = Some (JObj []), m_cookies = []\<rparr>"

section \<open>The stack\<close>

definition request_id :: "'x stack \<Rightarrow> ('x, 'e) base_scheme middleware" where
  "request_id P req = bnd (ext (ulid P)) (\<lambda>i. ret (Inr (req\<lparr>m_id := i\<rparr>)))"

definition sanitizer :: "'x stack \<Rightarrow> 's middleware" where
  "sanitizer P req = ret (Inr
     (let req = (if js_truthy (m_body req) then req\<lparr>m_body := mongo_sanitize P (m_body req)\<rparr> else req) in
      if js_truthy (m_params req) then req\<lparr>m_params := mongo_sanitize P (m_params req)\<rparr> else req))"

definition xss_scrub :: "'x web \<Rightarrow> 's middleware" where
  "xss_scrub W req = ret (Inr
     (req\<lparr>m_body := scrub (xss_filter W) (m_body req), m_params := scrub (xss_filter W) (m_params req)\<rparr>))"

definition parse_body :: "'x stack \<Rightarrow> 's middleware" where
  "parse_body P req = bnd (of_res (express_json P (m_raw req))) (\<lambda>b. ret (Inr (req\<lparr>m_body := b\<rparr>)))"

definition parse_cookies :: "'x stack \<Rightarrow> 's middleware" where
  "parse_cookies P req = ret (Inr (req\<lparr>m_cookies := cookie_parser P (m_raw req)\<rparr>))"

text \<open>A preflight request ends here, with \<open>optionsSuccessStatus\<close>.\<close>

definition cors_preflight :: "'s middleware" where
  "cors_preflight req =
     ret (if hq_method (m_raw req) = ''OPTIONS'' then Inl \<lparr>rs_status = 200, rs_body = JNull\<rparr> else Inr req)"

definition too_many :: api_resp where
  "too_many = \<lparr>rs_status = 429, rs_body = JStr ''Too many requests, please try again later.''\<rparr>"

definition rate_limit :: "'x stack \<Rightarrow> api_env \<Rightarrow> ('x, 'e) base_scheme middleware" where
  "rate_limit P E req =
     bnd (ext (increment P (RATE_LIMIT_WINDOW E * 1000) (''rl:'' @ client_ip P trust_proxy (m_raw req)))) (\<lambda>hits.
     ret (if of_nat hits > RATE_LIMIT_POINTS E then Inl too_many else Inr req))"

fun chain_mw :: "'s middleware list \<Rightarrow> 's middleware" where
  "chain_mw [] req = ret (Inr req)"
| "chain_mw (m # ms) req =
     bnd (m req) (\<lambda>r. case r of Inl resp \<Rightarrow> ret (Inl resp) | Inr req' \<Rightarrow> chain_mw ms req')"

definition app_stack :: "'x web \<Rightarrow> 'x stack \<Rightarrow> api_env \<Rightarrow> ('x, 'e) base_scheme middleware list" where
  "app_stack W P E =
     [request_id P, sanitizer P, xss_scrub W, parse_body P, parse_cookies P, cors_preflight, rate_limit P E]"

definition to_api :: "mw_req \<Rightarrow> api_req" where
  "to_api req = \<lparr>rq_method = hq_method (m_raw req), rq_path = hq_path (m_raw req), rq_headers = hq_headers (m_raw req),
     rq_cookies = m_cookies req, rq_body = m_body req\<rparr>"

definition serve ::
  "'x ext \<Rightarrow> 'x web \<Rightarrow> 'x stack \<Rightarrow> api_env \<Rightarrow> raw_req \<Rightarrow>
   (('x, 'e) agent_state_scheme, api_resp \<times> string option) io" where
  "serve X W P E raw =
     catch (bnd (chain_mw (app_stack W P E) (fresh_req raw)) (\<lambda>r.
            case r of
              Inl resp \<Rightarrow> ret (resp, None)
            | Inr req \<Rightarrow> handle_request X W E (to_api req)))
       (\<lambda>e. ret (error_handler, None))"

section \<open>Running the stack\<close>

text \<open>What is left of the stack: the id, the body, the preflight check and the limiter.\<close>

definition rate_key :: "'x stack \<Rightarrow> raw_req \<Rightarrow> string" where
  "rate_key P raw = ''rl:'' @ client_ip P trust_proxy raw"

lemma scrub_None: "scrub f None = None"
  by (simp add: scrub_def)

lemma pass_on: "(case r of Inl resp \<Rightarrow> ret (Inl resp) | Inr req \<Rightarrow> chain_mw [] req) = ret r"
  by (cases r) simp_all

lemma app_stack_run:
  "chain_mw (app_stack W P E) (fresh_req raw) =
     bnd (ext (ulid P)) (\<lambda>i.
     bnd (of_res (express_json P raw)) (\<lambda>b.
     if hq_method raw = ''OPTIONS'' then ret (Inl \<lparr>rs_status = 200, rs_body = JNull\<rparr>)
     else
       bnd (ext (increment P (RATE_LIMIT_WINDOW E * 1000) (rate_key P raw))) (\<lambda>hits.
       ret (if of_nat hits > RATE_LIMIT_POINTS E then Inl too_many
            else Inr \<lparr>m_raw = raw, m_id = i, m_body = b,
              m_params = scrub (xss_filter W) (mongo_sanitize P (Some (JObj []))), m_cookies = cookie_parser P raw\<rparr>))))"
  by (cases "hq_method raw = ''OPTIONS''")
    (simp_all add: app_stack_def fresh_req_def request_id_def sanitizer_def xss_scrub_def parse_body_def parse_cookies_def
      cors_preflight_def rate_limit_def rate_key_def scrub_None pass_on bnd_assoc bnd_ret Let_def)

text \<open>
  The packages in front of the routes: the address of an untrusted peer is the peer's own,
  whatever it forwards; the store counts the hits of a key in the current window; an id does
  not touch the store.
\<close>

locale front_packages =
  fixes P :: "'x stack" and hits :: "'x \<Rightarrow> string \<Rightarrow> nat"
  assumes ip_untrusted: "\<not> trust (hq_remote raw) \<Longrightarrow> client_ip P trust raw = hq_remote raw"
    and increment_Ok: "increment P w k x = (Ok n, x') \<Longrightarrow> n = Suc (hits x k) \<and> hits x' k = n"
    and ulid_hits: "ulid P x = (r, x') \<Longrightarrow> hits x' = hits x"
begin

lemma untrusted_key: "\<not> trust_proxy (hq_remote raw) \<Longrightarrow> rate_key P raw = ''rl:'' @ hq_remote raw"
  by (simp add: rate_key_def ip_untrusted)

lemma admitted_counts:
  assumes "chain_mw (app_stack W P E) (fresh_req raw) s = (Ok (Inr req), s')"
  shows "hits (sys s') (rate_key P raw) = Suc (hits (sys s) (rate_key P raw)) \<and>
    of_nat (hits (sys s') (rate_key P raw)) \<le> RATE_LIMIT_POINTS E"
proof -
  let ?k = "rate_key P raw"
  from assms obtain i x n y where u: "ulid P (sys s) = (Ok i, x)"
    and c: "increment P (RATE_LIMIT_WINDOW E * 1000) ?k x = (Ok n, y)" and y: "sys s' = y"
    and le: "of_nat n \<le> RATE_LIMIT_POINTS E"
    unfolding app_stack_run
    by (auto simp: of_res_def ret_def ext_def split: if_splits prod.splits elim!: bnd_OkD)
  from increment_Ok[OF c] ulid_hits[OF u] y le show ?thesis by simp
qed

end

text \<open>
  What happens while a window lasts: a request of the peer reaches the routes, which
  \<open>admitted\<close> counts, or anything else happens that does not reset the counter of the peer.
\<close>

inductive window ::
  "'x web \<Rightarrow> 'x stack \<Rightarrow> api_env \<Rightarrow> ('x \<Rightarrow> string \<Rightarrow> nat) \<Rightarrow> string \<Rightarrow> ('x, 'e) base_scheme \<Rightarrow> nat \<Rightarrow>
   ('x, 'e) base_scheme \<Rightarrow> bool"
  for W :: "'x web" and P :: "'x stack" and E :: api_env and hits :: "'x \<Rightarrow> string \<Rightarrow> nat" and peer :: string
    and s :: "('x, 'e) base_scheme"
where
  opened: "window W P E hits peer s 0 s"
| admitted: "window W P E hits peer s n t \<Longrightarrow> hq_remote raw = peer \<Longrightarrow>
    chain_mw (app_stack W P E) (fresh_req raw) t = (Ok (Inr req), u) \<Longrightarrow> window W P E hits peer s (Suc n) u"
| elsewhere: "window W P E hits peer s n t \<Longrightarrow> hits (sys t) (''rl:'' @ peer) \<le> hits (sys u) (''rl:'' @ peer) \<Longrightarrow>
    window W P E hits peer s n u"

context front_packages
begin

lemma window_counts:
  assumes "\<not> trust_proxy peer" and "window W P E hits peer s n t"
  shows "n \<le> hits (sys t) (''rl:'' @ peer) \<and> (0 < n \<longrightarrow> of_nat n \<le> RATE_LIMIT_POINTS E)"
  using assms(2)
proof (induction rule: window.induct)
  case (admitted n t raw req u)
  then have k: "rate_key P raw = ''rl:'' @ peer" using assms(1) untrusted_key by simp
  from admitted_counts[OF admitted.hyps(3)] admitted.IH have "Suc n \<le> hits (sys u) (''rl:'' @ peer)"
    "of_nat (hits (sys u) (''rl:'' @ peer)) \<le> RATE_LIMIT_POINTS E" unfolding k by auto
  moreover from this(1) have "(of_nat (Suc n) :: rat) \<le> of_nat (hits (sys u) (''rl:'' @ peer))"
    by (simp only: of_nat_le_iff)
  ultimately show ?case by (meson order_trans)
qed auto

end

section \<open>Properties\<close>

text \<open>
  C12: The sanitizers have no effect.  They run before the body parser, when the request has no
  body yet: with any other filter and any other sanitizer every request is answered in the same
  way with the same effects, and a request that reaches the routes does so with the body exactly
  as it was parsed.
\<close>

theorem body_unsanitized:
  "serve X (W\<lparr>xss_filter := f\<rparr>) (P\<lparr>mongo_sanitize := g\<rparr>) E raw s = serve X W P E raw s \<and>
   (\<forall>req s'. chain_mw (app_stack W P E) (fresh_req raw) s = (Ok (Inr req), s') \<longrightarrow>
      express_json P raw = Ok (rq_body (to_api req)))"
proof
  have h: "handle_request X (W\<lparr>xss_filter := f\<rparr>) E q = handle_request X W E q" for q
    by (simp add: handle_request_def protected_route_def cong: if_cong)
  show "serve X (W\<lparr>xss_filter := f\<rparr>) (P\<lparr>mongo_sanitize := g\<rparr>) E raw s = serve X W P E raw s"
    unfolding serve_def app_stack_run
    by (simp add: rate_key_def bnd_assoc bnd_ret bnd_if h to_api_def if_distrib[of "case_sum _ _"] cong: if_cong)
  show "\<forall>req s'. chain_mw (app_stack W P E) (fresh_req raw) s = (Ok (Inr req), s') \<longrightarrow>
      express_json P raw = Ok (rq_body (to_api req))"
    unfolding app_stack_run
    by (auto simp: of_res_def ret_def to_api_def split: if_splits elim!: bnd_OkD)
qed

text \<open>
  C8: The rate limit.  While a window of the limiter lasts, the requests of a peer that is
  not a trusted proxy reach the routes at most as often as configured, whatever forwarding
  headers they carry and whatever else the process does in between.
\<close>

theorem rate_limit_bound:
  assumes "front_packages P hits" and "\<not> trust_proxy peer" and "window W P E hits peer s n t"
  shows "n = 0 \<or> of_nat n \<le> RATE_LIMIT_POINTS E"
  using front_packages.window_counts[OF assms] by auto

text \<open>A front with an in-memory counter, and a peer that pretends to forward for another one.\<close>

definition mem_stack :: "mem stack" where
  "mem_stack = \<lparr>ulid = (\<lambda>x. (Ok ''01H'', x)), mongo_sanitize = id,
     express_json = (\<lambda>raw. bind_res (JSON_parse (hq_text raw)) (\<lambda>j. Ok (Some j))), cookie_parser = (\<lambda>raw. []),
     client_ip = (\<lambda>trust raw. case map_of (hq_headers raw) ''x-forwarded-for'' of
        Some a \<Rightarrow> if trust (hq_remote raw) then a else hq_remote raw | None \<Rightarrow> hq_remote raw),
     increment = (\<lambda>w k x. (Ok (Suc (length (mem_streams x k))), snd (mem_xadd k [] x)))\<rparr>"

definition mem_hits :: "mem \<Rightarrow> string \<Rightarrow> nat" where
  "mem_hits x k = length (mem_streams x k)"

interpretation mem_front: front_packages mem_stack mem_hits
  by unfold_locales
    (auto simp: mem_stack_def mem_hits_def mem_streams_def mem_xadd_def al_get_obj_put split: option.splits)

definition forger :: raw_req where
  "forger = \<lparr>hq_method = ''GET'', hq_path = ''/wallet'', hq_headers = [(''x-forwarded-for'', ''9.9.9.9'')],
     hq_remote = ''8.8.8.8'', hq_text = ''{}''\<rparr>"

lemma forger_admitted:
  assumes "sys s = mem0"
  shows "\<exists>req u. chain_mw (app_stack open_web mem_stack api0) (fresh_req forger) s = (Ok (Inr req), u)"
proof -
  have "JSON_parse ''{}'' = Ok (JObj [])" by code_simp
  then show ?thesis
    unfolding app_stack_run
    by (simp add: assms mem_stack_def forger_def rate_key_def bnd_def ext_def of_res_def ret_def api0_def mem0_def
        mem_streams_def al_get_def mem_xadd_def)
qed

theorem rate_limit_bound_witness:
  "\<not> trust_proxy ''8.8.8.8'' \<and>
   (\<exists>u. window open_web mem_stack api0 mem_hits ''8.8.8.8'' base0 1 u) \<and> (1 :: rat) \<le> RATE_LIMIT_POINTS api0"
proof -
  have t: "\<not> trust_proxy ''8.8.8.8''" by (simp add: trust_proxy_def startsWith_def)
  obtain req u where "chain_mw (app_stack open_web mem_stack api0) (fresh_req forger) base0 = (Ok (Inr req), u)"
    using forger_admitted[of base0] by (auto simp: base0_def)
  from window.admitted[OF window.opened _ this, of "''8.8.8.8''" mem_hits]
  have w: "window open_web mem_stack api0 mem_hits ''8.8.8.8'' base0 1 u" by (simp add: forger_def)
  from rate_limit_bound[OF mem_front.front_packages_axioms t w] t w show ?thesis by auto
qed

theorem body_unsanitized_witness:
  "\<exists>req u. chain_mw (app_stack open_web mem_stack api0) (fresh_req forger) agent0 = (Ok (Inr req), u) \<and>
     rq_body (to_api req) = Some (JObj []) \<and>
     serve mem_ext (open_web\<lparr>xss_filter := \<lambda>t. ''clean''\<rparr>) (mem_stack\<lparr>mongo_sanitize := \<lambda>v. None\<rparr>) api0 forger agent0 =
       serve mem_ext open_web mem_stack api0 forger agent0"
proof -
  obtain req u where run: "chain_mw (app_stack open_web mem_stack api0) (fresh_req forger) agent0 = (Ok (Inr req), u)"
    using forger_admitted[of agent0] by (auto simp: agent0_def)
  have "express_json mem_stack forger = Ok (Some (JObj []))"
  proof -
    have "JSON_parse ''{}'' = Ok (JObj [])" by code_simp
    then show ?thesis by (simp add: mem_stack_def forger_def)
  qed
  with body_unsanitized[where X = mem_ext and W = open_web and f = "\<lambda>t. ''clean''" and P = mem_stack and
      g = "\<lambda>v. None" and E = api0 and raw = forger and s = agent0] run
  show ?thesis by auto
qed

text \<open>A local proxy that connects over a dual-stack socket appears under a mapped address, which is not trusted.\<close>

lemma mapped_loopback_untrusted: "trust_proxy ''127.0.0.1'' \<and> \<not> trust_proxy ''::ffff:127.0.0.1''"
  by (simp add: trust_proxy_def startsWith_def)

end
