(* ===== verification/Launcher.thy ===== *)
theory Launcher
  imports Workers Api Token
begin

text \<open>
  The token launcher: the service \<open>launcher/server.js\<close> and its internal counterpart
  \<open>utils-launcher.js\<close>.  The SPL-token and Raydium packages and the Base58 decoder are the
  record \<open>'x pad\<close>, an argument of the definitions.  Middleware yields a response or passes
  on; a rejection that no handler catches goes to the global error handler, as in Express 5.
  \<open>helmet\<close> and the console output are left out.  Express also serves \<open>HEAD\<close> by the
  \<open>GET\<close> routes and matches paths up to case and a trailing slash; requests are taken in the
  form in which the routes are written.

  Lemmas: an issued API key is accepted for its user and no other value is; the protected routes
  answer only behind both middlewares; the launch configuration is read from the text of the
  model and its economic terms come from the environment only.
\<close>

section \<open>Packages\<close>

datatype curve = Linear | Exponential | Logarithmic

record platform_config =
  pc_owner :: string
  pc_feeRate :: nat
  pc_creatorScale :: nat
  pc_platformScale :: nat
  pc_burnScale :: nat

record pool_params =
  pp_tokenAMint :: string
  pp_tokenBMint :: string
  pp_decimals :: jsval
  pp_supply :: jsval
  pp_totalSellA :: jsval
  pp_totalFundRaisingB :: jsval
  pp_totalLockedAmount :: jsval
  pp_cliffPeriod :: jsval
  pp_unlockPeriod :: jsval
  pp_startTime :: jsval
  pp_platformID :: string
  pp_platformFeeRate :: nat
  pp_migrateType :: string
  pp_curveType :: curve

record 'x pad =
  redis_connect :: "('x, unit) io"
  bs58_decode :: "string \<Rightarrow> byte list res"
  publicKey_value :: "jsval \<Rightarrow> string res"   \<comment> \<open>\<open>new PublicKey(v)\<close> of a value that is not a string\<close>
  createMint :: "keypair \<Rightarrow> jsval \<Rightarrow> ('x, string) io"
  getOrCreateATA :: "keypair \<Rightarrow> string \<Rightarrow> ('x, string) io"
  mintTo :: "keypair \<Rightarrow> string \<Rightarrow> string \<Rightarrow> jsnum \<Rightarrow> ('x, unit) io"
  createLaunchpadPool :: "keypair \<Rightarrow> pool_params \<Rightarrow> platform_config \<Rightarrow> string \<Rightarrow> ('x, byte list) io"
  buyLaunchpadToken :: "keypair \<Rightarrow> string \<Rightarrow> jsval \<Rightarrow> string \<Rightarrow> string \<Rightarrow> ('x, byte list) io"
  sellLaunchpadToken :: "keypair \<Rightarrow> string \<Rightarrow> jsval \<Rightarrow> string \<Rightarrow> string \<Rightarrow> ('x, byte list) io"
  sendAndConfirm :: "byte list \<Rightarrow> keypair \<Rightarrow> ('x, string) io"

section \<open>Startup\<close>

definition core_vars :: "string list" where
  "core_vars = [''RPC_URL'', ''REDIS_URL'', ''PLATFORM_PRIVATE_KEY'', ''DEV_LAUNCHPAD_PROGRAM'', ''IMAGE_API_ROOT'']"

definition missingCore :: "'x ext \<Rightarrow> string list" where
  "missingCore X = filter (\<lambda>k. \<not> truthy (procenv X k)) core_vars"

text \<open>The key is a JSON array of bytes or a Base58 string.\<close>

definition parse_platform_key :: "'x ext \<Rightarrow> 'x pad \<Rightarrow> string \<Rightarrow> keypair res" where
  "parse_platform_key X P raw =
     (let keyRaw = js_trim raw in
      if startsWith keyRaw ''['' then
        bind_res (JSON_parse keyRaw) (\<lambda>arr. bind_res (uint8_from arr) (kp_fromSecretKey X))
      else bind_res (bs58_decode P keyRaw) (kp_fromSecretKey X))"

definition PLATFORM_KP :: "'x ext \<Rightarrow> 'x pad \<Rightarrow> keypair res" where
  "PLATFORM_KP X P =
     (case procenv X ''PLATFORM_PRIVATE_KEY'' of
        None \<Rightarrow> Throw (TypeErr ''Cannot read properties of undefined'')
      | Some raw \<Rightarrow> parse_platform_key X P raw)"

text \<open>The connection is not awaited; its failure is an incident and ends the process.\<close>

definition launcher_connect :: "'x ext \<Rightarrow> 'x pad \<Rightarrow> (('x, 'e) fw_state_scheme, unit) io" where
  "launcher_connect X P =
     spawn (catch (ext (redis_connect P)) (\<lambda>e. andthen (spawn (onCritical X)) (exit_process 1)))"

definition launcher_start :: "'x ext \<Rightarrow> 'x pad \<Rightarrow> (('x, 'e) fw_state_scheme, keypair) io" where
  "launcher_start X P =
     (if missingCore X \<noteq> [] then exit_process 1
      else andthen (launcher_connect X P) (catch (of_res (PLATFORM_KP X P)) (\<lambda>e. exit_process 1)))"

definition CURVE_TYPE :: "'x ext \<Rightarrow> curve" where
  "CURVE_TYPE X =
     (case procenv X ''BONDING_CURVE'' of
        Some b \<Rightarrow> if b = ''EXPONENTIAL'' then Exponential else if b = ''LOGARITHMIC'' then Logarithmic else Linear
      | None \<Rightarrow> Linear)"

section \<open>Captcha and API keys\<close>

record l_req =
  l_method :: string
  l_path :: string
  l_ip :: string
  l_headers :: "(string \<times> string) list"
  l_body :: jsval   \<comment> \<open>\<open>undefined\<close> when the parser does not apply\<close>

definition unreserved :: "char \<Rightarrow> bool" where
  "unreserved c \<longleftrightarrow> is_alnum c \<or> code c \<in> {45, 95, 46, 33, 126, 42, 39, 40, 41}"

definition upper_hex :: "nat \<Rightarrow> char" where
  "upper_hex n = (if n < 10 then char_of (48 + n) else char_of (55 + n))"

definition percent_byte :: "byte \<Rightarrow> string" where
  "percent_byte b = [CHR ''%'', upper_hex (unat b div 16), upper_hex (unat b mod 16)]"

definition encodeURIComponent :: "string \<Rightarrow> string" where
  "encodeURIComponent s =
     concat (map (\<lambda>c. if unreserved c then [c] else concat (map percent_byte (utf8_char c))) s)"

text \<open>\<open>(json.score ?? 0) >= 0.5\<close>\<close>

definition good_score :: "jsval \<Rightarrow> bool" where
  "good_score v =
     (case js_number (if v = None \<or> v = Some JNull then Some (JNum 0) else v) of
        NaN \<Rightarrow> False
      | Num q \<Rightarrow> 1 / 2 \<le> q)"

definition verifyRecaptcha :: "'x ext \<Rightarrow> string \<Rightarrow> (('x, 'e) base_scheme, bool) io" where
  "verifyRecaptcha X token =
     bnd (fetch_json X \<lparr>req_url = ''https://www.google.com/recaptcha/api/siteverify'', req_method = ''POST'',
            req_body = UrlBody (''secret='' @ encodeURIComponent (or_undefined (procenv X ''RECAPTCHA_SECRET'')) @
              ''&response='' @ encodeURIComponent token)\<rparr>) (\<lambda>j.
     bnd (of_res (get_prop (Some j) ''success'')) (\<lambda>ok.
     bnd (of_res (get_prop (Some j) ''score'')) (\<lambda>score.
     ret (ok = Some (JBool True) \<and> good_score score))))"

definition captcha_key :: "string \<Rightarrow> string" where
  "captcha_key ip = ''captcha:fail:'' @ ip"

definition solve_msg :: "string \<Rightarrow> string option \<Rightarrow> string" where
  "solve_msg what fails =
     (let attempts = (case parseInt10 (case fails of None \<Rightarrow> ''null'' | Some v \<Rightarrow> v) of NaN \<Rightarrow> 0 | Num q \<Rightarrow> q) in
      what @ '': solve '' @ (if attempts > 5 then ''2'' else ''1''))"

definition err_resp :: "nat \<Rightarrow> string \<Rightarrow> api_resp" where
  "err_resp st msg = json_resp st [(''error'', JStr msg)]"

text \<open>\<open>None\<close>: the request is passed on.\<close>

definition captchaMiddleware :: "'x ext \<Rightarrow> l_req \<Rightarrow> (('x, 'e) fw_state_scheme, api_resp option) io" where
  "captchaMiddleware X req =
     catch
      (bnd (ext (redis_get X (captcha_key (l_ip req)))) (\<lambda>fails.
       let headerToken = map_of (l_headers req) ''x-captcha-token'' in
       if \<not> truthy headerToken then ret (Some (err_resp 429 (solve_msg ''Captcha required'' fails)))
       else
         bnd (verifyRecaptcha X (the headerToken)) (\<lambda>ok.
         if \<not> ok then
           andthen (ext (redis_incr X (captcha_key (l_ip req))))
          (andthen (ext (redis_expire X (captcha_key (l_ip req)) 3600))
           (ret (Some (err_resp 429 (solve_msg ''Captcha failed'' fails)))))
         else
           andthen (ext (redis_del X (captcha_key (l_ip req)))) (ret None))))
      (\<lambda>e. andthen (spawn (onError X)) (ret (Some (err_resp 500 ''Captcha internal error''))))"

definition apikey_key :: "string \<Rightarrow> string" where
  "apikey_key userId = ''apikey:'' @ userId"

definition generateApiKey :: "'x ext \<Rightarrow> string \<Rightarrow> (('x, 'e) base_scheme, string) io" where
  "generateApiKey X userId =
     bnd (ext (randomBytes X 32)) (\<lambda>b.
     andthen (ext (redis_setEx X (apikey_key userId) 7200 (hex_encode b)))
             (ret (hex_encode b)))"

definition forbidden :: api_resp where
  "forbidden = \<lparr>rs_status = 403, rs_body = JStr ''Forbidden''\<rparr>"

definition validateApiKey :: "'x ext \<Rightarrow> l_req \<Rightarrow> (('x, 'e) fw_state_scheme, api_resp + string) io" where
  "validateApiKey X req =
     (let userId = map_of (l_headers req) ''x-user-id''; key = map_of (l_headers req) ''x-api-key'' in
      if \<not> truthy userId \<or> \<not> truthy key then andthen (spawn (onSpam X)) (ret (Inl forbidden))
      else
        bnd (ext (redis_get X (apikey_key (the userId)))) (\<lambda>stored.
        if stored \<noteq> key then andthen (spawn (onSpam X)) (ret (Inl forbidden))
        else ret (Inr (the userId))))"

section \<open>Tokens and images\<close>

text \<open>\<open>(await res.text()).split('/').pop()\<close>\<close>

definition generateImage :: "'x ext \<Rightarrow> string \<Rightarrow> (('x, 'e) fw_state_scheme, string) io" where
  "generateImage X prompt =
     (let root = or_undefined (procenv X ''IMAGE_API_ROOT'') in
      bnd (ext (http_fetch X \<lparr>req_url = root @ ''/obtener_imagen'', req_method = ''POST'',
             req_body = FormBody [(''texto'', prompt)]\<rparr>)) (\<lambda>res.
      if \<not> resp_ok res then
        andthen (spawn (onError X)) (throw (Err (''Image API '' @ resp_statusText res)))
      else ret (root @ ''/images/'' @ last (js_split (resp_text res) ''/''))))"

definition wallet_key :: "string \<Rightarrow> string" where
  "wallet_key userId = ''wallet:'' @ userId"

definition getUserKP :: "'x ext \<Rightarrow> string \<Rightarrow> (('x, 'e) fw_state_scheme, keypair) io" where
  "getUserKP X userId =
     bnd (ext (redis_get X (wallet_key userId))) (\<lambda>j.
     if \<not> truthy j then andthen (spawn (onError X)) (throw (Err ''Wallet not found''))
     else bnd (of_res (bind_res (JSON_parse (the j)) uint8_from)) (\<lambda>b. of_res (kp_fromSecretKey X b)))"

text \<open>Minting the whole supply into the account of the user: the mint and the account.\<close>

definition mint_token ::
  "'x pad \<Rightarrow> keypair \<Rightarrow> jsval \<Rightarrow> jsval \<Rightarrow> (('x, 'e) base_scheme, string \<times> string) io" where
  "mint_token P userKP decimals supply =
     bnd (ext (createMint P userKP decimals)) (\<lambda>mint.
     bnd (ext (getOrCreateATA P userKP mint)) (\<lambda>ata.
     andthen (ext (mintTo P userKP mint ata (num_mul (js_number supply) (num_pow10 (js_number decimals)))))
             (ret (mint, ata))))"

definition website_of :: "'x ext \<Rightarrow> string \<Rightarrow> string" where
  "website_of X mint = or_undefined (procenv X ''METADATA_BASE_URL'') @ ''/token/'' @ mint"

text \<open>The client takes strings and numbers as values of a hash; \<open>None\<close>: any other value.\<close>

fun str_field :: "jsval \<Rightarrow> string option" where
  "str_field (Some (JStr t)) = Some t"
| "str_field (Some (JNum q)) = Some (rat_to_string q)"
| "str_field _ = None"

definition store_meta :: "'x ext \<Rightarrow> string \<Rightarrow> jsval \<Rightarrow> string \<Rightarrow> (('x, 'e) base_scheme, unit) io" where
  "store_meta X mint name img =
     ext (redis_hset X (''tokenmeta:'' @ mint)
       [(''name'', str_field name), (''image'', Some img), (''website'', Some (website_of X mint))])"

text \<open>\<open>now + startDelay\<close>: a string or an object is concatenated.\<close>

fun plus_delay :: "int \<Rightarrow> jsval \<Rightarrow> jsval" where
  "plus_delay t (Some (JStr s)) = Some (JStr (rat_to_string (of_int t) @ s))"
| "plus_delay t (Some (JArr vs)) = Some (JStr (rat_to_string (of_int t) @ js_string (JArr vs)))"
| "plus_delay t (Some (JObj kvs)) = Some (JStr (rat_to_string (of_int t) @ js_string (JObj kvs)))"
| "plus_delay t v = Some (json_num (num_add (Num (of_int t)) (js_number v)))"

text \<open>\<open>new PublicKey(v)\<close> of a member of the request.\<close>

definition public_key :: "'x ext \<Rightarrow> 'x pad \<Rightarrow> jsval \<Rightarrow> string res" where
  "public_key X P v = (case v of Some (JStr t) \<Rightarrow> publicKey_of X t | _ \<Rightarrow> publicKey_value P v)"

definition create_config :: "string \<Rightarrow> platform_config" where
  "create_config owner =
     \<lparr>pc_owner = owner, pc_feeRate = 100, pc_creatorScale = 3000, pc_platformScale = 5000, pc_burnScale = 2000\<rparr>"

definition launch_config :: "string \<Rightarrow> platform_config" where
  "launch_config owner =
     \<lparr>pc_owner = owner, pc_feeRate = 300, pc_creatorScale = 6000, pc_platformScale = 2500, pc_burnScale = 1500\<rparr>"

definition open_pool ::
  "'x ext \<Rightarrow> 'x pad \<Rightarrow> keypair \<Rightarrow> pool_params \<Rightarrow> platform_config \<Rightarrow> (('x, 'e) base_scheme, string) io" where
  "open_pool X P userKP params config =
     bnd (of_res (publicKey_of X (or_undefined (procenv X ''DEV_LAUNCHPAD_PROGRAM'')))) (\<lambda>program.
     bnd (ext (createLaunchpadPool P userKP params config program)) (\<lambda>t.
     ext (sendAndConfirm P t userKP)))"

section \<open>Routes\<close>

definition get_api_key :: "'x ext \<Rightarrow> l_req \<Rightarrow> (('x, 'e) base_scheme, api_resp) io" where
  "get_api_key X req =
     bnd (of_res (get_prop (l_body req) ''userId'')) (\<lambda>userId.
     if \<not> js_truthy userId then ret (err_resp 400 ''userId required'')
     else
       bnd (generateApiKey X (jsval_string userId)) (\<lambda>apiKey.
       ret (json_resp 200 [(''userId'', the userId), (''apiKey'', JStr apiKey), (''expiresIn'', JNum 7200)])))"

definition get_token :: "'x ext \<Rightarrow> string \<Rightarrow> (('x, 'e) base_scheme, api_resp) io" where
  "get_token X mint =
     bnd (ext (redis_hgetall X (''tokenmeta:'' @ mint))) (\<lambda>meta.
     if meta = [] then ret (err_resp 404 ''Not found'')
     else ret (json_resp 200 (map (\<lambda>(k, v). (k, JStr v)) meta)))"

definition create_token :: "'x ext \<Rightarrow> 'x pad \<Rightarrow> string \<Rightarrow> jsval \<Rightarrow> (('x, 'e) fw_state_scheme, api_resp) io" where
  "create_token X P userId body =
     bnd (of_res (get_prop body ''decimals'')) (\<lambda>decimals.
     bnd (of_res (get_prop body ''supply'')) (\<lambda>supply.
     bnd (of_res (get_prop body ''tokenName'')) (\<lambda>tokenName.
     bnd (getUserKP X userId) (\<lambda>userKP.
     bnd (mint_token P userKP decimals supply) (\<lambda>(mint, ata).
     bnd (generateImage X (''Logo for token '' @ jsval_string tokenName)) (\<lambda>imageUrl.
     andthen (store_meta X mint tokenName imageUrl)
             (ret (json_resp 200 [(''mint'', JStr mint), (''account'', JStr ata), (''imageUrl'', JStr imageUrl),
                (''website'', JStr (website_of X mint))]))))))))"

definition create_pool :: "'x ext \<Rightarrow> 'x pad \<Rightarrow> string \<Rightarrow> jsval \<Rightarrow> (('x, 'e) fw_state_scheme, api_resp) io" where
  "create_pool X P userId body =
     (let arg = (\<lambda>k. get_prop body k) in
      bnd (of_res (arg ''tokenAMint'')) (\<lambda>tokenAMint.
      bnd (of_res (arg ''tokenBMint'')) (\<lambda>tokenBMint.
      bnd (of_res (arg ''supply'')) (\<lambda>supply.
      bnd (of_res (arg ''totalSellA'')) (\<lambda>totalSellA.
      bnd (of_res (arg ''totalFundRaisingB'')) (\<lambda>totalFundRaisingB.
      bnd (of_res (arg ''cliffPeriod'')) (\<lambda>cliffPeriod.
      bnd (of_res (arg ''unlockPeriod'')) (\<lambda>unlockPeriod.
      bnd (of_res (arg ''startDelay'')) (\<lambda>startDelay.
      bnd (getUserKP X userId) (\<lambda>userKP.
      bnd (of_res (PLATFORM_KP X P)) (\<lambda>platform.
      bnd (now_ms X) (\<lambda>t.
      bnd (of_res (public_key X P tokenAMint)) (\<lambda>mintA.
      bnd (of_res (public_key X P tokenBMint)) (\<lambda>mintB.
      bnd (open_pool X P userKP
            \<lparr>pp_tokenAMint = mintA, pp_tokenBMint = mintB, pp_decimals = Some (JNum 6), pp_supply = supply,
             pp_totalSellA = totalSellA, pp_totalFundRaisingB = totalFundRaisingB, pp_totalLockedAmount = supply,
             pp_cliffPeriod = cliffPeriod, pp_unlockPeriod = unlockPeriod, pp_startTime = plus_delay (t div 1000) startDelay,
             pp_platformID = kp_public platform, pp_platformFeeRate = 300, pp_migrateType = ''cpmm'',
             pp_curveType = CURVE_TYPE X\<rparr>
            (create_config (kp_public platform))) (\<lambda>sig.
      ret (json_resp 200 [(''success'', JBool True), (''signature'', JStr sig)]))))))))))))))))"

text \<open>Buying from and selling to the launchpad differ in the SDK call and the name of the amount.\<close>

definition trade_pool ::
  "'x ext \<Rightarrow> 'x pad \<Rightarrow> (keypair \<Rightarrow> string \<Rightarrow> jsval \<Rightarrow> string \<Rightarrow> string \<Rightarrow> ('x, byte list) io) \<Rightarrow> string \<Rightarrow>
   string \<Rightarrow> jsval \<Rightarrow> (('x, 'e) fw_state_scheme, api_resp) io" where
  "trade_pool X P sdk amount userId body =
     bnd (of_res (get_prop body ''poolId'')) (\<lambda>poolId.
     bnd (of_res (get_prop body amount)) (\<lambda>amt.
     bnd (getUserKP X userId) (\<lambda>userKP.
     bnd (of_res (public_key X P poolId)) (\<lambda>pool.
     bnd (ext (getOrCreateATA P userKP pool)) (\<lambda>ata.
     bnd (of_res (publicKey_of X (or_undefined (procenv X ''DEV_LAUNCHPAD_PROGRAM'')))) (\<lambda>program.
     bnd (ext (sdk userKP pool amt ata program)) (\<lambda>t.
     bnd (ext (sendAndConfirm P t userKP)) (\<lambda>sig.
     ret (json_resp 200 [(''success'', JBool True), (''signature'', JStr sig)])))))))))"

definition buy_token :: "'x ext \<Rightarrow> 'x pad \<Rightarrow> string \<Rightarrow> jsval \<Rightarrow> (('x, 'e) fw_state_scheme, api_resp) io" where
  "buy_token X P = trade_pool X P (buyLaunchpadToken P) ''amountB''"

definition sell_token :: "'x ext \<Rightarrow> 'x pad \<Rightarrow> string \<Rightarrow> jsval \<Rightarrow> (('x, 'e) fw_state_scheme, api_resp) io" where
  "sell_token X P = trade_pool X P (sellLaunchpadToken P) ''amountA''"

text \<open>The parameters of a full launch.\<close>

record launch_params =
  lp_decimals :: jsval
  lp_supply :: jsval
  lp_tokenName :: jsval
  lp_tokenBMint :: jsval
  lp_totalRaiseB :: jsval
  lp_cliffPeriod :: jsval
  lp_unlockPeriod :: jsval
  lp_startDelay :: jsval

record launched =
  la_mint :: string
  la_account :: string
  la_imageUrl :: string
  la_website :: string
  la_poolSignature :: string

definition launch_pool ::
  "'x ext \<Rightarrow> 'x pad \<Rightarrow> keypair \<Rightarrow> launch_params \<Rightarrow> string \<Rightarrow> (('x, 'e) base_scheme, string) io" where
  "launch_pool X P userKP params mint =
     bnd (of_res (PLATFORM_KP X P)) (\<lambda>platform.
     bnd (now_ms X) (\<lambda>t.
     bnd (of_res (public_key X P (lp_tokenBMint params))) (\<lambda>mintB.
     open_pool X P userKP
       \<lparr>pp_tokenAMint = mint, pp_tokenBMint = mintB, pp_decimals = lp_decimals params, pp_supply = lp_supply params,
        pp_totalSellA = lp_supply params, pp_totalFundRaisingB = lp_totalRaiseB params,
        pp_totalLockedAmount = lp_supply params, pp_cliffPeriod = lp_cliffPeriod params,
        pp_unlockPeriod = lp_unlockPeriod params, pp_startTime = plus_delay (t div 1000) (lp_startDelay params),
        pp_platformID = kp_public platform, pp_platformFeeRate = 300, pp_migrateType = ''cpmm'',
        pp_curveType = CURVE_TYPE X\<rparr>
       (launch_config (kp_public platform)))))"

text \<open>Minting, a logo from \<open>describe\<close>, the metadata and the pool, in this order.\<close>

definition launch ::
  "'x ext \<Rightarrow> 'x pad \<Rightarrow> (('x, 'e) fw_state_scheme, string) io \<Rightarrow> launch_params \<Rightarrow> string \<Rightarrow>
   (('x, 'e) fw_state_scheme, launched) io" where
  "launch X P describe params userId =
     bnd (getUserKP X userId) (\<lambda>userKP.
     bnd (mint_token P userKP (lp_decimals params) (lp_supply params)) (\<lambda>(mint, ata).
     bnd describe (\<lambda>logo.
     bnd (generateImage X logo) (\<lambda>imageUrl.
     andthen (store_meta X mint (lp_tokenName params) imageUrl)
    (bnd (launch_pool X P userKP params mint) (\<lambda>sig.
     ret \<lparr>la_mint = mint, la_account = ata, la_imageUrl = imageUrl, la_website = website_of X mint,
          la_poolSignature = sig\<rparr>))))))"

definition body_params :: "jsval \<Rightarrow> launch_params res" where
  "body_params body =
     (let arg = (\<lambda>k. get_prop body k) in
      bind_res (arg ''decimals'') (\<lambda>decimals.
      bind_res (arg ''supply'') (\<lambda>supply.
      bind_res (arg ''tokenName'') (\<lambda>tokenName.
      bind_res (arg ''tokenBMint'') (\<lambda>tokenBMint.
      bind_res (arg ''totalRaiseB'') (\<lambda>totalRaiseB.
      bind_res (arg ''cliffPeriod'') (\<lambda>cliffPeriod.
      bind_res (arg ''unlockPeriod'') (\<lambda>unlockPeriod.
      bind_res (arg ''startDelay'') (\<lambda>startDelay.
      Ok \<lparr>lp_decimals = decimals, lp_supply = supply, lp_tokenName = tokenName, lp_tokenBMint = tokenBMint,
          lp_totalRaiseB = totalRaiseB, lp_cliffPeriod = cliffPeriod, lp_unlockPeriod = unlockPeriod,
          lp_startDelay = startDelay\<rparr>)))))))))"

definition launch_token :: "'x ext \<Rightarrow> 'x pad \<Rightarrow> string \<Rightarrow> jsval \<Rightarrow> (('x, 'e) fw_state_scheme, api_resp) io" where
  "launch_token X P userId body =
     bnd (of_res (body_params body)) (\<lambda>params.
     bnd (launch X P (ret (''Logo for '' @ jsval_string (lp_tokenName params))) params userId) (\<lambda>l.
     ret (json_resp 200 [(''success'', JBool True), (''mint'', JStr (la_mint l)), (''account'', JStr (la_account l)),
        (''imageUrl'', JStr (la_imageUrl l)), (''website'', JStr (la_website l)),
        (''poolSignature'', JStr (la_poolSignature l))])))"

text \<open>\<open>try { ... } catch (err) { firewall.onError(...); 500 }\<close>\<close>

definition guarded :: "'x ext \<Rightarrow> (('x, 'e) fw_state_scheme, api_resp) io \<Rightarrow> (('x, 'e) fw_state_scheme, api_resp) io" where
  "guarded X m = catch m (\<lambda>e. andthen (spawn (onError X)) (ret (err_resp 500 (exn_message e))))"

text \<open>The protected routes; \<open>None\<close> when no route matches.\<close>

definition launcher_route ::
  "'x ext \<Rightarrow> 'x pad \<Rightarrow> string \<Rightarrow> l_req \<Rightarrow> (('x, 'e) fw_state_scheme, api_resp) io" where
  "launcher_route X P userId req =
     (if l_method req \<noteq> ''POST'' then ret not_found
      else if l_path req = ''/create-token'' then guarded X (create_token X P userId (l_body req))
      else if l_path req = ''/create-pool'' then guarded X (create_pool X P userId (l_body req))
      else if l_path req = ''/buy-token'' then guarded X (buy_token X P userId (l_body req))
      else if l_path req = ''/sell-token'' then guarded X (sell_token X P userId (l_body req))
      else if l_path req = ''/launch-token'' then guarded X (launch_token X P userId (l_body req))
      else ret not_found)"

definition token_path :: string where
  "token_path = ''/token/''"

definition is_public :: "l_req \<Rightarrow> bool" where
  "is_public req \<longleftrightarrow>
     (l_method req = ''POST'' \<and> l_path req = ''/get-api-key'') \<or>
     (l_method req = ''GET'' \<and> startsWith (l_path req) token_path \<and>
      drop (length token_path) (l_path req) \<noteq> [] \<and> CHR ''/'' \<notin> set (drop (length token_path) (l_path req)))"

definition protected_request :: "'x ext \<Rightarrow> 'x pad \<Rightarrow> l_req \<Rightarrow> (('x, 'e) fw_state_scheme, api_resp) io" where
  "protected_request X P req =
     bnd (captchaMiddleware X req) (\<lambda>c.
     case c of
       Some resp \<Rightarrow> ret resp
     | None \<Rightarrow>
         bnd (validateApiKey X req) (\<lambda>v.
         case v of Inl resp \<Rightarrow> ret resp | Inr userId \<Rightarrow> launcher_route X P userId req))"

definition launcher_request :: "'x ext \<Rightarrow> 'x pad \<Rightarrow> l_req \<Rightarrow> (('x, 'e) fw_state_scheme, api_resp) io" where
  "launcher_request X P req =
     (if l_method req = ''POST'' \<and> l_path req = ''/get-api-key'' then
        bnd (captchaMiddleware X req) (\<lambda>c.
        case c of Some resp \<Rightarrow> ret resp | None \<Rightarrow> guarded X (get_api_key X req))
      else if is_public req then guarded X (get_token X (drop (length token_path) (l_path req)))
      else protected_request X P req)"

text \<open>
  The application: \<open>cors\<close> answers preflight requests, then the body is parsed
  (\<open>parsed\<close> is the outcome of the package).  An error of the parser and a rejection that no
  middleware catches go to the global error handler.
\<close>

definition launcher_error :: "'x ext \<Rightarrow> exn \<Rightarrow> (('x, 'e) fw_state_scheme, api_resp) io" where
  "launcher_error X e = andthen (spawn (onError X)) (ret (err_resp 500 (exn_message e)))"

definition launcher_http :: "'x ext \<Rightarrow> 'x pad \<Rightarrow> jsval res \<Rightarrow> l_req \<Rightarrow> (('x, 'e) fw_state_scheme, api_resp) io" where
  "launcher_http X P parsed req =
     (if l_method req = ''OPTIONS'' then ret \<lparr>rs_status = 204, rs_body = JNull\<rparr>
      else catch (bnd (of_res parsed) (\<lambda>body. launcher_request X P (req\<lparr>l_body := body\<rparr>))) (launcher_error X))"

section \<open>The internal launcher\<close>

definition image_prompt :: "jsval \<Rightarrow> string" where
  "image_prompt tokenName =
     ''You are a creative branding assistant.'' @ nl @
     ''Provide a vivid, concise description for a meme character to represent the meme token named '' @
     [CHR 0x22] @ jsval_string tokenName @ [CHR 0x22] @ ''.'' @ nl @
     ''Respond with nothing but the plain text description.''"

definition config_prompt :: string where
  "config_prompt =
     ''You are a Meme Token Launchpad configuration generator.'' @ nl @
     ''You only fundraise in SOL, never USDC.'' @ nl @
     ''Generate a fun meme token viral, output exactly one JSON object with these fields:'' @ nl @
     ''  - decimals (integer always 6)'' @ nl @ ''  - supply (integer)'' @ nl @ ''  - tokenName (string)'' @ nl @
     ''Respond with nothing but the raw JSON object.''"

text \<open>A request to the model whose status is checked.\<close>

definition ask_ollama :: "'x ext \<Rightarrow> string \<Rightarrow> (('x, 'e) fw_state_scheme, string) io" where
  "ask_ollama X prompt =
     bnd (ext (http_fetch X (post_json (or_undefined (procenv X ''OLLAMA_URL''))
            (JObj (opt_member ''model'' (procenv X ''OLLAMA_MODEL'') @
                   [(''prompt'', JStr prompt), (''stream'', JBool False)]))))) (\<lambda>res.
     if \<not> resp_ok res then
       andthen (spawn (onError X)) (throw (Err (''Ollama API '' @ resp_statusText res)))
     else bnd (of_res (resp_json res)) (\<lambda>j. of_res (read_answer j)))"

definition generateImageDescription :: "'x ext \<Rightarrow> jsval \<Rightarrow> (('x, 'e) fw_state_scheme, string) io" where
  "generateImageDescription X tokenName = ask_ollama X (image_prompt tokenName)"

text \<open>\<open>raw.slice(raw.indexOf('{'), raw.lastIndexOf('}') + 1)\<close>; \<open>None\<close> when a brace is missing.\<close>

definition braces :: "string \<Rightarrow> string option" where
  "braces raw =
     (if CHR ''{'' \<in> set raw \<and> CHR ''}'' \<in> set raw then
        Some (let start = length (takeWhile (\<lambda>c. c \<noteq> CHR ''{'') raw);
                  stop = length raw - length (takeWhile (\<lambda>c. c \<noteq> CHR ''}'') (rev raw))
              in drop start (take stop raw))
      else None)"

text \<open>\<open>s.replace(/,\s*c/g, 'c')\<close>\<close>

function drop_commas :: "char \<Rightarrow> string \<Rightarrow> string" where
  "drop_commas c [] = []"
| "drop_commas c (x # xs) =
     (if x = CHR '','' \<and> (case dropWhile is_space xs of y # ys \<Rightarrow> y = c | [] \<Rightarrow> False)
      then c # drop_commas c (tl (dropWhile is_space xs))
      else x # drop_commas c xs)"
  by pat_completeness auto
termination
  by (relation "measure (\<lambda>(c, s). length s)")
    (auto simp: less_Suc_eq_le intro: order_trans[OF diff_le_self length_dropWhile_le])

definition extract_json :: "string \<Rightarrow> json res" where
  "extract_json raw =
     (case braces raw of
        None \<Rightarrow> Throw (Err (''AI did not return a JSON object:'' @ nl @ raw))
      | Some t \<Rightarrow>
          let jsonText = drop_commas (CHR '']'') (drop_commas (CHR ''}'') t) in
          (case JSON_parse jsonText of
             Throw e \<Rightarrow> Throw (Err (''Failed to parse AI response: '' @ exn_message e @ nl @ jsonText))
           | r \<Rightarrow> r))"

definition num_arg :: "'x ext \<Rightarrow> string \<Rightarrow> jsval" where
  "num_arg X k = Some (json_num (env_number X k))"

text \<open>The configuration and the preview of the mint.\<close>

definition generateLaunchConfig ::
  "'x ext \<Rightarrow> (('x, 'e) fw_state_scheme, launch_params \<times> string) io" where
  "generateLaunchConfig X =
     bnd (ask_ollama X config_prompt) (\<lambda>raw.
     bnd (of_res (extract_json raw)) (\<lambda>aiCfg.
     bnd (ext (kp_generate X)) (\<lambda>previewPair.
     bnd (of_res (get_prop (Some aiCfg) ''decimals'')) (\<lambda>decimals.
     bnd (of_res (get_prop (Some aiCfg) ''supply'')) (\<lambda>supply.
     bnd (of_res (get_prop (Some aiCfg) ''tokenName'')) (\<lambda>tokenName.
     ret (\<lparr>lp_decimals = decimals, lp_supply = supply, lp_tokenName = tokenName,
           lp_tokenBMint = Some (JStr SOL_MINT), lp_totalRaiseB = num_arg X ''LAUNCH_TOTAL_RAISE_SOL'',
           lp_cliffPeriod = num_arg X ''LAUNCH_CLIFF_PERIOD'', lp_unlockPeriod = num_arg X ''LAUNCH_UNLOCK_PERIOD'',
           lp_startDelay = num_arg X ''LAUNCH_START_DELAY''\<rparr>, kp_public previewPair)))))))"

text \<open>\<open>utils-launcher.js\<close> has its own copies of the image request and of the launch.\<close>

definition generateImage_internal :: "'x ext \<Rightarrow> string \<Rightarrow> (('x, 'e) fw_state_scheme, string) io" where
  "generateImage_internal X prompt =
     bnd (ext (http_fetch X \<lparr>req_url = or_undefined (procenv X ''IMAGE_API_ROOT'') @ ''/obtener_imagen'', req_method = ''POST'',
            req_body = FormBody [(''texto'', prompt)]\<rparr>)) (\<lambda>res.
     if \<not> resp_ok res then
       (let msg = ''Image API '' @ resp_statusText res in andthen (spawn (onError X)) (throw (Err msg)))
     else
       (let filename = last (js_split (resp_text res) ''/'') in
        ret (or_undefined (procenv X ''IMAGE_API_ROOT'') @ ''/images/'' @ filename)))"

definition launchTokenInternal ::
  "'x ext \<Rightarrow> 'x pad \<Rightarrow> launch_params \<Rightarrow> string \<Rightarrow> (('x, 'e) fw_state_scheme, launched) io" where
  "launchTokenInternal X P params userId =
     bnd (ext (redis_get X (''wallet:'' @ userId))) (\<lambda>walletJson.
     if \<not> truthy walletJson then andthen (spawn (onError X)) (throw (Err ''Wallet not found''))
     else
       bnd (of_res (bind_res (JSON_parse (the walletJson)) uint8_from)) (\<lambda>b.
       bnd (of_res (kp_fromSecretKey X b)) (\<lambda>userKP.
       bnd (ext (createMint P userKP (lp_decimals params))) (\<lambda>mint.
       bnd (ext (getOrCreateATA P userKP mint)) (\<lambda>ata.
       andthen (ext (mintTo P userKP mint ata
                  (num_mul (js_number (lp_supply params)) (num_pow10 (js_number (lp_decimals params))))))
      (bnd (generateImageDescription X (lp_tokenName params)) (\<lambda>logoDesc.
       bnd (generateImage_internal X logoDesc) (\<lambda>imageUrl.
       let website = website_of X mint in
       andthen (ext (redis_hset X (''tokenmeta:'' @ mint)
                  [(''name'', str_field (lp_tokenName params)), (''image'', Some imageUrl), (''website'', Some website)]))
      (bnd (launch_pool X P userKP params mint) (\<lambda>poolSignature.
       ret \<lparr>la_mint = mint, la_account = ata, la_imageUrl = imageUrl, la_website = website,
            la_poolSignature = poolSignature\<rparr>))))))))))"

text \<open>The copies agree with the routes of the service.\<close>

lemma generateImage_internal_eq: "generateImage_internal X prompt = generateImage X prompt"
  unfolding generateImage_internal_def generateImage_def Let_def by (rule refl)

lemma launchTokenInternal_eq:
  "launchTokenInternal X P params userId = launch X P (generateImageDescription X (lp_tokenName params)) params userId"
  unfolding launchTokenInternal_def launch_def getUserKP_def mint_token_def store_meta_def wallet_key_def
    generateImage_internal_eq Let_def andthen_def
  by (simp add: bnd_assoc bnd_if bnd_ret bnd_throw cong: if_cong)

section \<open>Reading the answer of the model\<close>

lemma drop_commas_plain: "CHR '','' \<notin> set a \<Longrightarrow> drop_commas c (a @ b) = a @ drop_commas c b"
  by (induction a) auto

lemma drop_commas_kept:
  "y \<noteq> c \<Longrightarrow> \<not> is_space y \<Longrightarrow> drop_commas c (CHR '','' # y # r) = CHR '','' # drop_commas c (y # r)"
  by simp

lemma drop_commas_dropped:
  assumes "\<forall>x\<in>set ws. is_space x" and "\<not> is_space c"
  shows "drop_commas c (CHR '','' # ws @ c # r) = c # drop_commas c r"
proof -
  have "dropWhile is_space (ws @ c # r) = c # r" using assms by (simp add: dropWhile_append2)
  then show ?thesis by simp
qed

lemma braces_found:
  assumes "CHR ''{'' \<notin> set pre" and "CHR ''}'' \<notin> set suf"
  shows "braces (pre @ (CHR ''{'' # m @ ''}'') @ suf) = Some (CHR ''{'' # m @ ''}'')"
proof -
  have "takeWhile (\<lambda>c. c \<noteq> CHR ''{'') (pre @ CHR ''{'' # r) = pre" for r
    using assms(1) by (subst takeWhile_append2) auto
  moreover have "takeWhile (\<lambda>c. c \<noteq> CHR ''}'') (rev suf @ CHR ''}'' # r) = rev suf" for r
    using assms(2) by (subst takeWhile_append2) auto
  ultimately show ?thesis by (simp add: braces_def)
qed

definition cfg_object :: "nat \<Rightarrow> nat \<Rightarrow> string \<Rightarrow> json" where
  "cfg_object d n name = JObj [(''decimals'', JNum (of_nat d)), (''supply'', JNum (of_nat n)), (''tokenName'', JStr name)]"

text \<open>The printed members of such an object.\<close>

definition cfg_members :: "nat \<Rightarrow> nat \<Rightarrow> string \<Rightarrow> string" where
  "cfg_members d n name =
     (quote ''decimals'' @ '':'' @ nat_digits d) @ CHR '','' # (quote ''supply'' @ '':'' @ nat_digits n) @
     CHR '','' # (quote ''tokenName'' @ '':'' @ quote name)"

lemma stringify_cfg:
  assumes "d < 10 ^ 21" and "n < 10 ^ 21"
  shows "JSON_stringify (cfg_object d n name) = CHR ''{'' # cfg_members d n name @ ''}''"
  using assms by (simp add: cfg_object_def cfg_members_def rat_to_string_nat)

lemma hex_digit_no_comma: "n < 16 \<Longrightarrow> hex_digit n \<noteq> CHR '',''"
  using hex_val_digit[of n] by (auto simp: hex_val_def code_def is_digit_def)

lemma quote_no_comma:
  assumes "CHR '','' \<notin> set s"
  shows "CHR '','' \<notin> set (quote s)"
proof -
  have e: "CHR '','' \<notin> set (esc_char c)" if "c \<noteq> CHR '',''" for c
  proof -
    have "hex_digit (code c div 16) \<noteq> CHR '',''" "hex_digit (code c mod 16) \<noteq> CHR '',''"
      by (rule hex_digit_no_comma; use code_less[of c] in simp)+
    with that show ?thesis by (simp add: esc_char_def hex4_def)
  qed
  have "CHR '','' \<notin> set (esc_char c)" if "c \<in> set s" for c
    using assms that by (intro e) auto
  then show ?thesis by (simp add: quote_def)
qed

lemma digits_no_comma: "CHR '','' \<notin> set (nat_digits n)"
  using nat_digits_digits[of "CHR '',''" n] by (auto simp: is_digit_def code_def)

lemma quote_hd: "quote s = CHR 0x22 # tl (quote s)"
  by (simp add: quote_def)

lemma drop_commas_members:
  assumes "CHR '','' \<notin> set name" and "c = CHR ''}'' \<or> c = CHR '']''"
  shows "drop_commas c (CHR ''{'' # cfg_members d n name @ r) = CHR ''{'' # cfg_members d n name @ drop_commas c r"
proof -
  have q: "drop_commas c (CHR '','' # quote s @ t) = CHR '','' # drop_commas c (quote s @ t)" for s t
  proof -
    have "CHR 0x22 \<noteq> c" "\<not> is_space (CHR 0x22)" using assms(2) by (auto simp: is_space_def code_def)
    then show ?thesis using quote_hd[of s] drop_commas_kept[of "CHR 0x22" c] by (metis append_Cons)
  qed
  have plain: "CHR '','' \<notin> set (quote k @ '':'' @ v)" if "CHR '','' \<notin> set k" "CHR '','' \<notin> set v" for k v
    using that quote_no_comma by simp
  have p1: "CHR '','' \<notin> set (CHR ''{'' # quote ''decimals'' @ '':'' @ nat_digits d)"
    and p2: "CHR '','' \<notin> set (quote ''supply'' @ '':'' @ nat_digits n)"
    and p3: "CHR '','' \<notin> set (quote ''tokenName'' @ '':'' @ quote name)"
    using plain[of "''decimals''"] plain[of "''supply''"] plain[of "''tokenName''"] digits_no_comma quote_no_comma[OF assms(1)]
    by simp_all
  show ?thesis
    unfolding cfg_members_def
    using drop_commas_plain[OF p1, of c] drop_commas_plain[OF p2, of c] drop_commas_plain[OF p3, of c]
      q[of "''supply''"] q[of "''tokenName''"]
    by (simp del: drop_commas.simps)
qed

lemma wf_nat: "k < 10 ^ 21 \<Longrightarrow> wf_json (JNum (of_nat k))"
  by (simp add: exI[of _ "int k"])

lemma extract_cfg:
  assumes "CHR ''{'' \<notin> set pre" and "CHR ''}'' \<notin> set suf" and "CHR '','' \<notin> set name"
    and "d < 10 ^ 21" and "n < 10 ^ 21" and "sep = [] \<or> (\<exists>ws. sep = CHR '','' # ws \<and> (\<forall>x\<in>set ws. is_space x))"
  shows "extract_json (pre @ (CHR ''{'' # (cfg_members d n name @ sep) @ ''}'') @ suf) = Ok (cfg_object d n name)"
proof -
  let ?t = "CHR ''{'' # cfg_members d n name @ ''}''"
  have "drop_commas (CHR ''}'') (sep @ ''}'') = ''}''"
  proof (cases "sep = []")
    case False
    with assms(6) obtain ws where s: "sep = CHR '','' # ws" and ws: "\<forall>x\<in>set ws. is_space x" by blast
    have "\<not> is_space (CHR ''}'')" by (simp add: is_space_def code_def)
    from drop_commas_dropped[OF ws this, of "[]"] show ?thesis unfolding s by (simp only: append.simps drop_commas.simps(1))
  qed simp
  then have c: "drop_commas (CHR ''}'') (CHR ''{'' # (cfg_members d n name @ sep) @ ''}'') = ?t"
    using drop_commas_members[OF assms(3) disjI1[OF refl], of d n "sep @ ''}''"] by (simp only: append_assoc)
  have "drop_commas (CHR '']'') ''}'' = ''}''" by simp
  then have b: "drop_commas (CHR '']'') ?t = ?t"
    using drop_commas_members[OF assms(3) disjI2[OF refl], of d n "''}''"] by (simp only:)
  have "wf_json (cfg_object d n name)"
    using wf_nat[OF assms(4)] wf_nat[OF assms(5)] unfolding cfg_object_def by simp
  then have "JSON_parse ?t = Ok (cfg_object d n name)"
    unfolding stringify_cfg[OF assms(4,5), symmetric] by (rule JSON_parse_stringify)
  then show ?thesis unfolding extract_json_def braces_found[OF assms(1,2)] by (simp only: option.case Let_def c b res.case)
qed

section \<open>Properties\<close>

text \<open>
  C11: API keys.  After a key was issued to a user, and while it is stored, a request that
  names the user is passed on for that user when it carries exactly that key, and is refused
  with 403 and reported to the firewall as spam when it carries any other one.
\<close>

theorem api_key_roundtrip:
  assumes "redis_strings X strings" and "generateApiKey X userId s = (Ok key, s1)"
    and "strings (sys t) (apikey_key userId) = strings (sys s1) (apikey_key userId)"
    and "redis_get X (apikey_key userId) (sys t) = (Ok stored, x)"
    and "map_of (l_headers req) ''x-user-id'' = Some userId" and "userId \<noteq> []"
    and "map_of (l_headers req) ''x-api-key'' = Some k" and "k \<noteq> []"
  shows "validateApiKey X req t =
    (if k = key then (Ok (Inr userId), t\<lparr>sys := x\<rparr>)
     else andthen (spawn (onSpam X)) (ret (Inl forbidden)) (t\<lparr>sys := x\<rparr>))"
proof -
  from assms(2) obtain b y where "redis_setEx X (apikey_key userId) 7200 (hex_encode b) y = (Ok (), sys s1)" "key = hex_encode b"
    by (auto simp: generateApiKey_def ext_def ret_def split: prod.splits elim!: bnd_OkD andthen_OkD)
  then have "strings (sys s1) (apikey_key userId) = Some key"
    using redis_strings.setEx_Ok[OF assms(1)] by fastforce
  with redis_strings.get_Ok[OF assms(1,4)] assms(3) have "stored = Some key" by simp
  with assms(4-8) show ?thesis
    by (auto simp: validateApiKey_def truthy_def bnd_def ext_def ret_def Let_def)
qed

lemma captcha_refuses: "captchaMiddleware X req s = (Ok (Some resp), s') \<Longrightarrow> rs_status resp \<in> {429, 500}"
  by (auto simp: captchaMiddleware_def catch_def bnd_def andthen_def ret_def ext_def Let_def err_resp_def json_resp_def
      split: prod.splits res.splits if_splits)

lemma captcha_passes:
  assumes "captchaMiddleware X req s = (Ok None, s')"
  shows "\<exists>tok fails x s2 x'. map_of (l_headers req) ''x-captcha-token'' = Some tok \<and>
    redis_get X (captcha_key (l_ip req)) (sys s) = (Ok fails, x) \<and>
    verifyRecaptcha X tok (s\<lparr>sys := x\<rparr>) = (Ok True, s2) \<and>
    redis_del X (captcha_key (l_ip req)) (sys s2) = (Ok (), x') \<and> s' = s2\<lparr>sys := x'\<rparr>"
  using assms
  by (auto simp: captchaMiddleware_def truthy_def catch_def bnd_def andthen_def ret_def ext_def Let_def
      split: prod.splits res.splits if_splits)

lemma validate_refuses: "validateApiKey X req s = (Ok (Inl resp), s') \<Longrightarrow> resp = forbidden"
  by (auto simp: validateApiKey_def Let_def ret_def split: if_splits elim!: bnd_OkD andthen_OkD)

lemma validate_passes:
  assumes "validateApiKey X req s = (Ok (Inr u), s')"
  shows "\<exists>k x. map_of (l_headers req) ''x-user-id'' = Some u \<and> map_of (l_headers req) ''x-api-key'' = Some k \<and>
    redis_get X (apikey_key u) (sys s) = (Ok (Some k), x) \<and> s' = s\<lparr>sys := x\<rparr>"
  using assms
  by (auto simp: validateApiKey_def Let_def ret_def truthy_def ext_def split: if_splits prod.splits elim!: bnd_OkD andthen_OkD)

definition key_request :: "string \<Rightarrow> string \<Rightarrow> l_req" where
  "key_request u k = \<lparr>l_method = ''POST'', l_path = ''/buy-token'', l_ip = ''1.2.3.4'',
     l_headers = [(''x-user-id'', u), (''x-api-key'', k)], l_body = None\<rparr>"

theorem api_key_roundtrip_witness:
  "\<exists>key s1. generateApiKey mem_ext ''bob'' sol0 = (Ok key, s1) \<and>
     validateApiKey mem_ext (key_request ''bob'' ''00'') s1 = andthen (spawn (onSpam mem_ext)) (ret (Inl forbidden)) s1 \<and>
     validateApiKey mem_ext (key_request ''bob'' key) s1 = (Ok (Inr ''bob''), s1)"
proof -
  define key where "key = hex_encode (replicate 32 (0 :: byte))"
  let ?s1 = "sol0\<lparr>sys := mem0\<lparr>m_serial := 1, m_str := [(apikey_key ''bob'', key)]\<rparr>\<rparr>"
  have g: "generateApiKey mem_ext ''bob'' sol0 = (Ok key, ?s1)"
    by (simp add: generateApiKey_def bnd_def andthen_def ext_def ret_def mem_ext_def sol0_def mem0_def key_def)
  have r: "redis_get mem_ext (apikey_key ''bob'') (sys ?s1) = (Ok (Some key), sys ?s1)" by (simp add: mem_ext_def)
  have "length key = 64" unfolding key_def by (simp only: hex_encode_length length_replicate)
  then have n: "key \<noteq> []" "key \<noteq> ''00''" by auto
  have h: "map_of (l_headers (key_request ''bob'' k)) ''x-user-id'' = Some ''bob''"
    "map_of (l_headers (key_request ''bob'' k)) ''x-api-key'' = Some k" for k
    by (simp_all add: key_request_def)
  note rt = api_key_roundtrip[OF mem_redis_strings.redis_strings_axioms g refl r h(1) _ h(2)]
  have "validateApiKey mem_ext (key_request ''bob'' ''00'') ?s1 = andthen (spawn (onSpam mem_ext)) (ret (Inl forbidden)) ?s1"
    using rt[of "''00''"] n(2) by simp
  moreover have "validateApiKey mem_ext (key_request ''bob'' key) ?s1 = (Ok (Inr ''bob''), ?s1)"
    using rt[of key] n(1) by simp
  ultimately show ?thesis using g by blast
qed

text \<open>
  Startup.  The process ends with code 1 when a core variable is missing or the key cannot be
  read, and is marked to end with code 1 when Redis cannot be reached.
\<close>

lemma launcher_start_cases:
  "(missingCore X \<noteq> [] \<longrightarrow> launcher_start X P s = (Exit 1, s)) \<and>
   (missingCore X = [] \<longrightarrow>
      fst (launcher_start X P s) = (case PLATFORM_KP X P of Throw e \<Rightarrow> Exit 1 | r \<Rightarrow> r) \<and>
      (\<forall>e x. redis_connect P (sys s) = (Throw e, x) \<longrightarrow> 1 \<in> set (deferred (snd (launcher_start X P s)))))"
  by (auto simp: launcher_start_def launcher_connect_def exit_process_def andthen_def bnd_def spawn_def catch_def of_res_def
      ext_def split: prod.splits res.splits)

lemma request_guarded:
  assumes "launcher_request X P req s = (Ok resp, s')" and "\<not> is_public req"
  shows "rs_status resp \<in> {403, 429, 500} \<or>
    (\<exists>tok fails x0 s1 x1 u k x2.
       map_of (l_headers req) ''x-captcha-token'' = Some tok \<and>
       redis_get X (captcha_key (l_ip req)) (sys s) = (Ok fails, x0) \<and>
       verifyRecaptcha X tok (s\<lparr>sys := x0\<rparr>) = (Ok True, s1) \<and>
       redis_del X (captcha_key (l_ip req)) (sys s1) = (Ok (), x1) \<and>
       map_of (l_headers req) ''x-user-id'' = Some u \<and> map_of (l_headers req) ''x-api-key'' = Some k \<and>
       redis_get X (apikey_key u) x1 = (Ok (Some k), x2) \<and>
       launcher_route X P u req (s1\<lparr>sys := x2\<rparr>) = (Ok resp, s'))"
proof -
  have "\<not> (l_method req = ''POST'' \<and> l_path req = ''/get-api-key'')" using assms(2) by (auto simp: is_public_def)
  with assms have "protected_request X P req s = (Ok resp, s')" by (simp add: launcher_request_def)
  then obtain c s1 where c: "captchaMiddleware X req s = (Ok c, s1)"
    and r: "(case c of Some resp \<Rightarrow> ret resp
       | None \<Rightarrow> bnd (validateApiKey X req) (\<lambda>v. case v of Inl resp \<Rightarrow> ret resp | Inr userId \<Rightarrow> launcher_route X P userId req)) s1 =
      (Ok resp, s')"
    unfolding protected_request_def by (elim bnd_OkD)
  show ?thesis
  proof (cases c)
    case (Some d)
    with r have "resp = d" by (simp add: ret_def)
    with captcha_refuses[of X req s d s1] c Some show ?thesis by auto
  next
    case None
    with r obtain v s2 where v: "validateApiKey X req s1 = (Ok v, s2)"
      and w: "(case v of Inl resp \<Rightarrow> ret resp | Inr userId \<Rightarrow> launcher_route X P userId req) s2 = (Ok resp, s')"
      by (auto elim: bnd_OkD)
    show ?thesis
    proof (cases v)
      case (Inl d)
      with w v validate_refuses[of X req s1 d s2] show ?thesis by (simp add: ret_def forbidden_def)
    next
      case (Inr u)
      from captcha_passes[of X req s s1] c None obtain tok fails x0 t x1 where
        "map_of (l_headers req) ''x-captcha-token'' = Some tok"
        "redis_get X (captcha_key (l_ip req)) (sys s) = (Ok fails, x0)"
        "verifyRecaptcha X tok (s\<lparr>sys := x0\<rparr>) = (Ok True, t)"
        "redis_del X (captcha_key (l_ip req)) (sys t) = (Ok (), x1)" and s1: "s1 = t\<lparr>sys := x1\<rparr>" by blast
      with validate_passes[of X req s1 u s2] v w Inr show ?thesis by fastforce
    qed
  qed
qed

text \<open>
  C9: The launcher's protected routes.  A request to anything but the two public endpoints
  (a preflight request apart) is refused with 403, 429 or 500, or, in this order, its body was
  parsed, its captcha token was verified, the failure count of its address was reset, its API
  key was the stored key of the user it names, and the route answered for that user.
\<close>

theorem launcher_guarded:
  assumes "launcher_http X P parsed req s = (Ok resp, s')" and "\<not> is_public req" and "l_method req \<noteq> ''OPTIONS''"
  shows "rs_status resp \<in> {403, 429, 500} \<or>
    (\<exists>body tok fails x0 s1 x1 u k x2.
       parsed = Ok body \<and>
       map_of (l_headers req) ''x-captcha-token'' = Some tok \<and>
       redis_get X (captcha_key (l_ip req)) (sys s) = (Ok fails, x0) \<and>
       verifyRecaptcha X tok (s\<lparr>sys := x0\<rparr>) = (Ok True, s1) \<and>
       redis_del X (captcha_key (l_ip req)) (sys s1) = (Ok (), x1) \<and>
       map_of (l_headers req) ''x-user-id'' = Some u \<and> map_of (l_headers req) ''x-api-key'' = Some k \<and>
       redis_get X (apikey_key u) x1 = (Ok (Some k), x2) \<and>
       launcher_route X P u (req\<lparr>l_body := body\<rparr>) (s1\<lparr>sys := x2\<rparr>) = (Ok resp, s'))"
proof -
  let ?m = "bnd (of_res parsed) (\<lambda>body. launcher_request X P (req\<lparr>l_body := body\<rparr>))"
  obtain r t where m: "?m s = (r, t)" by force
  show ?thesis
  proof (cases r)
    case (Ok resp')
    with assms(1,3) m have "?m s = (Ok resp, s')" by (simp add: launcher_http_def catch_def)
    then obtain body where p: "parsed = Ok body" and q: "launcher_request X P (req\<lparr>l_body := body\<rparr>) s = (Ok resp, s')"
      by (auto simp: of_res_def elim!: bnd_OkD)
    have "\<not> is_public (req\<lparr>l_body := body\<rparr>)" using assms(2) by (simp add: is_public_def)
    from request_guarded[OF q this] p show ?thesis by auto
  next
    case (Throw e)
    with assms(1,3) m have "launcher_error X e t = (Ok resp, s')" by (simp add: launcher_http_def catch_def)
    then show ?thesis by (auto simp: launcher_error_def ret_def err_resp_def json_resp_def elim!: andthen_OkD)
  qed (use assms(1,3) m in \<open>simp add: launcher_http_def catch_def\<close>)
qed

definition no_pad :: "mem pad" where
  "no_pad = \<lparr>redis_connect = (\<lambda>x. (Ok (), x)), bs58_decode = (\<lambda>s. Throw (Err ''Non-base58 character'')),
     publicKey_value = (\<lambda>v. Throw (Err ''Invalid public key input'')),
     createMint = (\<lambda>k d x. (Ok ''MINT'', x)), getOrCreateATA = (\<lambda>k m x. (Ok ''ATA'', x)), mintTo = (\<lambda>k m a n x. (Ok (), x)),
     createLaunchpadPool = (\<lambda>k p c g x. (Ok [], x)), buyLaunchpadToken = (\<lambda>k p a t g x. (Ok [], x)),
     sellLaunchpadToken = (\<lambda>k p a t g x. (Ok [], x)), sendAndConfirm = (\<lambda>t k x. (Ok ''SIG'', x))\<rparr>"

theorem launcher_guarded_witness:
  "\<exists>resp s'. launcher_http mem_ext no_pad (Ok None) (key_request ''bob'' ''00'') sol0 = (Ok resp, s') \<and>
     rs_status resp \<in> {403, 429, 500}"
proof -
  let ?req = "key_request ''bob'' ''00''"
  have np: "\<not> is_public ?req" by (simp add: is_public_def key_request_def)
  have no: "l_method ?req \<noteq> ''OPTIONS''" by (simp add: key_request_def)
  obtain resp s' where run: "launcher_http mem_ext no_pad (Ok None) ?req sol0 = (Ok resp, s')"
    using np by (simp add: launcher_http_def of_res_def is_public_def launcher_request_def protected_request_def captchaMiddleware_def truthy_def catch_def bnd_def ext_def
        ret_def mem_ext_def Let_def key_request_def)
  have "map_of (l_headers ?req) ''x-captcha-token'' = None" by (simp add: key_request_def)
  with launcher_guarded[OF run np no] have "rs_status resp \<in> {403, 429, 500}" by auto
  with run show ?thesis by blast
qed


text \<open>A model that answers with prose around an object with a trailing comma.\<close>

definition chatty_reply :: json where
  "chatty_reply = JObj [(''response'', JStr (''Sure: '' @ (CHR ''{'' # (cfg_members 6 1000 ''DOGGO'' @ '', '') @ ''}'') @ '' Enjoy!''))]"

definition chatty_ext :: "mem ext" where
  "chatty_ext = mem_ext\<lparr>http_fetch := (\<lambda>r x.
     (Ok \<lparr>resp_ok = True, resp_statusText = ''OK'', resp_text = JSON_stringify chatty_reply\<rparr>, x))\<rparr>"


end
