(* ===== verification/JSON_Pretty.thy ===== *)
theory JSON_Pretty
  imports JSON_Props
begin

text \<open>
  \<open>JSON.stringify(value, null, 2)\<close>, as the clients use it to show a launch configuration and
  to save cookies, and that \<open>JSON.parse\<close> reads it back.
\<close>

section \<open>Printing with indentation\<close>

definition line_at :: "nat \<Rightarrow> string" where
  "line_at d = CHR 0x0A # replicate (2 * d) (CHR '' '')"

fun pretty :: "nat \<Rightarrow> json \<Rightarrow> string" where
  "pretty d (JArr vs) =
     (if vs = [] then ''[]''
      else ''['' @ line_at (Suc d) @ join ('','' @ line_at (Suc d)) (map (pretty (Suc d)) vs) @ line_at d @ '']'')"
| "pretty d (JObj kvs) =
     (if kvs = [] then ''{}''
      else ''{'' @ line_at (Suc d) @
           join ('','' @ line_at (Suc d)) (map (\<lambda>(k, v). quote k @ '': '' @ pretty (Suc d) v) kvs) @ line_at d @ ''}'')"
| "pretty d v = JSON_stringify v"

definition JSON_stringify2 :: "json \<Rightarrow> string" where
  "JSON_stringify2 v = pretty 0 v"

section \<open>Reading it back\<close>

lemma line_at_blank: "list_all is_jws (line_at d)"
  by (simp add: line_at_def list_all_length is_jws_def code_def nth_Cons split: nat.splits)

lemma member_text_pretty:
  "(\<lambda>(k, v). quote k @ CHR '':'' # CHR '' '' # pretty d v) = member_text (\<lambda>v. CHR '' '' # pretty d v)"
  by (auto simp: member_text_def)

lemma p_char_line:
  assumes "opens s" and "c \<in> {CHR '']'', CHR ''}''}"
  shows "p_char c (line_at d @ s) = None"
  unfolding p_char_blank[OF line_at_blank] using assms by (rule p_char_opens)

lemma opens_pretty: "wf_json j \<Longrightarrow> opens (pretty d j)"
  using opens_stringify[of j] by (cases j) (auto simp: opens_def)

lemma p_val_pretty:
  "wf_json j \<Longrightarrow> num_end r \<Longrightarrow> 2 * length (pretty d j) + 1 \<le> n \<Longrightarrow> p_val n (pretty d j @ r) = Some (j, r)"
proof (induction j arbitrary: d n r)
  case (JArr vs)
  from JArr.prems(3) obtain m where n: "n = Suc m" by (cases n) auto
  let ?w = "line_at (Suc d)"
  let ?text = "join (CHR '','' # ?w) (map (pretty (Suc d)) vs)"
  show ?case
  proof (cases "vs = []")
    case True
    with n show ?thesis by (simp add: skip_ws_def p_char_hit)
  next
    case False
    then obtain v us where "vs = v # us" by (cases vs) auto
    then have op: "opens (?text @ line_at d @ CHR '']'' # r)"
      using JArr.prems(1) opens_append[OF opens_pretty] by (cases us) auto
    have "p_arr m (?text @ line_at d @ CHR '']'' # r) = Some (vs, r)"
    proof (rule p_arr_join[OF _ False _ line_at_blank line_at_blank])
      fix v n r
      assume "v \<in> set vs" "num_end r" "2 * length (pretty (Suc d) v) + 1 \<le> n"
      then show "p_val n (pretty (Suc d) v @ r) = Some (v, r)"
        using JArr.IH[of v r "Suc d" n] JArr.prems(1) by simp
    qed (use False JArr.prems(3) n in simp)
    then have "p_arr m (?w @ ?text @ line_at d @ CHR '']'' # r) = Some (vs, r)"
      by (simp only: p_arr_blank[OF line_at_blank])
    then show ?thesis using n False p_char_line[OF op, of "CHR '']''" "Suc d"] by (simp add: skip_ws_def)
  qed
next
  case (JObj kvs)
  from JObj.prems(3) obtain m where n: "n = Suc m" by (cases n) auto
  have d: "obj_of kvs = kvs" using JObj.prems(1) by (simp add: obj_of_distinct)
  let ?w = "line_at (Suc d)" and ?f = "\<lambda>v. CHR '' '' # pretty (Suc d) v"
  let ?text = "join (CHR '','' # ?w) (map (member_text ?f) kvs)"
  show ?case
  proof (cases "kvs = []")
    case True
    with n show ?thesis by (simp add: skip_ws_def p_char_hit)
  next
    case False
    then obtain k v us where "kvs = (k, v) # us" by (cases kvs) auto
    then have op: "opens (?text @ line_at d @ CHR ''}'' # r)"
      by (cases us) (auto simp: opens_def quote_def)
    have "p_obj m (?text @ line_at d @ CHR ''}'' # r) = Some (kvs, r)"
    proof (rule p_obj_join[OF _ False _ line_at_blank line_at_blank])
      fix k v n r
      assume kv: "(k, v) \<in> set kvs" and "num_end r" "2 * length (?f v) + 1 \<le> n"
      moreover from JObj.prems(1) kv have "wf_json v" by force
      ultimately have "p_val n (pretty (Suc d) v @ r) = Some (v, r)"
        using JObj.IH[of "(k, v)" v r "Suc d" n] by simp
      then show "p_val n (?f v @ r) = Some (v, r)"
        using p_val_blank[of "'' ''" n "pretty (Suc d) v @ r"] by (simp add: is_jws_def code_def)
    qed (use False JObj.prems(3) n in \<open>simp add: member_text_pretty\<close>)
    then have "p_obj m (?w @ ?text @ line_at d @ CHR ''}'' # r) = Some (kvs, r)"
      by (simp only: p_obj_blank[OF line_at_blank])
    then show ?thesis
      using n d False p_char_line[OF op, of "CHR ''}''" "Suc d"] by (simp add: skip_ws_def member_text_pretty)
  qed
qed (simp only: pretty.simps, rule p_val_stringify, assumption+)+

lemma JSON_parse_pretty: "wf_json j \<Longrightarrow> JSON_parse (JSON_stringify2 j) = Ok j"
  using p_val_pretty[of j "[]" 0 "2 * length (JSON_stringify2 j) + 2"]
  by (simp add: JSON_parse_def JSON_stringify2_def skip_ws_def)

interpretation json2: codec JSON_stringify2
  "\<lambda>s. case JSON_parse s of Ok j \<Rightarrow> Some j | _ \<Rightarrow> None" "\<lambda>j. j" wf_json
  by unfold_locales (simp add: JSON_parse_pretty)

end
