(* ===== verification/Telegram.thy ===== *)
theory Telegram
  imports Agent Launcher JSON_Pretty
begin

text \<open>
  The Telegram front end: \<open>telegram-client.js\<close> with the helpers that \<open>index.js\<close> gives
  it.  The bot framework (\<open>telegraf\<close>) and the local time are the record \<open>'x tg\<close>; updates
  arrive as values of \<open>tg_update\<close> and are handled one at a time.  Texts are values of a
  datatype with one constructor per template, and labels are without their symbols.  The helpers
  \<open>ensureUser\<close> and \<open>saveChatId\<close> are the empty functions of \<open>index.js\<close> and leave no
  trace.  \<open>return ctx.replyWithPhoto(...)\<close> inside \<open>try\<close> is not awaited there, so its
  failure is the failure of the handler.

  Lemmas: the buttons of all menus lead to all actions, for the handle they were made for; the
  launchpad is used only on request; the set of users whose next text is a launch configuration
  refines its specification; quick orders carry no handle; the history shows no text.
\<close>

section \<open>Texts, buttons and keyboards\<close>

datatype tg_text =
    Greeting string string
  | Menu_title string
  | Balance_text string string string jsnum
  | Price_text string string string
  | No_price_text
  | Portfolio_text string string portfolio
  | Trade_choice string
  | History_text string string
  | Deposit_text string string
  | Auto_text string bool string string
  | Help_text string
  | Order_sent string string string
  | Launch_choice string
  | Generating
  | Config_text string
  | Config_failed string
  | No_config
  | Launching
  | Launched_text launched
  | Launch_failed string
  | Send_config
  | Bad_config
  | Launching_manual

datatype action =
    BAL | PRICE | PORT | TRADE | HIST | DEP | AON | AOF | HELP | QB | QS | BK | LAUNCH | AICFG | LAUNCH_CONF | MANUAL

fun action_id :: "action \<Rightarrow> string" where
  "action_id BAL = ''BAL''"
| "action_id PRICE = ''PRICE''"
| "action_id PORT = ''PORT''"
| "action_id TRADE = ''TRADE''"
| "action_id HIST = ''HIST''"
| "action_id DEP = ''DEP''"
| "action_id AON = ''AON''"
| "action_id AOF = ''AOF''"
| "action_id HELP = ''HELP''"
| "action_id QB = ''QB''"
| "action_id QS = ''QS''"
| "action_id BK = ''BK''"
| "action_id LAUNCH = ''LAUNCH''"
| "action_id AICFG = ''AICFG''"
| "action_id LAUNCH_CONF = ''LAUNCH_CONF''"
| "action_id MANUAL = ''MANUAL''"

definition actions :: "action list" where
  "actions = [BAL, PRICE, PORT, TRADE, HIST, DEP, AON, AOF, HELP, QB, QS, BK, LAUNCH, AICFG, LAUNCH_CONF, MANUAL]"

instantiation action :: enum
begin

definition enum_action :: "action list" where
  "enum_action = actions"

definition enum_all_action :: "(action \<Rightarrow> bool) \<Rightarrow> bool" where
  "enum_all_action Q = list_all Q actions"

definition enum_ex_action :: "(action \<Rightarrow> bool) \<Rightarrow> bool" where
  "enum_ex_action Q = list_ex Q actions"

instance
proof
  have all: "a \<in> set actions" for a by (cases a) (simp_all add: actions_def)
  show "UNIV = set (enum_class.enum :: action list)" using all by (auto simp: enum_action_def)
  show "distinct (enum_class.enum :: action list)" by (simp add: enum_action_def actions_def)
  show "enum_class.enum_all Q \<longleftrightarrow> Ball UNIV Q" for Q :: "action \<Rightarrow> bool"
    using all by (auto simp: enum_all_action_def list_all_iff)
  show "enum_class.enum_ex Q \<longleftrightarrow> Bex UNIV Q" for Q :: "action \<Rightarrow> bool"
    using all by (auto simp: enum_ex_action_def list_ex_iff)
qed

end

definition action_of :: "string option \<Rightarrow> action option" where
  "action_of i = List.find (\<lambda>a. Some (action_id a) = i) actions"

text \<open>The helpers the client calls: a stub of its own, or the function it was given, by name.\<close>

datatype helper = Stub | Given string

definition helper_stubs :: "(string \<times> helper) list" where
  "helper_stubs = map (\<lambda>n. (n, Stub))
     [''walletOf'', ''balanceOf'', ''fetchSolPrice'', ''getPortfolio'', ''getHistory'', ''ensureUser'', ''saveChatId'',
      ''toggleAuto'', ''setRisk'', ''generateLaunchConfig'', ''previewImage'', ''launchToken'']"

text \<open>\<open>{ ...this.helpers, ...helpersObj }\<close>\<close>

definition setHelpers :: "(string \<times> 'h) list \<Rightarrow> (string \<times> 'h) list \<Rightarrow> (string \<times> 'h) list" where
  "setHelpers helpers helpersObj = foldl (\<lambda>m (k, v). obj_put m k v) helpers helpersObj"

lemma map_of_setHelpers:
  "map_of (setHelpers helpers helpersObj) k =
     (case map_of (rev helpersObj) k of Some v \<Rightarrow> Some v | None \<Rightarrow> map_of helpers k)"
proof (induction helpersObj arbitrary: helpers)
  case (Cons kv rest)
  then show ?case by (cases kv) (auto simp: setHelpers_def map_of_obj_put map_add_def split: option.splits)
qed (simp add: setHelpers_def)

text \<open>A button is its label and its data.\<close>

type_synonym button = "string \<times> string"

definition cbData :: "string \<Rightarrow> string option \<Rightarrow> string" where
  "cbData actionId handle = actionId @ '':'' @ or_undefined handle"

definition btn :: "string \<Rightarrow> action \<Rightarrow> string option \<Rightarrow> button" where
  "btn label a handle = (label, cbData (action_id a) handle)"

text \<open>The arguments of \<open>Markup.inlineKeyboard\<close>: rows or a flat list, and the columns.\<close>

datatype keyboard = Rows "button list list" nat | Flat "button list" nat

fun buttons :: "keyboard \<Rightarrow> button list" where
  "buttons (Rows bss n) = concat bss"
| "buttons (Flat bs n) = bs"

definition mainMenu :: "string option \<Rightarrow> keyboard" where
  "mainMenu handle =
     Rows [[btn ''Balance'' BAL handle, btn ''Price'' PRICE handle, btn ''Portfolio'' PORT handle],
           [btn ''Trade'' TRADE handle, btn ''History'' HIST handle, btn ''Deposit'' DEP handle],
           [btn ''Auto ON'' AON handle, btn ''Auto OFF'' AOF handle, btn ''Launch'' LAUNCH handle],
           [btn ''Help'' HELP handle]] 3"

definition tradeMenu :: "string option \<Rightarrow> keyboard" where
  "tradeMenu handle = Flat [btn ''Buy 0.10'' QB handle, btn ''Sell 0.10'' QS handle, btn ''Back'' BK handle] 3"

definition launchMenu :: "string option \<Rightarrow> keyboard" where
  "launchMenu handle =
     Flat [btn ''AI Launch'' AICFG handle, btn ''Manual Launch'' MANUAL handle, btn ''Back'' BK handle] 2"

definition confirmMenu :: "string option \<Rightarrow> keyboard" where
  "confirmMenu handle = Flat [btn ''Confirm & Launch'' LAUNCH_CONF handle, btn ''Back'' LAUNCH handle] 2"

section \<open>Updates and the state of the client\<close>

record tg_from =
  from_id :: string
  from_username :: "string option"
  from_first :: "string option"

record tg_msg =
  tm_from :: tg_from
  tm_chat :: string
  tm_chatType :: string
  tm_text :: string
  tm_entities :: "string list"

record tg_cb =
  cb_from :: tg_from
  cb_data :: string
  cb_msg :: int
  cb_chat :: string

datatype tg_update = Start tg_msg | Press tg_cb | Text tg_msg

record 'x tg =
  tg_launch :: "('x, unit) io"
  tg_getMe :: "('x, string) io"
  tg_answer :: "('x, unit) io"
  tg_edit :: "string \<Rightarrow> int \<Rightarrow> tg_text \<Rightarrow> keyboard \<Rightarrow> ('x, unit) io"
  tg_reply :: "string \<Rightarrow> tg_text \<Rightarrow> keyboard option \<Rightarrow> ('x, unit) io"
  tg_photo :: "string \<Rightarrow> string \<Rightarrow> tg_text \<Rightarrow> keyboard option \<Rightarrow> ('x, unit) io"
  tg_send :: "string \<Rightarrow> reply \<Rightarrow> ('x, unit) io"
  tg_time :: "'x \<Rightarrow> string \<times> 'x"

record 'x tg_state = "'x agent_state" +
  tg_me :: "string option"
  awaitingManual :: "string option set"
  lastConfigs :: "(string \<times> launch_params \<times> string) list"

text \<open>The texts of the environment, read when the module loads.\<close>

definition env_text :: "'x ext \<Rightarrow> string \<Rightarrow> string res" where
  "env_text X k =
     (case procenv X k of
        None \<Rightarrow> Throw (TypeErr ''Cannot read properties of undefined'')
      | Some v \<Rightarrow> Ok (js_replace v ''%AGENT%'' (or_undefined (procenv X ''AGENT_NAME''))))"

definition GREETING :: "'x ext \<Rightarrow> string res" where
  "GREETING X = env_text X ''AGENT_GREETING''"

definition MENU_TITLE :: "'x ext \<Rightarrow> string res" where
  "MENU_TITLE X = env_text X ''AGENT_MENU_TITLE''"

definition sender :: "tg_from \<Rightarrow> string" where
  "sender f = (case from_username f of Some u \<Rightarrow> u | None \<Rightarrow> from_id f)"

definition first_or :: "tg_from \<Rightarrow> string option \<Rightarrow> string" where
  "first_or f handle = (if truthy (from_first f) then the (from_first f) else or_undefined handle)"

definition tg_init :: "'x tg \<Rightarrow> (('x, 'e) tg_state_scheme, unit) io" where
  "tg_init T =
     andthen (ext (tg_launch T))
    (bnd (ext (tg_getMe T)) (\<lambda>username. modify (\<lambda>s. s\<lparr>tg_me := Some (toLowerCase username)\<rparr>)))"

section \<open>The start command\<close>

definition on_start :: "'x ext \<Rightarrow> 'x tg \<Rightarrow> tg_msg \<Rightarrow> (('x, 'e) base_scheme, unit) io" where
  "on_start X T m =
     (let handle = sender (tm_from m); name = first_or (tm_from m) (Some handle); img = procenv X ''AGENT_GREETING_IMG'' in
      bnd (of_res (GREETING X)) (\<lambda>greeting.
      andthen (if truthy img then ext (tg_photo T (tm_chat m) (the img) (Greeting greeting name) None)
               else ext (tg_reply T (tm_chat m) (Greeting greeting name) None))
     (bnd (of_res (MENU_TITLE X)) (\<lambda>title.
      ext (tg_reply T (tm_chat m) (Menu_title title) (Some (mainMenu (Some handle))))))))"

section \<open>Buttons\<close>

record tg_ctx =
  cx_chat :: string
  cx_msg :: int
  cx_name :: string
  cx_now :: string

definition editOrReply :: "'x tg \<Rightarrow> tg_ctx \<Rightarrow> tg_text \<Rightarrow> keyboard \<Rightarrow> (('x, 'e) base_scheme, unit) io" where
  "editOrReply T c t menu =
     catch (ext (tg_edit T (cx_chat c) (cx_msg c) t menu))
           (\<lambda>e. ext (tg_reply T (cx_chat c) t (Some menu)))"

text \<open>
  The history: its entries are objects, which a template string prints without their content.
\<close>

definition history_entry :: "(string \<times> string option) list \<Rightarrow> json" where
  "history_entry l = JObj (concat (map (\<lambda>(k, v). opt_member k v) l))"

fun number_from :: "nat \<Rightarrow> json list \<Rightarrow> string list" where
  "number_from i [] = []"
| "number_from i (l # ls) = (nat_digits i @ ''. '' @ js_string l) # number_from (Suc i) ls"

definition history_list :: "(string \<times> string option) list list \<Rightarrow> string" where
  "history_list hist =
     (if hist = [] then ''_No history yet._'' else join nl (number_from 1 (map history_entry hist)))"

definition previewCfg :: "launch_params \<times> string \<Rightarrow> json" where
  "previewCfg cfg =
     JObj (val_member ''decimals'' (lp_decimals (fst cfg)) @ val_member ''supply'' (lp_supply (fst cfg)) @
           val_member ''tokenName'' (lp_tokenName (fst cfg)) @ [(''tokenMint'', JStr (snd cfg))])"

text \<open>A value, or the message of the error that was caught.\<close>

definition tried :: "('s, 'a) io \<Rightarrow> ('s, string + 'a) io" where
  "tried m = catch (bnd m (\<lambda>a. ret (Inr a))) (\<lambda>e. ret (Inl (exn_message e)))"

definition ai_config ::
  "'x ext \<Rightarrow> 'x tg \<Rightarrow> string \<Rightarrow> string option \<Rightarrow> (('x, 'e) tg_state_scheme, unit) io" where
  "ai_config X T chat handle =
     bnd (tried
           (bnd (generateLaunchConfig X) (\<lambda>fullCfg.
            andthen (modify (\<lambda>s. s\<lparr>lastConfigs := obj_put (lastConfigs s) (or_undefined handle) fullCfg\<rparr>))
           (bnd (generateImage_internal X (jsval_string (lp_tokenName (fst fullCfg)))) (\<lambda>imgUrl.
            ret (fullCfg, imgUrl)))))) (\<lambda>r.
     case r of
       Inl msg \<Rightarrow> ext (tg_reply T chat (Config_failed msg) None)
     | Inr p \<Rightarrow> ext (tg_photo T chat (snd p) (Config_text (JSON_stringify2 (previewCfg (fst p)))) (Some (confirmMenu handle))))"

definition show_launch ::
  "'x tg \<Rightarrow> string \<Rightarrow> (('x, 'e) base_scheme, launched) io \<Rightarrow> (('x, 'e) base_scheme, unit) io" where
  "show_launch T chat launchToken =
     bnd (tried launchToken) (\<lambda>r.
     case r of
       Inl msg \<Rightarrow> ext (tg_reply T chat (Launch_failed msg) None)
     | Inr res \<Rightarrow> ext (tg_photo T chat (la_imageUrl res) (Launched_text res) None))"

text \<open>The button message of a quick order, without handle, text and reply.\<close>

definition quick_message :: "string \<Rightarrow> string option \<Rightarrow> 'x message" where
  "quick_message act handle =
     \<lparr>msg_handle = None, msg_text = None,
      msg_button = Some (''BTN::'' @ act @ ''::'' @ SOL_MINT @ ''::'' @ or_undefined handle), msg_reply = None\<rparr>"

definition press ::
  "'x ext \<Rightarrow> 'x pad \<Rightarrow> 'x tg \<Rightarrow> tg_ctx \<Rightarrow> string option \<Rightarrow> action \<Rightarrow> (('x, 'e) tg_state_scheme, unit) io" where
  "press X P T c handle a =
     (let h = or_undefined handle; name = cx_name c; now = cx_now c;
          show_main = (\<lambda>t. editOrReply T c t (mainMenu handle)) in
      case a of
        BAL \<Rightarrow> bnd (balanceOf X h) (\<lambda>b. show_main (Balance_text name now (fst b) (snd b)))
      | PRICE \<Rightarrow>
          bnd (fetchSolPrice X) (\<lambda>p.
          case p of
            Some v \<Rightarrow> bnd (of_res (price_toFixed v)) (\<lambda>d. show_main (Price_text name now d))
          | None \<Rightarrow> show_main No_price_text)
      | PORT \<Rightarrow> bnd (getPortfolio X h) (\<lambda>p. show_main (Portfolio_text name now p))
      | TRADE \<Rightarrow> editOrReply T c (Trade_choice name) (tradeMenu handle)
      | HIST \<Rightarrow> bnd (recall X h 5) (\<lambda>hist. show_main (History_text name (history_list hist)))
      | DEP \<Rightarrow> bnd (walletOf X h) (\<lambda>addr. show_main (Deposit_text name addr))
      | AON \<Rightarrow> bnd (toggleAuto X h (Some True)) (\<lambda>st. show_main (Auto_text name True (snd st) now))
      | AOF \<Rightarrow> bnd (toggleAuto X h (Some False)) (\<lambda>st. show_main (Auto_text name False (snd st) now))
      | HELP \<Rightarrow> show_main (Help_text name)
      | QB \<Rightarrow>
          andthen (editOrReply T c (Order_sent ''buy'' name now) (tradeMenu handle))
                  (handleMessage X (quick_message ''QBUY'' handle))
      | QS \<Rightarrow>
          andthen (editOrReply T c (Order_sent ''sell'' name now) (tradeMenu handle))
                  (handleMessage X (quick_message ''QSELL'' handle))
      | BK \<Rightarrow> bnd (of_res (MENU_TITLE X)) (\<lambda>title. show_main (Menu_title title))
      | LAUNCH \<Rightarrow> editOrReply T c (Launch_choice name) (launchMenu handle)
      | AICFG \<Rightarrow>
          andthen (editOrReply T c Generating (launchMenu handle)) (ai_config X T (cx_chat c) handle)
      | LAUNCH_CONF \<Rightarrow>
          bnd (gets (\<lambda>s. map_of (lastConfigs s) h)) (\<lambda>cfg.
          case cfg of
            None \<Rightarrow> editOrReply T c No_config (launchMenu handle)
          | Some v \<Rightarrow>
              andthen (editOrReply T c Launching (launchMenu handle))
                      (show_launch T (cx_chat c) (launchTokenInternal X P (fst v) h)))
      | MANUAL \<Rightarrow>
          andthen (editOrReply T c Send_config (launchMenu handle))
                  (modify (\<lambda>s. s\<lparr>awaitingManual := insert handle (awaitingManual s)\<rparr>)))"

text \<open>\<open>const [ actionId, handle ] = data.split(':')\<close>\<close>

definition cb_route :: "string \<Rightarrow> action option \<times> string option" where
  "cb_route data = (let parts = js_split data '':'' in (action_of (elem_at parts 0), elem_at parts 1))"

definition on_callback :: "'x ext \<Rightarrow> 'x pad \<Rightarrow> 'x tg \<Rightarrow> tg_cb \<Rightarrow> (('x, 'e) tg_state_scheme, unit) io" where
  "on_callback X P T q =
     (case cb_route (cb_data q) of (a, handle) \<Rightarrow>
      bnd (ext (\<lambda>x. case tg_time T x of (t, x') \<Rightarrow> (Ok t, x'))) (\<lambda>now.
      andthen (catch (ext (tg_answer T)) (\<lambda>e. ret ()))
     (case a of
        None \<Rightarrow> ret ()
      | Some v \<Rightarrow>
          press X P T \<lparr>cx_chat = cb_chat q, cx_msg = cb_msg q, cx_name = first_or (cb_from q) handle, cx_now = now\<rparr>
            handle v)))"

section \<open>Text messages\<close>

text \<open>
  A launch from a parsed text, whose fields are read after the wallet.
\<close>

definition launch_json :: "'x ext \<Rightarrow> 'x pad \<Rightarrow> json \<Rightarrow> string \<Rightarrow> (('x, 'e) fw_state_scheme, launched) io" where
  "launch_json X P cfg userId =
     (case body_params (Some cfg) of
        Ok params \<Rightarrow> launchTokenInternal X P params userId
      | r \<Rightarrow> bnd (getUserKP X userId) (\<lambda>kp. bnd (of_res r) (\<lambda>params. launchTokenInternal X P params userId)))"

definition manual_launch :: "'x ext \<Rightarrow> 'x pad \<Rightarrow> 'x tg \<Rightarrow> tg_msg \<Rightarrow> (('x, 'e) fw_state_scheme, unit) io" where
  "manual_launch X P T m =
     bnd (tried (of_res (JSON_parse (tm_text m)))) (\<lambda>r.
     case r of
       Inl e \<Rightarrow> ext (tg_reply T (tm_chat m) Bad_config None)
     | Inr cfg \<Rightarrow>
         andthen (ext (tg_reply T (tm_chat m) Launching_manual None))
                 (show_launch T (tm_chat m) (launch_json X P cfg (sender (tm_from m)))))"

text \<open>Usernames of bots consist of letters, digits and underscores.\<close>

definition strip_me :: "string option \<Rightarrow> string \<Rightarrow> string" where
  "strip_me me t = (if truthy me then js_trim (remove_ci (CHR ''@'' # the me) t) else t)"

definition addressed :: "tg_msg \<Rightarrow> bool" where
  "addressed m \<longleftrightarrow> tm_chatType m = ''private'' \<or> ''mention'' \<in> set (tm_entities m) \<or> startsWith (tm_text m) ''/''"

definition on_text :: "'x ext \<Rightarrow> 'x pad \<Rightarrow> 'x tg \<Rightarrow> tg_msg \<Rightarrow> (('x, 'e) tg_state_scheme, unit) io" where
  "on_text X P T m =
     (let handle = sender (tm_from m) in
      bnd (gets (\<lambda>s. Some handle \<in> awaitingManual s)) (\<lambda>manual.
      if manual then
        andthen (modify (\<lambda>s. s\<lparr>awaitingManual := awaitingManual s - {Some handle}\<rparr>)) (manual_launch X P T m)
      else if \<not> addressed m then ret ()
      else
        bnd (gets tg_me) (\<lambda>me.
        spawn (handleMessage X
          \<lparr>msg_handle = Some handle, msg_text = Some (strip_me me (tm_text m)), msg_button = None,
           msg_reply = Some (tg_send T (tm_chat m))\<rparr>))))"

fun tg_handle :: "'x ext \<Rightarrow> 'x pad \<Rightarrow> 'x tg \<Rightarrow> tg_update \<Rightarrow> (('x, 'e) tg_state_scheme, unit) io" where
  "tg_handle X P T (Start m) = on_start X T m"
| "tg_handle X P T (Press q) = on_callback X P T q"
| "tg_handle X P T (Text m) = on_text X P T m"

section \<open>What the handlers leave alone\<close>

context fw_order
begin

lemma stays_generateImage: "stays R (generateImage X t)" "stays R (generateImage_internal X t)"
  unfolding generateImage_internal_eq generateImage_def Let_def by (intro base_rules stays_incident)+

lemma stays_getUserKP: "stays R (getUserKP X h)"
  unfolding getUserKP_def by (intro base_rules stays_incident)

lemma stays_ask_ollama: "stays R (ask_ollama X t)"
  unfolding ask_ollama_def by (intro base_rules stays_incident)

lemma stays_generateLaunchConfig: "stays R (generateLaunchConfig X)"
  unfolding generateLaunchConfig_def by (intro base_rules stays_ask_ollama)

lemma stays_launchTokenInternal: "stays R (launchTokenInternal X P p h)"
  unfolding launchTokenInternal_eq launch_def mint_token_def generateImageDescription_def store_meta_def
    launch_pool_def open_pool_def
  by (intro base_rules stays_getUserKP stays_ask_ollama stays_generateImage stays_now_ms)

lemma stays_launch_json: "stays R (launch_json X P cfg h)"
  unfolding launch_json_def by (cases "body_params (Some cfg)") (simp_all add: stays_launchTokenInternal stays_bnd stays_getUserKP stays_pure)

end

context base_order
begin

lemma stays_tried: "stays R m \<Longrightarrow> stays R (tried m)"
  unfolding tried_def by (intro base_rules)

lemma stays_editOrReply: "stays R (editOrReply T c t k)"
  unfolding editOrReply_def by (intro base_rules)

lemma stays_show_launch: "stays R m \<Longrightarrow> stays R (show_launch T chat m)"
  unfolding show_launch_def by (intro base_rules stays_tried) (auto split: sum.splits intro: stays_ext)

lemma stays_on_start: "stays R (on_start X T m)"
  unfolding on_start_def Let_def by (intro base_rules)

end

section \<open>Whose next text is a configuration\<close>

text \<open>
  A machine whose steps report whether they succeeded refines a specification over events and
  outcomes when every step does; then so does every run.
\<close>

locale observed_machine =
  fixes act :: "'e \<Rightarrow> 's \<Rightarrow> bool \<times> 's"
    and spec :: "'e \<Rightarrow> bool \<Rightarrow> 'a \<Rightarrow> 'a"
    and view :: "'s \<Rightarrow> 'a"
  assumes act_refines: "act e s = (ok, s') \<Longrightarrow> view s' = spec e ok (view s)"
begin

fun acts :: "'e list \<Rightarrow> 's \<Rightarrow> bool list \<times> 's" where
  "acts [] s = ([], s)"
| "acts (e # es) s = (case act e s of (ok, s1) \<Rightarrow> case acts es s1 of (oks, s2) \<Rightarrow> (ok # oks, s2))"

lemma acts_refine: "acts es s = (oks, s') \<Longrightarrow> view s' = fold (\<lambda>(e, ok). spec e ok) (zip es oks) (view s)"
proof (induction es arbitrary: s oks)
  case (Cons e es)
  obtain ok s1 where a: "act e s = (ok, s1)" by force
  with Cons.prems obtain oks1 where as: "acts es s1 = (oks1, s')" "oks = ok # oks1" by (auto split: prod.splits)
  from Cons.IH[OF as(1)] as(2) act_refines[OF a] show ?case by simp
qed simp

end

definition same_waiting :: "('x, 'e) tg_state_scheme \<Rightarrow> ('x, 'e) tg_state_scheme \<Rightarrow> bool" where
  "same_waiting s s' \<longleftrightarrow> awaitingManual s' = awaitingManual s"

interpretation waiting: agent_order same_waiting
  by unfold_locales (simp_all add: same_waiting_def)

lemma ai_config_waiting: "stays same_waiting (ai_config X T chat h)"
proof -
  have "stays same_waiting (modify (\<lambda>s. s\<lparr>lastConfigs := obj_put (lastConfigs s) k c\<rparr>))" for k c
    by (rule waiting.stays_modify) (simp add: same_waiting_def)
  then show ?thesis
    unfolding ai_config_def
    by (intro waiting.base_rules waiting.stays_tried waiting.stays_generateLaunchConfig waiting.stays_generateImage)
      (auto split: sum.splits intro: waiting.stays_ext)
qed

lemma press_waiting: "a \<noteq> MANUAL \<Longrightarrow> stays same_waiting (press X P T c h a)"
  unfolding press_def Let_def
  by (cases a) (auto intro!: waiting.agent_rules waiting.stays_editOrReply waiting.stays_handleMessage
      waiting.stays_show_launch waiting.stays_launchTokenInternal ai_config_waiting)

lemma press_manual:
  assumes "press X P T c h MANUAL s = (r, s')"
  shows "awaitingManual s' = (if r = Ok () then insert h (awaitingManual s) else awaitingManual s)"
proof -
  obtain r0 s0 where e: "editOrReply T c Send_config (launchMenu h) s = (r0, s0)" by force
  have "awaitingManual s0 = awaitingManual s"
    using staysD[OF waiting.stays_editOrReply e] by (simp add: same_waiting_def)
  with assms e show ?thesis
    by (auto simp: press_def andthen_def bnd_def modify_def split: res.splits)
qed

text \<open>The specification: a text takes its sender out of the set, a successful press of the button puts its handle in.\<close>

fun manual_spec :: "tg_update \<Rightarrow> bool \<Rightarrow> string option set \<Rightarrow> string option set" where
  "manual_spec (Start m) ok A = A"
| "manual_spec (Press q) ok A =
     (if ok \<and> fst (cb_route (cb_data q)) = Some MANUAL then insert (snd (cb_route (cb_data q))) A else A)"
| "manual_spec (Text m) ok A = A - {Some (sender (tm_from m))}"

definition tg_act :: "'x ext \<Rightarrow> 'x pad \<Rightarrow> 'x tg \<Rightarrow> tg_update \<Rightarrow> 'x tg_state \<Rightarrow> bool \<times> 'x tg_state" where
  "tg_act X P T u s = (case tg_handle X P T u s of (r, s') \<Rightarrow> (r = Ok (), s'))"

fun tg_run :: "'x ext \<Rightarrow> 'x pad \<Rightarrow> 'x tg \<Rightarrow> tg_update list \<Rightarrow> 'x tg_state \<Rightarrow> bool list \<times> 'x tg_state" where
  "tg_run X P T [] s = ([], s)"
| "tg_run X P T (u # us) s =
     (case tg_act X P T u s of (ok, s1) \<Rightarrow> case tg_run X P T us s1 of (oks, s2) \<Rightarrow> (ok # oks, s2))"

text \<open>What happens before the action only touches the outside world and does not involve the launchpad.\<close>

lemma on_callback_split:
  assumes "cb_route (cb_data q) = (a, h)"
  obtains rt x where "\<And>P. on_callback X P T q s =
    (case rt of
       Ok now \<Rightarrow>
         (case a of None \<Rightarrow> ret () | Some v \<Rightarrow>
            press X P T \<lparr>cx_chat = cb_chat q, cx_msg = cb_msg q, cx_name = first_or (cb_from q) h, cx_now = now\<rparr> h v)
         (s\<lparr>sys := x\<rparr>)
     | Throw e \<Rightarrow> (Throw e, s\<lparr>sys := x\<rparr>)
     | Exit c \<Rightarrow> (Exit c, s\<lparr>sys := x\<rparr>))"
proof -
  let ?pre = "bnd (ext (\<lambda>x. case tg_time T x of (t, x') \<Rightarrow> (Ok t, x'))) (\<lambda>now.
      andthen (catch (ext (tg_answer T)) (\<lambda>e. ret ())) (ret now)) :: (_, string) io"
  obtain rt s0 where pre: "?pre s = (rt, s0)" by force
  have "stays only_sys ?pre" by (intro outside.sys_rules)
  then obtain x where "s0 = s\<lparr>sys := x\<rparr>" using pre by (auto dest: staysD only_sysD)
  with pre assms show thesis
    by (intro that[where rt=rt and x=x]) (auto simp: on_callback_def bnd_def andthen_def ret_def split: prod.splits res.splits)
qed

lemma on_callback_manual:
  assumes "on_callback X P T q s = (r, s')"
  shows "awaitingManual s' = manual_spec (Press q) (r = Ok ()) (awaitingManual s)"
proof -
  obtain a h where rt: "cb_route (cb_data q) = (a, h)" by force
  let ?act = "\<lambda>now. case a of None \<Rightarrow> ret () | Some v \<Rightarrow>
      press X P T \<lparr>cx_chat = cb_chat q, cx_msg = cb_msg q, cx_name = first_or (cb_from q) h, cx_now = now\<rparr> h v"
  obtain r0 x where eq: "on_callback X P T q s = (case r0 of Ok now \<Rightarrow> ?act now (s\<lparr>sys := x\<rparr>)
      | Throw e \<Rightarrow> (Throw e, s\<lparr>sys := x\<rparr>) | Exit c \<Rightarrow> (Exit c, s\<lparr>sys := x\<rparr>))"
    using on_callback_split[OF rt, of X T s] by blast
  show ?thesis
  proof (cases r0)
    case (Ok now)
    with eq assms have run: "?act now (s\<lparr>sys := x\<rparr>) = (r, s')" by simp
    show ?thesis
    proof (cases "a = Some MANUAL")
      case True
      with run press_manual[of X P T _ h "s\<lparr>sys := x\<rparr>" r s'] rt show ?thesis by auto
    next
      case False
      then have "stays same_waiting (?act now)"
        by (cases a) (auto intro: press_waiting waiting.stays_pure)
      from staysD[OF this run] rt False show ?thesis by (simp add: same_waiting_def)
    qed
  qed (use eq assms in auto)
qed

lemma on_text_manual:
  assumes "on_text X P T m s = (r, s')"
  shows "awaitingManual s' = awaitingManual s - {Some (sender (tm_from m))}"
proof (cases "Some (sender (tm_from m)) \<in> awaitingManual s")
  case True
  let ?s = "s\<lparr>awaitingManual := awaitingManual s - {Some (sender (tm_from m))}\<rparr>"
  have "stays same_waiting (manual_launch X P T m)"
    unfolding manual_launch_def
    by (intro waiting.base_rules waiting.stays_tried)
      (auto split: sum.splits intro!: waiting.base_rules waiting.stays_show_launch waiting.stays_launch_json)
  moreover from assms True have "manual_launch X P T m ?s = (r, s')"
    by (simp add: on_text_def Let_def bnd_def gets_def andthen_def modify_def)
  ultimately have "same_waiting ?s s'" by (rule staysD)
  then show ?thesis by (simp add: same_waiting_def)
next
  case False
  let ?m = "\<lparr>msg_handle = Some (sender (tm_from m)), msg_text = Some (strip_me (tg_me s) (tm_text m)), msg_button = None,
      msg_reply = Some (tg_send T (tm_chat m))\<rparr>"
  from False assms have "s' = s \<or> spawn (handleMessage X ?m) s = (r, s')"
    by (auto simp: on_text_def Let_def bnd_def gets_def ret_def split: if_splits)
  moreover have "same_waiting s s'" if "spawn (handleMessage X ?m) s = (r, s')"
    using waiting.stays_spawn[OF waiting.stays_handleMessage] that by (rule staysD)
  ultimately show ?thesis using False by (auto simp: same_waiting_def)
qed

interpretation panel: observed_machine "tg_act X P T" manual_spec awaitingManual
  for X :: "'x ext" and P :: "'x pad" and T :: "'x tg"
proof unfold_locales
  fix u ok and s s' :: "'x tg_state"
  assume "tg_act X P T u s = (ok, s')"
  then obtain r where run: "tg_handle X P T u s = (r, s')" and ok: "ok = (r = Ok ())"
    by (auto simp: tg_act_def split: prod.splits)
  show "awaitingManual s' = manual_spec u ok (awaitingManual s)"
  proof (cases u)
    case (Start m)
    with run have "on_start X T m s = (r, s')" by simp
    from staysD[OF waiting.stays_on_start this] Start show ?thesis by (simp add: same_waiting_def)
  next
    case (Press q)
    with run have "on_callback X P T q s = (r, s')" by simp
    from on_callback_manual[OF this] Press ok show ?thesis by simp
  next
    case (Text m)
    with run have "on_text X P T m s = (r, s')" by simp
    from on_text_manual[OF this] Text show ?thesis by simp
  qed
qed

lemma tg_run_acts: "tg_run X P T us s = panel.acts X P T us s"
  by (induction us arbitrary: s) (simp_all split: prod.splits)

section \<open>Launches\<close>

text \<open>The updates that may launch a token.\<close>

fun launch_request :: "tg_update \<Rightarrow> ('x, 'e) tg_state_scheme \<Rightarrow> bool" where
  "launch_request (Start m) s \<longleftrightarrow> False"
| "launch_request (Press q) s \<longleftrightarrow>
     (case cb_route (cb_data q) of (a, h) \<Rightarrow>
      a = Some LAUNCH_CONF \<and> map_of (lastConfigs s) (or_undefined h) \<noteq> None)"
| "launch_request (Text m) s \<longleftrightarrow> Some (sender (tm_from m)) \<in> awaitingManual s"

lemma press_without_pad:
  assumes "\<not> (a = LAUNCH_CONF \<and> map_of (lastConfigs s) (or_undefined h) \<noteq> None)"
  shows "press X P T c h a s = press X P' T c h a s"
  using assms by (cases a) (auto simp: press_def Let_def bnd_def gets_def split: option.splits)

section \<open>Quick orders\<close>

lemma andthen_ret_unit: "andthen m (ret ()) s = m s"
  by (cases "m s") (simp add: andthen_def bnd_def ret_def split: res.splits)

lemma quick_message_trade:
  assumes "act = ''QBUY'' \<or> act = ''QSELL''"
  shows "handleMessage X (quick_message act h) s =
    enqueueTrade X (trade_payload
      \<lparr>t_side = (if act = ''QBUY'' then ''buy'' else ''sell''), t_mint = Some SOL_MINT, t_sol = Num (1 / 10)\<rparr> None) s"
proof -
  have c: "CHR '':'' \<notin> set ''BTN''" "CHR '':'' \<notin> set act" "CHR '':'' \<notin> set SOL_MINT"
    using assms by (auto simp: SOL_MINT_def)
  have "\<exists>r. js_split (''BTN::'' @ act @ ''::'' @ SOL_MINT @ ''::'' @ or_undefined h) ''::'' = ''BTN'' # act # SOL_MINT # r"
    using js_split_part[OF c(1), of "'':''" "act @ ''::'' @ SOL_MINT @ ''::'' @ or_undefined h"]
      js_split_part[OF c(2), of "'':''" "SOL_MINT @ ''::'' @ or_undefined h"]
      js_split_part[OF c(3), of "'':''" "or_undefined h"] by simp
  then obtain r where "js_split (''BTN::'' @ act @ ''::'' @ SOL_MINT @ ''::'' @ or_undefined h) ''::'' =
      ''BTN'' # act # SOL_MINT # r" ..
  with assms show ?thesis
    by (auto simp: handleMessage_def quick_message_def truthy_def handle_button_def Let_def elem_at_def
        dispatchTrade_def andthen_ret_unit)
qed

lemma keeps_jobs_ext: "(\<And>x. jobs (snd (m x)) = jobs x) \<Longrightarrow> keeps (\<lambda>s. jobs (sys s) = J) (ext m)"
  unfolding keeps_def ext_def by (simp add: case_prod_beta)

lemma editOrReply_jobs:
  assumes "\<And>c m t k x. jobs (snd (tg_edit T c m t k x)) = jobs x" and "\<And>c t k x. jobs (snd (tg_reply T c t k x)) = jobs x"
    and "editOrReply T c t k s = (r, s')"
  shows "jobs (sys s') = jobs (sys s)"
proof -
  have "keeps (\<lambda>s. jobs (sys s) = J) (editOrReply T c t k)" for J
    unfolding editOrReply_def by (intro keeps_catch keeps_jobs_ext) (simp_all add: assms(1,2))
  from this[of "jobs (sys s)"] show ?thesis using assms(3) by (auto simp: keeps_def)
qed

section \<open>A concrete client\<close>

text \<open>A bot whose messages always arrive and leave no trace, and a client with an empty state.\<close>

definition mem_tg :: "mem tg" where
  "mem_tg = \<lparr>tg_launch = (\<lambda>x. (Ok (), x)), tg_getMe = (\<lambda>x. (Ok ''NexusBot'', x)), tg_answer = (\<lambda>x. (Ok (), x)),
     tg_edit = (\<lambda>chat msg t k x. (Ok (), x)), tg_reply = (\<lambda>chat t k x. (Ok (), x)),
     tg_photo = (\<lambda>chat img t k x. (Ok (), x)), tg_send = (\<lambda>chat t x. (Ok (), x)), tg_time = (\<lambda>x. (''12:00:00'', x))\<rparr>"

definition tg0 :: "mem tg_state" where
  "tg0 = \<lparr>sys = mem0, deferred = [], hp = 20, lastIncident = 0, decimalsCache = [], subscribed = [], users = [],
     tg_me = None, awaitingManual = {}, lastConfigs = []\<rparr>"

definition ann :: tg_from where
  "ann = \<lparr>from_id = ''7'', from_username = Some ''ann'', from_first = Some ''Ann''\<rparr>"

definition ann_press :: "action \<Rightarrow> tg_cb" where
  "ann_press a = \<lparr>cb_from = ann, cb_data = cbData (action_id a) (Some ''ann''), cb_msg = 1, cb_chat = ''7''\<rparr>"

definition ann_text :: "string \<Rightarrow> tg_msg" where
  "ann_text t = \<lparr>tm_from = ann, tm_chat = ''7'', tm_chatType = ''private'', tm_text = t, tm_entities = []\<rparr>"

section \<open>Buttons find their action\<close>

lemma colon_not_in_id: "CHR '':'' \<notin> set (action_id a)"
  by (cases a) simp_all

lemma action_of_id: "action_of (Some (action_id a)) = Some a"
  by (cases a) (simp_all add: action_of_def actions_def)

lemma cb_route_data: "CHR '':'' \<notin> set h \<Longrightarrow> cb_route (cbData (action_id a) (Some h)) = (Some a, Some h)"
  using js_split_part[OF colon_not_in_id, of a "[]" h] js_split_last[of "CHR '':''" h "[]"]
  by (simp add: cb_route_def cbData_def or_undefined_def elem_at_def action_of_id)

section \<open>Properties\<close>

text \<open>
  C15: The manual mode refines its specification.  After any updates, in any order and from any
  users, the client waits for the configuration of exactly the handles the specification names:
  a successful press of the button puts the handle of the button into the set and any text of a
  user, also one that is no JSON, takes the user out.  Nothing else touches the set, whatever
  fails.
\<close>

theorem manual_mode_refines:
  assumes "tg_run X P T us s = (oks, s')"
  shows "awaitingManual s' = fold (\<lambda>(u, ok). manual_spec u ok) (zip us oks) (awaitingManual s)"
  using assms unfolding tg_run_acts by (rule panel.acts_refine)

theorem manual_mode_refines_witness:
  "\<exists>s'. tg_run mem_ext no_pad mem_tg [Press (ann_press MANUAL)] tg0 = ([True], s') \<and> awaitingManual s' = {Some ''ann''}"
proof -
  obtain oks s' where run: "tg_run mem_ext no_pad mem_tg [Press (ann_press MANUAL)] tg0 = (oks, s')" by force
  have rt: "cb_route (cb_data (ann_press MANUAL)) = (Some MANUAL, Some ''ann'')"
    using cb_route_data[of "''ann''" MANUAL] by (simp add: ann_press_def)
  then have "oks = [True]"
    using run by (auto simp: tg_act_def on_callback_def press_def Let_def andthen_def bnd_def ext_def mem_tg_def
        editOrReply_def catch_def ret_def modify_def split: prod.splits)
  with manual_mode_refines[OF run] rt run show ?thesis by (simp add: tg0_def)
qed



text \<open>
  C17: Tokens are launched on request only.  Unless the update confirms a generated
  configuration or is the text of a user whose configuration is awaited, its handling does not
  depend on the launchpad packages: it has the same outcome and the same effects whatever they
  would do.
\<close>

theorem launch_needs_request:
  assumes "\<not> launch_request u s"
  shows "tg_handle X P T u s = tg_handle X P' T u s"
proof (cases u)
  case (Press q)
  obtain a h where rt: "cb_route (cb_data q) = (a, h)" by force
  let ?c = "\<lambda>now. \<lparr>cx_chat = cb_chat q, cx_msg = cb_msg q, cx_name = first_or (cb_from q) h, cx_now = now\<rparr>"
  from on_callback_split[OF rt, of X T s] obtain r0 x where
    eq: "\<And>P. on_callback X P T q s =
      (case r0 of Ok now \<Rightarrow> (case a of None \<Rightarrow> ret () | Some v \<Rightarrow> press X P T (?c now) h v) (s\<lparr>sys := x\<rparr>)
       | Throw e \<Rightarrow> (Throw e, s\<lparr>sys := x\<rparr>) | Exit c \<Rightarrow> (Exit c, s\<lparr>sys := x\<rparr>))" by blast
  have "press X P T (?c now) h v (s\<lparr>sys := x\<rparr>) = press X P' T (?c now) h v (s\<lparr>sys := x\<rparr>)" if "a = Some v" for now v
    using assms that Press rt by (intro press_without_pad) simp
  then show ?thesis using Press eq[of P] eq[of P'] by (simp split: option.splits res.splits)
qed (use assms in \<open>simp_all add: on_text_def Let_def bnd_def gets_def\<close>)

theorem launch_needs_request_witness:
  "\<not> launch_request (Press (ann_press LAUNCH_CONF)) tg0 \<and>
   tg_handle mem_ext no_pad mem_tg (Press (ann_press LAUNCH_CONF)) tg0 =
     tg_handle mem_ext (no_pad\<lparr>sendAndConfirm := \<lambda>b kp. throw (Err ''offline'')\<rparr>) mem_tg (Press (ann_press LAUNCH_CONF)) tg0"
proof -
  have "\<not> launch_request (Press (ann_press LAUNCH_CONF)) tg0" by (simp add: tg0_def split: prod.splits)
  with launch_needs_request[OF this] show ?thesis by blast
qed

text \<open>
  Quick orders carry no handle.  When a quick-order button has been handled, one job has
  been added, a trade of 0.1 SOL against SOL itself on the side of the button, and it names no
  user, whatever handle is on the button and whoever pressed it; this holds for a bot whose
  messages add no jobs.
\<close>

theorem quick_order_anonymous:
  assumes "job_queues X jobs"
    and "\<And>x. jobs (snd (tg_time T x)) = jobs x" and "\<And>x. jobs (snd (tg_answer T x)) = jobs x"
    and "\<And>c m t k x. jobs (snd (tg_edit T c m t k x)) = jobs x" and "\<And>c t k x. jobs (snd (tg_reply T c t k x)) = jobs x"
    and "cb_route (cb_data q) = (Some (if side = ''buy'' then QB else QS), h)" and "side = ''buy'' \<or> side = ''sell''"
    and "tg_handle X P T (Press q) s = (Ok (), s')"
  shows "jobs (sys s') = jobs (sys s) @
      [(''trades'', ''execute-trade'',
        trade_payload \<lparr>t_side = side, t_mint = Some SOL_MINT, t_sol = Num (1 / 10)\<rparr> None)]"
proof -
  let ?job = "trade_payload \<lparr>t_side = side, t_mint = Some SOL_MINT, t_sol = Num (1 / 10)\<rparr> None"
  let ?act = "if side = ''buy'' then ''QBUY'' else ''QSELL''"
  let ?c = "\<lambda>now. \<lparr>cx_chat = cb_chat q, cx_msg = cb_msg q, cx_name = first_or (cb_from q) h, cx_now = now\<rparr>"
  from assms(8) have "on_callback X P T q s = (Ok (), s')" by simp
  then obtain now s1 a s2 where
    t: "ext (\<lambda>x. case tg_time T x of (t, x') \<Rightarrow> (Ok t, x')) s = (Ok now, s1)"
    and n: "catch (ext (tg_answer T)) (\<lambda>e. ret ()) s1 = (Ok a, s2)"
    and p: "press X P T (?c now) h (if side = ''buy'' then QB else QS) s2 = (Ok (), s')"
    unfolding on_callback_def assms(6) prod.case option.case by (elim bnd_OkD andthen_OkD) blast
  from t assms(2) have j1: "jobs (sys s1) = jobs (sys s)" by (auto simp: ext_def split: prod.splits) (metis snd_conv)
  have "keeps (\<lambda>s. jobs (sys s) = jobs (sys s1)) (catch (ext (tg_answer T)) (\<lambda>e. ret ()))"
    by (intro keeps_rules keeps_jobs_ext) (rule assms(3))
  with n have j2: "jobs (sys s2) = jobs (sys s1)" by (auto simp: keeps_def)
  from p have "andthen (editOrReply T (?c now) (Order_sent side (cx_name (?c now)) now) (tradeMenu h))
      (handleMessage X (quick_message ?act h)) s2 = (Ok (), s')"
    using assms(7) by (auto simp: press_def Let_def)
  then obtain b s3 where e: "editOrReply T (?c now) (Order_sent side (cx_name (?c now)) now) (tradeMenu h) s2 = (Ok b, s3)"
    and m: "handleMessage X (quick_message ?act h) s3 = (Ok (), s')" by (rule andthen_OkD)
  from m quick_message_trade[of ?act X h s3] assms(7) have "enqueueTrade X ?job s3 = (Ok (), s')" by auto
  then have "jobs (sys s') = jobs (sys s3) @ [(''trades'', ''execute-trade'', ?job)]"
    using job_queues.add_Ok[OF assms(1)] by (auto simp: enqueueTrade_def ext_def split: prod.splits)
  with editOrReply_jobs[OF assms(4,5) e] j1 j2 show ?thesis by simp
qed

theorem quick_order_anonymous_witness:
  "\<exists>s'. tg_handle mem_ext no_pad mem_tg (Press (ann_press QS)) tg0 = (Ok (), s') \<and>
     m_jobs (sys s') = [(''trades'', ''execute-trade'',
        trade_payload \<lparr>t_side = ''sell'', t_mint = Some SOL_MINT, t_sol = Num (1 / 10)\<rparr> None)]"
proof -
  have rt: "cb_route (cb_data (ann_press QS)) = (Some QS, Some ''ann'')"
    using cb_route_data[of "''ann''" QS] by (simp add: ann_press_def)
  then have "\<exists>s'. tg_handle mem_ext no_pad mem_tg (Press (ann_press QS)) tg0 = (Ok (), s')"
    by (simp add: on_callback_def press_def Let_def editOrReply_def catch_def andthen_def bnd_def ext_def ret_def
        mem_tg_def quick_message_trade enqueueTrade_def mem_ext_def)
  then obtain s' where run: "tg_handle mem_ext no_pad mem_tg (Press (ann_press QS)) tg0 = (Ok (), s')" by blast
  from quick_order_anonymous[OF mem_job_queues.job_queues_axioms, of mem_tg "ann_press QS" "''sell''" "Some ''ann''" no_pad tg0 s']
  show ?thesis using run rt by (simp add: mem_tg_def tg0_def mem0_def)
qed

text \<open>
  The history shows no text.  What the history button prints depends on the number of
  remembered messages only, not on what they say.
\<close>

theorem history_hides_text:
  assumes "length hist = length hist'"
  shows "history_list hist = history_list hist'"
proof -
  have n: "number_from i (map history_entry hs) = number_from i (map history_entry hs')"
    if "length hs = length hs'" for i hs hs'
    using that by (induction hs hs' arbitrary: i rule: list_induct2) (simp_all add: history_entry_def)
  have "hist = [] \<longleftrightarrow> hist' = []" using assms by auto
  with n[OF assms] show ?thesis by (simp add: history_list_def)
qed

theorem history_hides_text_witness:
  "history_list [memory_entry (''buy low'', 1)] = history_list [memory_entry (''sell high'', 2)]"
  by (rule history_hides_text) simp

end
