(* ===== verification/Boot.thy ===== *)
theory Boot
  imports Telegram Twitter
begin

text \<open>
  Starting the agent: the pre-flight checks \<open>check-env.js\<close> and \<open>ensure-deps.js\<close> and the
  boot sequence and service supervision of \<open>index.js\<close>.  Shell commands are a parameter; the
  console output is left out.

  Lemmas: the services are restarted within five seconds whatever exits when; the agent never
  finishes booting with Twitter enabled; what the checks guarantee and what they miss.
\<close>

section \<open>Supervised services\<close>

datatype proc_state = Running | Restarting int

record service =
  sv_name :: string
  sv_script :: string
  sv_state :: proc_state

definition startService :: "string \<Rightarrow> string \<Rightarrow> service" where
  "startService name script = \<lparr>sv_name = name, sv_script = script, sv_state = Running\<rparr>"

definition boot_services :: "service list" where
  "boot_services =
     [startService ''Metrics'' ''metrics.js'', startService ''Worker'' ''worker.js'',
      startService ''Launcher'' ''launcher/server.js'']"

record supervisor =
  sv_clock :: int
  services :: "service list"

text \<open>Time passes, a process exits and its restart is scheduled, a timer that is due starts it again.\<close>

datatype sup_event = Tick nat | Exited nat | Timer nat

definition put_state :: "nat \<Rightarrow> proc_state \<Rightarrow> supervisor \<Rightarrow> supervisor" where
  "put_state i p s = s\<lparr>services := (services s)[i := (services s ! i)\<lparr>sv_state := p\<rparr>]\<rparr>"

inductive sup_step :: "supervisor \<Rightarrow> sup_event \<Rightarrow> supervisor \<Rightarrow> bool" where
  tick: "sup_step s (Tick d) (s\<lparr>sv_clock := sv_clock s + int d\<rparr>)"
| exited: "i < length (services s) \<Longrightarrow> sv_state (services s ! i) = Running \<Longrightarrow>
     sup_step s (Exited i) (put_state i (Restarting (sv_clock s + 5000)) s)"
| timer: "i < length (services s) \<Longrightarrow> sv_state (services s ! i) = Restarting d \<Longrightarrow> d \<le> sv_clock s \<Longrightarrow>
     sup_step s (Timer i) (put_state i Running s)"

inductive_simps sup_step_simps:
  "sup_step s (Tick d) s'"
  "sup_step s (Exited i) s'"
  "sup_step s (Timer i) s'"

fun due_within :: "int \<Rightarrow> proc_state \<Rightarrow> bool" where
  "due_within t Running \<longleftrightarrow> True"
| "due_within t (Restarting d) \<longleftrightarrow> d \<le> t"

definition service_key :: "service \<Rightarrow> string \<times> string" where
  "service_key v = (sv_name v, sv_script v)"

definition sup_inv :: "supervisor \<Rightarrow> bool" where
  "sup_inv s \<longleftrightarrow> map service_key (services s) = map service_key boot_services \<and>
     (\<forall>v\<in>set (services s). due_within (sv_clock s + 5000) (sv_state v))"

lemma service_key_state [simp]: "service_key (v\<lparr>sv_state := p\<rparr>) = service_key v"
  by (simp add: service_key_def)

lemma keys_put [simp]: "i < length (services s) \<Longrightarrow> map service_key (services (put_state i p s)) = map service_key (services s)"
  by (simp add: put_state_def map_update list_update_same_conv)

lemma put_state_clock [simp]: "sv_clock (put_state i p s) = sv_clock s" "length (services (put_state i p s)) = length (services s)"
  by (simp_all add: put_state_def)

lemma due_put:
  assumes "\<forall>v\<in>set (services s). due_within t (sv_state v)" and "due_within t p"
  shows "\<forall>v\<in>set (services (put_state i p s)). due_within t (sv_state v)"
  using assms set_update_subset_insert[of "services s" i] by (fastforce simp: put_state_def)

lemma due_within_mono: "due_within t p \<Longrightarrow> t \<le> u \<Longrightarrow> due_within u p"
  by (cases p) auto

interpretation sup: machine "\<lambda>s. services s = boot_services" sup_step sup_inv
proof unfold_locales
  fix s :: supervisor
  assume "services s = boot_services"
  then show "sup_inv s" by (auto simp: sup_inv_def boot_services_def startService_def)
next
  fix s e and s' :: supervisor
  assume inv: "sup_inv s" and st: "sup_step s e s'"
  note put = due_put[of s "sv_clock s + 5000"]
  show "sup_inv s'"
  proof (cases e)
    case (Tick d)
    with inv st show ?thesis by (auto simp: sup_inv_def sup_step_simps intro: due_within_mono)
  next
    case (Exited i)
    with inv st put[of "Restarting (sv_clock s + 5000)" i] show ?thesis by (auto simp: sup_inv_def sup_step_simps)
  next
    case (Timer i)
    with inv st put[of Running i] show ?thesis by (auto simp: sup_inv_def sup_step_simps)
  qed
qed

definition all_running :: "supervisor \<Rightarrow> bool" where
  "all_running s \<longleftrightarrow> (\<forall>v\<in>set (services s). sv_state v = Running)"

lemma sup_run_snoc: "sup.run s (es @ [e]) s' \<longleftrightarrow> (\<exists>t. sup.run s es t \<and> sup_step t e s')"
  by (induction es arbitrary: s) auto

text \<open>When every restart is due, firing timers starts everything.\<close>

lemma fire_due:
  assumes "\<forall>v\<in>set (services s). due_within (sv_clock s) (sv_state v)" and "k \<le> length (services s)"
  shows "\<exists>is s'. sup.run s (map Timer is) s' \<and> sv_clock s' = sv_clock s \<and>
    map service_key (services s') = map service_key (services s) \<and>
    (\<forall>v\<in>set (services s'). due_within (sv_clock s) (sv_state v)) \<and>
    (\<forall>i<k. sv_state (services s' ! i) = Running)"
  using assms(2)
proof (induction k)
  case 0
  then show ?case using assms(1) by (intro exI[of _ "[]"] exI[of _ s]) simp
next
  case (Suc k)
  then obtain "is" s' where r: "sup.run s (map Timer is) s'" "sv_clock s' = sv_clock s"
    "map service_key (services s') = map service_key (services s)"
    "\<forall>v\<in>set (services s'). due_within (sv_clock s) (sv_state v)" "\<forall>i<k. sv_state (services s' ! i) = Running"
    by auto
  have k: "k < length (services s')" using Suc.prems map_eq_imp_length_eq[OF r(3)] by simp
  show ?case
  proof (cases "sv_state (services s' ! k)")
    case Running
    with r show ?thesis by (auto simp: less_Suc_eq)
  next
    case (Restarting d)
    with r(4) k have "d \<le> sv_clock s'" using r(2) by (metis due_within.simps(2) nth_mem)
    with k Restarting have "sup_step s' (Timer k) (put_state k Running s')" by (simp add: sup_step_simps)
    then have "sup.run s (map Timer (is @ [k])) (put_state k Running s')"
      unfolding map_append list.map sup_run_snoc using r(1) by blast
    moreover have "\<forall>i<Suc k. sv_state (services (put_state k Running s') ! i) = Running"
      using r(5) k by (auto simp: put_state_def less_Suc_eq nth_list_update)
    moreover have "\<forall>v\<in>set (services (put_state k Running s')). due_within (sv_clock s) (sv_state v)"
      using r(4) by (rule due_put) simp
    ultimately show ?thesis using r(2,3) k by (intro exI[of _ "is @ [k]"] exI[of _ "put_state k Running s'"]) simp
  qed
qed

lemma restart_all:
  assumes "sup_inv s"
  obtains "is" s' where "sup.run s (Tick 5000 # map Timer is) s'" "all_running s'"
    "map service_key (services s') = map service_key boot_services"
proof -
  let ?t = "s\<lparr>sv_clock := sv_clock s + int 5000\<rparr>"
  have "\<forall>v\<in>set (services ?t). due_within (sv_clock ?t) (sv_state v)"
    and keys: "map service_key (services ?t) = map service_key boot_services"
    using assms by (simp_all add: sup_inv_def)
  with fire_due[of ?t "length (services ?t)"] obtain "is" s' where r: "sup.run ?t (map Timer is) s'"
    "map service_key (services s') = map service_key (services ?t)"
    "\<forall>i<length (services ?t). sv_state (services s' ! i) = Running" by auto
  have "length (services s') = length (services ?t)" using r(2) by (rule map_eq_imp_length_eq)
  with r(3) have "all_running s'" by (auto simp: all_running_def in_set_conv_nth)
  moreover have "sup.run s (Tick 5000 # map Timer is) s'" using r(1) by (auto simp: sup_step_simps)
  ultimately show thesis using r(2) keys by (intro that) simp_all
qed

section \<open>Booting\<close>

definition USE_TELEGRAM :: "'x ext \<Rightarrow> bool" where
  "USE_TELEGRAM X \<longleftrightarrow> procenv X ''USE_TELEGRAM'' \<noteq> Some ''false''"

definition USE_TWITTER :: "'x ext \<Rightarrow> bool" where
  "USE_TWITTER X \<longleftrightarrow> procenv X ''USE_TWITTER'' = Some ''true''"

text \<open>The functions \<open>index.js\<close> hands to the Telegram client; the two empty ones are written there.\<close>

definition index_helpers :: "(string \<times> helper) list" where
  "index_helpers =
     [(''walletOf'', Given ''walletOf''), (''balanceOf'', Given ''balanceOf''), (''fetchSolPrice'', Given ''fetchSolPrice''),
      (''getPortfolio'', Given ''getPortfolio''), (''getHistory'', Given ''getHistory''), (''ensureUser'', Given ''no-op''),
      (''saveChatId'', Given ''no-op''), (''toggleAuto'', Given ''toggleAuto''), (''setRisk'', Given ''setRisk''),
      (''generateLaunchConfig'', Given ''launchConfigInternal''), (''launchToken'', Given ''launchTokenInternal''),
      (''previewImage'', Given ''previewImage'')]"

text \<open>No stub is left after the boot sequence, so that the handlers run the functions of the agent.\<close>

lemma no_stub_left: "Stub \<notin> ran (map_of (setHelpers helper_stubs index_helpers))"
proof -
  have "list_all (\<lambda>n. map_of (rev index_helpers) n \<noteq> None) (map fst helper_stubs)"
    "list_all (\<lambda>(n, h). h \<noteq> Stub) index_helpers" by code_simp+
  then show ?thesis
    by (fastforce simp: ran_def map_of_setHelpers list_all_iff dest: map_of_SomeD split: option.splits)
qed

text \<open>\<open>TwitterClient\<close> has no method \<open>setHelpers\<close>, so the call after its initialization throws.\<close>

definition twitter_setup :: "'x ext \<Rightarrow> 'x host \<Rightarrow> 'x scraper \<Rightarrow> (('x, 'e) base_scheme, unit) io" where
  "twitter_setup X H W = andthen (tw_init X H W) (throw (TypeErr ''tw.setHelpers is not a function''))"

text \<open>The memory file that is read when its module loads.\<close>

definition memory_data :: "'x ext \<Rightarrow> 'x host \<Rightarrow> (('x, 'e) base_scheme, json) io" where
  "memory_data X H =
     bnd (gets (\<lambda>s. case procenv X ''AGENT_MEMORY_FILE'' of None \<Rightarrow> False | Some p \<Rightarrow> fs_exists H (sys s) p)) (\<lambda>found.
     if found then bnd (ext (fs_read H (the (procenv X ''AGENT_MEMORY_FILE'')))) (\<lambda>t. of_res (JSON_parse t))
     else ret (JObj [(''convos'', JArr [])]))"

text \<open>
  The constants of the imported modules, in the order in which the modules are evaluated: the
  Telegram client, the internal launcher, the Solana helpers, the user store, the memory and the
  commands.
\<close>

definition load_modules :: "'x ext \<Rightarrow> 'x pad \<Rightarrow> 'x host \<Rightarrow> (('x, 'e) base_scheme, unit) io" where
  "load_modules X P H =
     andthen (of_res (GREETING X))
    (andthen (of_res (MENU_TITLE X))
    (andthen (of_res (PLATFORM_KP X P))
    (andthen (of_res (NXR_MINT X))
    (andthen (of_res (DEV_WALLET X))
    (andthen (of_res (db_load X))
    (andthen (memory_data X H)
    (andthen (of_res (AGENT_MINT_PK X))
    (andthen (of_res (PERSONA X)) (ret ())))))))))"

definition boot :: "'x ext \<Rightarrow> 'x pad \<Rightarrow> 'x tg \<Rightarrow> 'x host \<Rightarrow> 'x scraper \<Rightarrow> (('x, 'e) tg_state_scheme, unit) io" where
  "boot X P T H W =
     andthen (load_modules X P H)
    (andthen (initializeUsers X)
    (andthen (if USE_TELEGRAM X then tg_init T else ret ())
             (if USE_TWITTER X then twitter_setup X H W else ret ())))"

definition platforms :: "'x ext \<Rightarrow> string" where
  "platforms X =
     join '' + '' ((if USE_TELEGRAM X then [''Telegram''] else []) @ (if USE_TWITTER X then [''Twitter''] else []))"

section \<open>Pre-flight checks\<close>

definition REQUIRED_FILES :: "string list" where
  "REQUIRED_FILES = [''index.js'', ''.env'', ''package.json'']"

definition REQUIRED_ENV_VARS :: "string list" where
  "REQUIRED_ENV_VARS =
     [''AGENT_NAME'', ''AGENT_MINT'', ''TIER_THRESHOLDS'', ''RPC'', ''NXR_MINT'', ''DEV_WALLET_SK'', ''TWITTER_USERNAME'',
      ''TWITTER_PASSWORD'', ''TELEGRAM_BOT_TOKEN'', ''OLLAMA_URL'', ''OLLAMA_MODEL'']"

text \<open>A loop that counts the items that are not there.\<close>

fun count_missing :: "(string \<Rightarrow> bool) \<Rightarrow> string list \<Rightarrow> nat \<Rightarrow> nat" where
  "count_missing there [] errors = errors"
| "count_missing there (k # ks) errors = count_missing there ks (if \<not> there k then errors + 1 else errors)"

definition check_env :: "'x ext \<Rightarrow> 'x host \<Rightarrow> (('x, 'e) base_scheme, unit) io" where
  "check_env X H =
     bnd (gets (\<lambda>s. count_missing (fs_exists H (sys s)) REQUIRED_FILES 0)) (\<lambda>errors.
     if count_missing (\<lambda>k. truthy (procenv X k)) REQUIRED_ENV_VARS errors > 0 then exit_process 1 else ret ())"

definition twitterFolder :: string where "twitterFolder = ''./agent-twitter-client''"
definition twitterPkg :: string where "twitterPkg = twitterFolder @ ''/package.json''"
definition twitterNodeMod :: string where "twitterNodeMod = twitterFolder @ ''/node_modules''"
definition twitterLink :: string where "twitterLink = ''./node_modules/agent-twitter-client''"
definition redisFolder :: string where "redisFolder = ''./redis''"
definition redisSrc :: string where "redisSrc = redisFolder @ ''/src/redis-server''"

definition when_missing :: "'x host \<Rightarrow> string \<Rightarrow> string \<Rightarrow> (('x, 'e) base_scheme, unit) io" where
  "when_missing H path cmd =
     bnd (gets (\<lambda>s. fs_exists H (sys s) path)) (\<lambda>there. if there then ret () else ext (exec H cmd))"

definition overcommit :: "'x host \<Rightarrow> (('x, 'e) base_scheme, unit) io" where
  "overcommit H = catch (ext (exec H ''sysctl -w vm.overcommit_memory=1'')) (\<lambda>e. ret ())"

definition start_redis :: "'x host \<Rightarrow> (('x, 'e) base_scheme, unit) io" where
  "start_redis H = ext (exec H (redisSrc @ '' --daemonize yes''))"

definition ensure_deps :: "'x host \<Rightarrow> (('x, 'e) base_scheme, unit) io" where
  "ensure_deps H =
     catch
      (andthen (overcommit H)
      (andthen (when_missing H twitterFolder ''git clone https://github.com/elizaOS/agent-twitter-client.git'')
      (bnd (gets (\<lambda>s. fs_exists H (sys s) twitterPkg)) (\<lambda>cloned.
       if \<not> cloned then exit_process 1
       else
         andthen (when_missing H twitterNodeMod (''cd '' @ twitterFolder @ '' && npm install''))
        (andthen (when_missing H twitterLink (''npm install '' @ twitterFolder))
        (andthen (when_missing H redisFolder ''git clone https://github.com/redis/redis.git'')
        (andthen (when_missing H redisSrc (''cd '' @ redisFolder @ '' && make distclean && make MALLOC=libc''))
         (start_redis H))))))))
      (\<lambda>e. exit_process 1)"

lemma count_missing_0: "count_missing there ks n = 0 \<longleftrightarrow> n = 0 \<and> (\<forall>k\<in>set ks. there k)"
  by (induction ks arbitrary: n) auto

lemma when_missing_there: "fs_exists H (sys s) p \<Longrightarrow> when_missing H p c s = (Ok (), s)"
  by (simp add: when_missing_def bnd_def gets_def ret_def)

definition deps_present :: "'x host \<Rightarrow> 'x \<Rightarrow> bool" where
  "deps_present H x \<longleftrightarrow>
     (\<forall>p\<in>{twitterFolder, twitterPkg, twitterNodeMod, twitterLink, redisFolder, redisSrc}. fs_exists H x p)"

section \<open>Properties\<close>

text \<open>
  C19: The services are kept running.  However the three services have exited and been
  restarted, five seconds later the timers that are due start every one of them again; no
  service is lost or replaced.
\<close>

theorem services_supervised:
  assumes "sup.reachable s"
  shows "\<exists>is s'. sup.run s (Tick 5000 # map Timer is) s' \<and> all_running s' \<and>
    map service_key (services s') = map service_key boot_services"
  using restart_all[OF sup.reachable_inv[OF assms]] by blast

theorem services_supervised_witness:
  "\<exists>s. services s \<noteq> boot_services \<and>
     (\<exists>is s'. sup.run s (Tick 5000 # map Timer is) s' \<and> all_running s' \<and>
        map service_key (services s') = map service_key boot_services)"
proof -
  let ?up = "\<lparr>sv_clock = 0, services = boot_services\<rparr>"
  let ?down = "put_state 1 (Restarting (sv_clock ?up + 5000)) ?up"
  have "sup.reachable ?up" by (rule sup.reachable.start) simp
  moreover have "sup_step ?up (Exited 1) ?down"
    by (simp add: sup_step_simps boot_services_def startService_def)
  ultimately have "sup.reachable ?down" by (rule sup.reachable.move)
  moreover have "services ?down \<noteq> boot_services" by (simp add: put_state_def boot_services_def startService_def)
  ultimately show ?thesis using services_supervised by blast
qed

text \<open>
  The agent does not boot with Twitter.  When Twitter is enabled, the boot sequence never
  completes, even when the login succeeds: the client has no method to take the helpers.
\<close>

theorem twitter_never_boots:
  assumes "USE_TWITTER X"
  shows "fst (boot X P T H W s) \<noteq> Ok ()"
proof
  assume "fst (boot X P T H W s) = Ok ()"
  then obtain s' where "boot X P T H W s = (Ok (), s')" by (metis prod.collapse)
  with assms obtain s1 where "twitter_setup X H W s1 = (Ok (), s')"
    unfolding boot_def by (elim andthen_OkD) simp
  then show False unfolding twitter_setup_def by (elim andthen_OkD) (simp add: throw_def)
qed

theorem twitter_never_boots_witness:
  "fst (boot (mem_ext\<lparr>procenv := [''USE_TWITTER'' \<mapsto> ''true'']\<rparr>) no_pad mem_tg mem_host one_cookie tg0) \<noteq> Ok ()"
  by (rule twitter_never_boots) (simp add: USE_TWITTER_def)

text \<open>
  C39: What the pre-flight check guarantees and what it misses.  It leaves the state alone and
  succeeds exactly when all listed files and variables are there, and otherwise ends the process
  with status 1.  Its answer is the same in the environment without a greeting, in which the agent
  throws while its modules load, before anything else happens.
\<close>

theorem preflight_incomplete:
  assumes "X' = X\<lparr>procenv := (procenv X)(''AGENT_GREETING'' := None)\<rparr>"
  shows "check_env X H s =
      (if (\<forall>f\<in>set REQUIRED_FILES. fs_exists H (sys s) f) \<and> (\<forall>k\<in>set REQUIRED_ENV_VARS. truthy (procenv X k))
       then Ok () else Exit 1, s) \<and>
    check_env X' H s = check_env X H s \<and>
    boot X' P T H W t = (Throw (TypeErr ''Cannot read properties of undefined''), t)"
proof -
  have chk: "check_env Y H s =
      (if (\<forall>f\<in>set REQUIRED_FILES. fs_exists H (sys s) f) \<and> (\<forall>k\<in>set REQUIRED_ENV_VARS. truthy (procenv Y k))
       then Ok () else Exit 1, s)" for Y
    unfolding check_env_def bnd_def gets_def
    by (simp add: count_missing_0 zero_less_iff_neq_zero ret_def exit_process_def)
  have "procenv X' k = procenv X k" if "k \<in> set REQUIRED_ENV_VARS" for k
    using that assms by (auto simp: REQUIRED_ENV_VARS_def)
  moreover have "boot X' P T H W t = (Throw (TypeErr ''Cannot read properties of undefined''), t)"
    by (simp add: assms boot_def load_modules_def andthen_def bnd_def of_res_def GREETING_def env_text_def)
  ultimately show ?thesis by (simp add: chk)
qed

theorem preflight_incomplete_witness:
  "\<exists>X H. check_env X H tg0 = (Ok (), tg0) \<and> (\<exists>e. fst (boot X no_pad mem_tg H one_cookie tg0) = Throw e)"
proof -
  let ?X = "mem_ext\<lparr>procenv := \<lambda>k. Some ''x''\<rparr>" and ?H = "mem_host\<lparr>fs_exists := \<lambda>x p. True\<rparr>"
  let ?Y = "?X\<lparr>procenv := (procenv ?X)(''AGENT_GREETING'' := None)\<rparr>"
  have "check_env ?X ?H tg0 = (Ok (), tg0)"
    using preflight_incomplete[OF refl, of ?X ?H tg0 no_pad mem_tg one_cookie tg0] by (simp add: truthy_def)
  moreover have "check_env ?Y ?H tg0 = check_env ?X ?H tg0"
    and "fst (boot ?Y no_pad mem_tg ?H one_cookie tg0) = Throw (TypeErr ''Cannot read properties of undefined'')"
    using preflight_incomplete[OF refl, of ?X ?H tg0 no_pad mem_tg one_cookie tg0] by simp_all
  ultimately show ?thesis by metis
qed

text \<open>
  Preparing the dependencies.  \<open>ensure-deps.js\<close> never throws.  When the dependencies
  are there and no command removes them, it tries to set the kernel option, whose failure is
  ignored, starts the Redis server and does nothing else; it fails exactly when that start does.
\<close>

theorem deps_ready:
  assumes "deps_present H (sys s)" and "\<And>c x. deps_present H x \<Longrightarrow> deps_present H (snd (exec H c x))"
  shows "fst (ensure_deps H s) \<noteq> Throw e \<and>
    ensure_deps H s = catch (andthen (overcommit H) (start_redis H)) (\<lambda>e. exit_process 1) s"
proof -
  have "fst (ensure_deps H s) \<noteq> Throw e"
    by (simp add: ensure_deps_def catch_def exit_process_def split: prod.splits res.splits)
  moreover obtain r s1 where o: "overcommit H s = (r, s1)" by force
  moreover have "deps_present H (sys s1)"
    using assms o by (auto simp: overcommit_def catch_def ext_def ret_def split: prod.splits res.splits) (metis snd_conv)+
  then have "fs_exists H (sys s1) p"
    if "p \<in> {twitterFolder, twitterPkg, twitterNodeMod, twitterLink, redisFolder, redisSrc}" for p
    using that by (auto simp: deps_present_def)
  ultimately show ?thesis
    by (cases r) (simp_all add: ensure_deps_def catch_def andthen_def bnd_def when_missing_there gets_def)
qed

theorem deps_ready_witness:
  "fst (ensure_deps (mem_host\<lparr>fs_exists := \<lambda>x p. True\<rparr>) tg0) = Ok ()"
proof -
  let ?H = "mem_host\<lparr>fs_exists := \<lambda>x p. True\<rparr>"
  have "ensure_deps ?H tg0 = catch (andthen (overcommit ?H) (start_redis ?H)) (\<lambda>e. exit_process 1) tg0"
    using deps_ready[of ?H tg0] by (simp add: deps_present_def)
  then show ?thesis
    by (simp add: overcommit_def start_redis_def catch_def andthen_def bnd_def ext_def mem_host_def)
qed

end
