(* ===== verification/Spec2Isabelle.thy ===== *)
theory Spec2Isabelle
  imports Firewall Retry Db Memory Solana Token JobQueue Command_Parser Users Portfolio Commands Agent Interleaving Workers Api
    Middleware Launcher Telegram Twitter Boot
begin

text \<open>
  The Nexus Erebus agent: a chat agent with custodial Solana wallets.  Users talk to it over
  Telegram (or Twitter) and an HTTP API; it keeps a wallet per user, answers with balances,
  portfolios and the replies of a language model, queues trades that worker processes execute,
  and launches tokens.  This development models its JavaScript sources as functions on explicit
  states and proves what they do.

  \<^bold>\<open>Vocabulary.\<close>  \<open>Prelude\<close> has the outcome of a piece of code (\<open>Ok\<close>, \<open>Throw\<close>
  or \<open>Exit\<close>, the end of the process), computations that thread a state through it, promises
  that are not awaited (\<open>spawn\<close>, whose failures are collected in \<open>deferred\<close>), the rules for
  invariants (\<open>keeps\<close>) and for relations between the states before and after (\<open>stays\<close>, the
  locales \<open>state_order\<close>, \<open>sys_order\<close>, \<open>base_order\<close>) and the interface \<open>machine\<close> of
  state machines.  \<open>JS_Values\<close>, \<open>JS_Codec\<close>, \<open>JSON\<close>, \<open>JSON_Props\<close>, \<open>JSON_Pretty\<close>
  and \<open>JS_Regex\<close> are the parts of the standard library the sources use: numbers, strings,
  encodings, JSON with its round trips, regular expressions.  \<open>Externals\<close> is the outside world:
  one record \<open>'x ext\<close> of package operations on a world of type \<open>'x\<close>, the laws the code
  relies on as locales (\<open>redis_hashes\<close>, \<open>redis_sets\<close>, \<open>redis_streams\<close>,
  \<open>redis_strings\<close>, \<open>job_queues\<close>, \<open>chain\<close>, \<open>aead\<close>), and an in-memory instance of
  all of them.

  \<^bold>\<open>State.\<close>  The state of a process is a record that grows with the modules it loads:
  \<open>base\<close> (the world and the deferred failures), \<open>fw_state\<close> (the firewall), \<open>sol_state\<close>
  (caches of the Solana helpers), \<open>agent_state\<close> (the map of users), \<open>tg_state\<close> (the
  Telegram client) or \<open>loop_state\<close> (the tasks of the event loop).  Every
  operation is polymorphic in what lies below it.

  \<^bold>\<open>Components\<close> (one theory each, in the order of the calls):
  \<^item> \<open>Firewall\<close>: \<open>firewall.js\<close>, health points of a process.  They stay between zero and the
    maximum, each incident has a known effect, exhausting them ends the process, healing
    restores them.
  \<^item> \<open>Retry\<close>: \<open>retry.js\<close>, retries with back-off, equal to a reference that stops at the
    first success; the loop ends within its attempts and pauses.
  \<^item> \<open>Db\<close>: \<open>db.js\<close>, the user store with encrypted wallets.  A stored secret reads back, no
    plaintext wallet reaches Redis, public fields are stored and returned without the wallet.
  \<^item> \<open>Memory\<close>: \<open>memory.js\<close>, the conversation log; it provides the contract
    \<open>conversation_log\<close>.
  \<^item> \<open>Solana\<close> and \<open>Token\<close>: \<open>utils-solana.js\<close>, \<open>utils-token.js\<close>, quotes, swaps,
    transfers and balances.  Failures are reported once, amounts are conserved.
  \<^item> \<open>JobQueue\<close>: \<open>jobQueue.js\<close>, the payloads of jobs.
  \<^item> \<open>Command_Parser\<close>, \<open>Users\<close>, \<open>Portfolio\<close>, \<open>Commands\<close>: \<open>commands.js\<close>, from the
    patterns of commands over users, prices and portfolios to \<open>handleMessage\<close>.  Trade texts
    are read back, preferences and restarts, the price cascade and the sums of a portfolio, what
    each kind of message does, and that a deposit address never changes in a run.
  \<^item> \<open>Agent\<close>: the running agent of \<open>commands.js\<close> and \<open>index.js\<close>; the locale
    \<open>agent_order\<close> gives every handler at once the relations that survive an assignment to the
    map of users, with which the map is shown well formed in every run.
  \<^item> \<open>Interleaving\<close>: the operations of \<open>commands.js\<close> on users cut at their \<open>await\<close>s, with
    the continuations as tasks that resume in any order.  Resumed at once they are the
    definitions of \<open>Users\<close>; in any order, the addresses of a handle agree and the
    preferences of a known user are what the setters make of them.
  \<^item> \<open>Workers\<close>: \<open>worker.js\<close> and \<open>metrics.js\<close>, the job processes.  A trade job never
    trades, both workers settle trades alike, jobs are counted once under registered names.
  \<^item> \<open>Api\<close>: \<open>api-server.js\<close>, tokens, guards, schemas and routes.  Which tokens are accepted
    when, that the guards cannot be passed, what a trade request queues.
  \<^item> \<open>Middleware\<close>: the stack of \<open>api-server.js\<close> in front of the routes, in its order.  The
    rate limit holds per peer and window; the sanitizers, installed before the body parser, never
    see a body and change no answer.
  \<^item> \<open>Launcher\<close>: \<open>launcher/server.js\<close> and \<open>utils-launcher.js\<close>, captcha and API keys,
    the launch of a token, and the configuration read from the text of the language model.  The
    image and launch routines, which both files have, are shown to agree.
  \<^item> \<open>Telegram\<close>: \<open>telegram-client.js\<close>, menus, buttons and texts.  Buttons and actions
    correspond, the manual mode refines its specification (the locale \<open>observed_machine\<close>),
    tokens are launched on request only, quick orders carry no handle.
  \<^item> \<open>Twitter\<close>: \<open>twitter-client.js\<close>, sessions and attachments; saved sessions are restored.
  \<^item> \<open>Boot\<close>: \<open>index.js\<close>, \<open>check-env.js\<close>, \<open>ensure-deps.js\<close>, the supervision of the
    services as a step relation, the boot sequence with the helpers it hands to the Telegram
    client, and the pre-flight checks.

  Below, the path of a trade from the chat through the queue to the worker is put together.

  \<^bold>\<open>Interfaces.\<close>  A provider discharges the laws of a locale by an interpretation in its own
  theory: codecs (\<open>codec\<close>), the user store (\<open>user_store\<close>), the log
  (\<open>conversation_log\<close>), the metrics registry (\<open>prom_registry\<close>), files (\<open>file_system\<close>), the
  packages in front of the routes (\<open>front_packages\<close>), the relations of \<open>agent_order\<close> and
  below (\<open>outside\<close>, \<open>wallets\<close>, \<open>still\<close>, \<open>shape\<close>, \<open>waiting\<close>), and the machines
  of the firewall, the agent, the event loop, the panel and the supervisor.

  \<^bold>\<open>Bounds and fuel.\<close>  All recursions are structural or have a termination proof.  Only the JSON
  parser has fuel, twice the length of the text plus two; \<open>p_fuel\<close> shows that more changes
  nothing.  Numbers are \<open>NaN\<close> or exact rationals: rounding to binary64 and the infinities are
  not modelled, and statements about printed numbers are for integers below \<open>10 ^ 21\<close> or the
  stated number of decimals.  Strings have code units below 256; symbols outside are replaced by
  words or left out where the sources print them.

  \<^bold>\<open>Interleaving.\<close>  Outside \<open>Interleaving\<close> a handler runs to its end before the next
  event; between events the world may change arbitrarily (\<open>World\<close> events), and promises that
  are not awaited run at the point where they are started.  \<open>Interleaving\<close> cuts the operations
  on users at their \<open>await\<close>s; the answer of an external call is there taken when its task
  resumes.  Prices, portfolios and conversations, which keep no state of their own in the process,
  are not cut.

  \<^bold>\<open>Not modelled.\<close>  \<open>redisClient.js\<close> and the construction of clients, queues and loggers
  (packages configure themselves there); console and log output; security headers, request logging,
  \<open>hpp\<close> (it here sees the query only, which no route reads) and \<open>csurf\<close> beyond its verdict, which act
  inside packages; the HTTP servers and the polling of
  the bot framework; zeroing of buffers; expiry of Redis keys within a statement; names of
  \<open>Object.prototype\<close> used as keys; deployment files.  Code of packages is always a parameter,
  with the laws in use as hypotheses.
\<close>

section \<open>From the chat to the worker\<close>

lemma strip_me_mention: "strip_me me t = stripMention (case me of None \<Rightarrow> [] | Some m \<Rightarrow> m) t"
  by (simp add: strip_me_def stripMention_def truthy_def split: option.splits)

text \<open>A trade text reaches the queue unless adding the job fails, which the process would report.\<close>

lemma chat_trade_queued:
  assumes "job_queues X jobs" and "\<And>c t x. jobs (snd (tg_send T c t x)) = jobs x"
    and "valid_mint mint" and "valid_amount amt" and "side = ''buy'' \<or> side = ''sell''"
    and "word = side \<or> word = CHR ''/'' # side" and "tm_text m = trade_text word mint amt" and "addressed m"
    and "Some (sender (tm_from m)) \<notin> awaitingManual s"
    and "tg_handle X P T (Text m) s = (Ok (), s')" and "deferred s' = deferred s"
  shows "jobs (sys s') = jobs (sys s) @
      [(''trades'', ''execute-trade'',
        trade_payload \<lparr>t_side = side, t_mint = Some mint, t_sol = to_number amt\<rparr> (Some (sender (tm_from m))))]"
proof -
  let ?h = "Some (sender (tm_from m))" and ?cmd = "\<lparr>t_side = side, t_mint = Some mint, t_sol = to_number amt\<rparr>"
  let ?m = "\<lparr>msg_handle = ?h, msg_text = Some (strip_me (tg_me s) (tm_text m)), msg_button = None,
      msg_reply = Some (tg_send T (tm_chat m))\<rparr>"
  have sp: "spawn (handleMessage X ?m) s = (Ok (), s')"
    using assms(8-10) by (simp add: on_text_def Let_def bnd_def gets_def)
  have eq: "handleMessage X ?m s = dispatchTrade X ?cmd ?h (Some (tg_send T (tm_chat m))) s"
    using trade_message_run[OF assms(3-6), of ?m X s] trade_text_plain[OF assms(3-6)] assms(7)
    by (simp add: strip_me_mention)
  obtain r s1 where d: "dispatchTrade X ?cmd ?h (Some (tg_send T (tm_chat m))) s = (r, s1)" by force
  have "r = Ok () \<and> s' = s1"
    using sp eq d assms(11)
    by (auto simp: spawn_def dispatchTrade_def enqueueTrade_def andthen_def bnd_def ext_def split: prod.splits res.splits)
  with d have "dispatchTrade X ?cmd ?h (Some (tg_send T (tm_chat m))) s = (Ok (), s')" by simp
  with assms(1,2) show ?thesis by (rule job_queues.dispatchTrade_queues[THEN conjunct1])
qed



end
